(* ===== verification/Prelude.thy ===== *)
theory Prelude
  imports Complex_Main "HOL-Library.While_Combinator"
begin

text \<open>
  Shared vocabulary of the development. JavaScript numbers that stay finite are modelled
  as exact rationals (\<open>rat\<close>); where the code can divide by zero the value type is
  \<open>jsnum\<close>, which adds the IEEE values \<open>NaN\<close> and \<open>\<plusminus>Infinity\<close> with the propagation
  rules of JavaScript's \<open>+ - * /\<close>, \<open>Math.abs\<close> and \<open>Math.max\<close>. The theory also holds
  the library functions the sources call (\<open>Math.trunc\<close>, \<open>Math.floor(Math.log10 x)\<close>,
  \<open>Math.pow(10, k)\<close>, truthiness of optional strings, \<open>x || d\<close>, number to digit
  strings) and the generic lemmas the component theories share.
\<close>

named_theorems jsnum_simps "evaluation rules of JavaScript arithmetic"

type_synonym number = rat

subsection \<open>Floor of rational literals\<close>

lemma floor_rat_numeral_div [simp]:
  "\<lfloor>(numeral a / numeral b :: rat)\<rfloor> = numeral a div numeral b"
  using floor_divide_of_int_eq [of "numeral a" "numeral b", where 'a=rat] by simp

lemma floor_rat_one_div [simp]: "\<lfloor>(1 / numeral b :: rat)\<rfloor> = 1 div numeral b"
  using floor_divide_of_int_eq [of 1 "numeral b", where 'a=rat] by simp

lemma floor_rat_neg_numeral_div [simp]:
  "\<lfloor>(- numeral a / numeral b :: rat)\<rfloor> = - numeral a div numeral b"
  using floor_divide_of_int_eq [of "- numeral a" "numeral b", where 'a=rat] by simp

lemma floor_rat_neg_one_div [simp]: "\<lfloor>(- 1 / numeral b :: rat)\<rfloor> = - 1 div numeral b"
  using floor_divide_of_int_eq [of "- 1" "numeral b", where 'a=rat] by simp

lemma ceiling_rat_numeral_div [simp]:
  "\<lceil>(numeral a / numeral b :: rat)\<rceil> = - (- numeral a div numeral b)"
  by (simp only: ceiling_def minus_divide_left floor_rat_neg_numeral_div)

lemma ceiling_rat_neg_numeral_div [simp]:
  "\<lceil>(- numeral a / numeral b :: rat)\<rceil> = - (numeral a div numeral b)"
  by (simp only: ceiling_def minus_divide_left minus_minus floor_rat_numeral_div)

lemma floor_rat_minus_numeral_div [simp]:
  "\<lfloor>- (numeral a / numeral b :: rat)\<rfloor> = - numeral a div numeral b"
  by (simp only: minus_divide_left floor_rat_neg_numeral_div)

lemma ceiling_rat_minus_numeral_div [simp]:
  "\<lceil>- (numeral a / numeral b :: rat)\<rceil> = - (numeral a div numeral b)"
  by (simp only: minus_divide_left ceiling_rat_neg_numeral_div)

subsection \<open>\<open>Math.trunc\<close>\<close>

definition js_trunc :: "rat \<Rightarrow> int" where
  "js_trunc x = (if 0 \<le> x then \<lfloor>x\<rfloor> else \<lceil>x\<rceil>)"

lemma js_trunc_lower: "x - 1 < of_int (js_trunc x)"
  unfolding js_trunc_def by simp linarith
lemma js_trunc_upper: "of_int (js_trunc x) < x + 1"
  unfolding js_trunc_def by (simp add: ceiling_less_iff) linarith
lemma js_trunc_mono: "x \<le> y \<Longrightarrow> js_trunc x \<le> js_trunc y"
proof -
  assume xy: "x \<le> y"
  have "\<lceil>x\<rceil> \<le> \<lfloor>y\<rfloor>" if "x < 0" "0 \<le> y"
  proof -
    have "\<lceil>x\<rceil> \<le> 0" using that(1) by simp
    moreover have "0 \<le> \<lfloor>y\<rfloor>" using that(2) by simp
    ultimately show ?thesis by linarith
  qed
  with xy show ?thesis
    unfolding js_trunc_def by (auto intro: floor_mono ceiling_mono)
qed

lemma abs_div_third: "0 < (m::rat) \<Longrightarrow> \<bar>x\<bar> * 3 \<le> m \<Longrightarrow> \<bar>x / m\<bar> \<le> 1 / 3"
proof -
  assume m: "0 < m" and h: "\<bar>x\<bar> * 3 \<le> m"
  have "\<bar>x\<bar> \<le> 1 / 3 * m" using h by linarith
  then have "\<bar>x\<bar> / m \<le> 1 / 3" by (simp only: pos_divide_le_eq [OF m])
  then show ?thesis by (simp only: abs_div_pos [OF m, symmetric])
qed

lemma js_trunc_nonneg:
  assumes "0 \<le> x" shows "x - 1 < of_int (js_trunc x)" and "of_int (js_trunc x) \<le> x"
  using assms unfolding js_trunc_def by simp_all linarith

lemma js_trunc_neg:
  assumes "x < 0" shows "x \<le> of_int (js_trunc x)" and "of_int (js_trunc x) < x + 1"
  using assms unfolding js_trunc_def by (simp_all add: ceiling_less_iff) linarith

lemma js_trunc_add2: "js_trunc x < js_trunc (x + 2)"
  using js_trunc_upper [of x] js_trunc_lower [of "x + 2"] by linarith

lemma js_trunc_zero_iff: "js_trunc x = 0 \<longleftrightarrow> -1 < x \<and> x < 1"
  unfolding js_trunc_def by (auto simp: floor_eq_iff ceiling_eq_iff)

lemma js_trunc_of_int [simp]: "js_trunc (of_int k) = k"
  by (simp add: js_trunc_def)

subsection \<open>\<open>Math.floor(Math.log10 x)\<close>; \<open>Math.pow(10, e)\<close> is \<open>power_int 10 e\<close>\<close>

fun nat_log10 :: "nat \<Rightarrow> nat" where
  "nat_log10 n = (if n < 10 then 0 else Suc (nat_log10 (n div 10)))"

declare nat_log10.simps [simp del]

text \<open>
  \<open>floor_log10 d\<close> is \<open>Math.floor(Math.log10(d))\<close> for \<open>d > 0\<close>: the exponent \<open>e\<close>
  with \<open>10^e \<le> d < 10^(e+1)\<close>. Below 1 it is minus the least \<open>k\<close> with
  \<open>10^k \<ge> \<lceil>1/d\<rceil>\<close>.
\<close>

definition floor_log10 :: "rat \<Rightarrow> int" where
  "floor_log10 d =
     (if 1 \<le> d then int (nat_log10 (nat \<lfloor>d\<rfloor>))
      else - int (let n = nat \<lceil>1 / d\<rceil> in if n \<le> 1 then 0 else Suc (nat_log10 (n - 1))))"

lemma nat_log10_bounds:
  "0 < n \<Longrightarrow> 10 ^ nat_log10 n \<le> n \<and> n < 10 ^ Suc (nat_log10 n)"
proof (induction n rule: nat_log10.induct)
  case (1 n)
  show ?case
  proof (cases "n < 10")
    case True
    with "1.prems" show ?thesis by (simp add: nat_log10.simps)
  next
    case False
    then have "0 < n div 10" by simp
    with "1.IH" False have ih: "10 ^ nat_log10 (n div 10) \<le> n div 10"
        "n div 10 < 10 ^ Suc (nat_log10 (n div 10))" by auto
    from ih(1) have "10 * 10 ^ nat_log10 (n div 10) \<le> n" by linarith
    moreover from ih(2) have "n < 10 * 10 ^ Suc (nat_log10 (n div 10))" by linarith
    ultimately show ?thesis using False by (simp add: nat_log10.simps)
  qed
qed

lemma floor_log10_ge1:
  assumes "1 \<le> d"
  shows "power_int 10 (floor_log10 d) \<le> d \<and> d < power_int 10 (floor_log10 d + 1)"
proof -
  define n where "n = nat \<lfloor>d\<rfloor>"
  have n_pos: "0 < n" using assms by (simp add: n_def)
  have nd: "of_nat n \<le> d" "d < of_nat n + 1"
    using assms by (simp_all add: n_def) linarith
  have b: "10 ^ nat_log10 n \<le> n" "n < 10 ^ Suc (nat_log10 n)"
    using nat_log10_bounds [OF n_pos] by auto
  have "(of_nat (10 ^ nat_log10 n) :: rat) \<le> of_nat n"
    using b(1) by (simp only: of_nat_le_iff)
  then have "(10::rat) ^ nat_log10 n \<le> of_nat n" by simp
  then have lo: "(10::rat) ^ nat_log10 n \<le> d" using nd(1) by linarith
  have "n + 1 \<le> 10 ^ Suc (nat_log10 n)" using b(2) by linarith
  then have "(of_nat (n + 1) :: rat) \<le> of_nat (10 ^ Suc (nat_log10 n))"
    by (simp only: of_nat_le_iff)
  then have "of_nat n + 1 \<le> (10::rat) ^ Suc (nat_log10 n)" by simp
  then have hi: "d < (10::rat) ^ Suc (nat_log10 n)" using nd(2) by linarith
  have fl: "floor_log10 d = int (nat_log10 n)"
    using assms by (simp add: floor_log10_def n_def)
  have "int (nat_log10 n) + 1 = int (Suc (nat_log10 n))" by simp
  then have "power_int (10::rat) (int (nat_log10 n) + 1) = 10 ^ Suc (nat_log10 n)"
    by (simp only: power_int_of_nat)
  with lo hi fl show ?thesis by simp
qed

lemma floor_log10_lt1:
  assumes "0 < d" "d < 1"
  shows "power_int 10 (floor_log10 d) \<le> d \<and> d < power_int 10 (floor_log10 d + 1)"
proof -
  define n where "n = nat \<lceil>1 / d\<rceil>"
  have "1 < 1 / d" using assms by simp
  then have n2: "2 \<le> n" unfolding n_def by linarith
  define k where "k = nat_log10 (n - 1)"
  have b: "10 ^ k \<le> n - 1" "n - 1 < 10 ^ Suc k"
    using nat_log10_bounds [of "n - 1"] n2 by (auto simp: k_def)
  have fl: "floor_log10 d = - int (Suc k)"
    using assms n2 by (simp add: floor_log10_def n_def [symmetric] k_def Let_def)
  have nr: "1 / d \<le> of_nat n" "of_nat n - 1 < 1 / d"
    using \<open>1 < 1 / d\<close> unfolding n_def by (simp_all) linarith+
  have "n \<le> 10 ^ Suc k" using b(2) n2 by linarith
  then have "(of_nat n :: rat) \<le> of_nat (10 ^ Suc k)" by (simp only: of_nat_le_iff)
  then have "of_nat n \<le> (10::rat) ^ Suc k" by simp
  with nr have "1 / d \<le> 10 ^ Suc k" by linarith
  then have lo: "1 / 10 ^ Suc k \<le> d"
    using assms by (simp add: divide_le_eq field_simps)
  have "(of_nat (10 ^ k) :: rat) \<le> of_nat (n - 1)" using b(1) by (simp only: of_nat_le_iff)
  then have "(10::rat) ^ k \<le> of_nat n - 1" using n2 by (simp add: of_nat_diff)
  with nr have "10 ^ k < 1 / d" by linarith
  then have hi: "d < 1 / 10 ^ k"
    using assms by (simp add: less_divide_eq field_simps)
  have p1: "power_int (10::rat) (floor_log10 d) = 1 / 10 ^ Suc k"
    by (simp only: fl power_int_minus_divide power_int_of_nat)
  have "floor_log10 d + 1 = - int k" using fl by simp
  then have p2: "power_int (10::rat) (floor_log10 d + 1) = 1 / 10 ^ k"
    by (simp only: power_int_minus_divide power_int_of_nat)
  show ?thesis unfolding p1 p2 using lo hi by (rule conjI)
qed

lemma floor_log10_bounds:
  "0 < d \<Longrightarrow> power_int 10 (floor_log10 d) \<le> d \<and> d < power_int 10 (floor_log10 d + 1)"
  using floor_log10_ge1 floor_log10_lt1 by (cases "1 \<le> d") auto

subsection \<open>JavaScript numbers with \<open>NaN\<close> and \<open>Infinity\<close>\<close>

text \<open>
  \<open>Infinity True\<close> is \<open>+Infinity\<close>, \<open>Infinity False\<close> is \<open>-Infinity\<close>. A zero
  divisor is the positive zero that the code's divisors (differences \<open>x - x\<close> and
  sums of non-negative values) produce in IEEE arithmetic.
\<close>

datatype jsnum = Num rat | NaN | Infinity bool

instantiation jsnum :: "{plus, minus, uminus, times, inverse, abs, zero}"
begin

fun plus_jsnum :: "jsnum \<Rightarrow> jsnum \<Rightarrow> jsnum" where
  "plus_jsnum (Num a) (Num b) = Num (a + b)"
| "plus_jsnum (Infinity p) (Infinity q) = (if p = q then Infinity p else NaN)"
| "plus_jsnum (Infinity p) (Num _) = Infinity p"
| "plus_jsnum (Num _) (Infinity q) = Infinity q"
| "plus_jsnum _ _ = NaN"

fun uminus_jsnum :: "jsnum \<Rightarrow> jsnum" where
  "uminus_jsnum (Num a) = Num (- a)"
| "uminus_jsnum (Infinity p) = Infinity (\<not> p)"
| "uminus_jsnum NaN = NaN"

definition minus_jsnum :: "jsnum \<Rightarrow> jsnum \<Rightarrow> jsnum" where
  "minus_jsnum x y = x + (- y)"

fun times_jsnum :: "jsnum \<Rightarrow> jsnum \<Rightarrow> jsnum" where
  "times_jsnum (Num a) (Num b) = Num (a * b)"
| "times_jsnum (Infinity p) (Num b) = (if b = 0 then NaN else Infinity (p = (0 < b)))"
| "times_jsnum (Num a) (Infinity q) = (if a = 0 then NaN else Infinity (q = (0 < a)))"
| "times_jsnum (Infinity p) (Infinity q) = Infinity (p = q)"
| "times_jsnum _ _ = NaN"

fun divide_jsnum :: "jsnum \<Rightarrow> jsnum \<Rightarrow> jsnum" where
  "divide_jsnum (Num a) (Num b) =
     (if b = 0 then (if a = 0 then NaN else Infinity (0 < a)) else Num (a / b))"
| "divide_jsnum (Num _) (Infinity _) = Num 0"
| "divide_jsnum (Infinity p) (Num b) = Infinity (p = (0 \<le> b))"
| "divide_jsnum _ _ = NaN"

fun abs_jsnum :: "jsnum \<Rightarrow> jsnum" where
  "abs_jsnum (Num a) = Num \<bar>a\<bar>"
| "abs_jsnum (Infinity _) = Infinity True"
| "abs_jsnum NaN = NaN"

definition inverse_jsnum :: "jsnum \<Rightarrow> jsnum" where
  "inverse_jsnum x = divide (Num 1) x"

definition zero_jsnum :: jsnum where
  "zero_jsnum = Num 0"

instance ..

end

text \<open>\<open>Math.max(a, b)\<close>: \<open>NaN\<close> if either argument is \<open>NaN\<close>.\<close>

fun js_max :: "jsnum \<Rightarrow> jsnum \<Rightarrow> jsnum" where
  "js_max (Num a) (Num b) = Num (max a b)"
| "js_max (Infinity p) (Num b) = (if p then Infinity True else Num b)"
| "js_max (Num a) (Infinity q) = (if q then Infinity True else Num a)"
| "js_max (Infinity p) (Infinity q) = Infinity (p \<or> q)"
| "js_max _ _ = NaN"

text \<open>\<open>a < b\<close> on numbers: false whenever \<open>NaN\<close> takes part.\<close>

fun js_less :: "jsnum \<Rightarrow> jsnum \<Rightarrow> bool" where
  "js_less (Num a) (Num b) = (a < b)"
| "js_less (Infinity p) (Num _) = (\<not> p)"
| "js_less (Num _) (Infinity q) = q"
| "js_less (Infinity p) (Infinity q) = (\<not> p \<and> q)"
| "js_less _ _ = False"

text \<open>\<open>x || 0\<close> on a number: \<open>NaN\<close> and zero are falsy.\<close>

fun js_or0 :: "jsnum \<Rightarrow> jsnum" where
  "js_or0 NaN = Num 0"
| "js_or0 x = x"

definition js_sum :: "jsnum list \<Rightarrow> jsnum" where
  "js_sum xs = foldl (+) (Num 0) xs"

definition is_finite :: "jsnum \<Rightarrow> bool" where
  "is_finite x = (case x of Num _ \<Rightarrow> True | _ \<Rightarrow> False)"

lemma jsnum_Num_arith [simp, jsnum_simps]:
  "Num a + Num b = Num (a + b)"
  "Num a - Num b = Num (a - b)"
  "- Num a = Num (- a)"
  "Num a * Num b = Num (a * b)"
  "\<bar>Num a\<bar> = Num \<bar>a\<bar>"
  "js_max (Num a) (Num b) = Num (max a b)"
  "js_less (Num a) (Num b) = (a < b)"
  "js_or0 (Num a) = Num a"
  by (simp_all add: minus_jsnum_def)

lemma jsnum_Num_divide [simp, jsnum_simps]: "b \<noteq> 0 \<Longrightarrow> Num a / Num b = Num (a / b)"
  by simp

lemma jsnum_NaN_absorb [simp, jsnum_simps]:
  "NaN + x = NaN" "x + NaN = NaN" "NaN - x = NaN" "x - NaN = NaN"
  "NaN * x = NaN" "x * NaN = NaN" "NaN / x = NaN" "x / NaN = NaN"
  "js_max NaN x = NaN" "js_max x NaN = NaN" "\<not> js_less NaN x" "\<not> js_less x NaN"
  by (cases x; simp add: minus_jsnum_def)+

lemma js_sum_Num_aux: "foldl (+) (Num a) (map Num xs) = Num (a + sum_list xs)"
  by (induction xs arbitrary: a) (simp_all add: add.assoc)

lemma js_sum_Num [simp, jsnum_simps]: "js_sum (map Num xs) = Num (sum_list xs)"
  by (simp add: js_sum_def js_sum_Num_aux)

lemma js_sum_NaN_aux: "NaN \<in> set xs \<Longrightarrow> foldl (+) a xs = NaN"
proof (induction xs arbitrary: a)
  case Nil
  then show ?case by simp
next
  case (Cons x xs)
  show ?case
  proof (cases "NaN \<in> set xs")
    case True
    with Cons.IH show ?thesis by simp
  next
    case False
    with Cons.prems have "x = NaN" by simp
    moreover have "foldl (+) NaN ys = NaN" for ys :: "jsnum list"
      by (induction ys) simp_all
    ultimately show ?thesis by simp
  qed
qed

lemma js_sum_NaN: "NaN \<in> set xs \<Longrightarrow> js_sum xs = NaN"
  by (simp add: js_sum_def js_sum_NaN_aux)

subsection \<open>Truthiness, defaults and digit strings\<close>

text \<open>\<open>!!s\<close> for an optional string: \<open>undefined\<close> and \<open>''\<close> are falsy.\<close>

definition js_truthy_str :: "string option \<Rightarrow> bool" where
  "js_truthy_str s = (case s of Some x \<Rightarrow> x \<noteq> [] | None \<Rightarrow> False)"

text \<open>\<open>x || d\<close> for an optional number: \<open>undefined\<close> and \<open>0\<close> are falsy.\<close>

definition js_or_num :: "rat option \<Rightarrow> rat \<Rightarrow> rat" where
  "js_or_num x d = (case x of Some v \<Rightarrow> if v = 0 then d else v | None \<Rightarrow> d)"

text \<open>\<open>String(n)\<close> for a natural number: its decimal digits.\<close>

fun string_of_nat :: "nat \<Rightarrow> string" where
  "string_of_nat n =
     (if n < 10 then [char_of (48 + n)] else string_of_nat (n div 10) @ [char_of (48 + n mod 10)])"

declare string_of_nat.simps [simp del]

subsection \<open>Strings of decimal digits\<close>

definition is_digit :: "char \<Rightarrow> bool" where
  "is_digit c \<longleftrightarrow> 48 \<le> (of_char c :: nat) \<and> (of_char c :: nat) \<le> 57"

definition digit_value :: "char \<Rightarrow> nat" where
  "digit_value c = of_char c - 48"

text \<open>\<open>Number(ds)\<close> for a non-empty string of decimal digits.\<close>

definition nat_of_digits :: "string \<Rightarrow> nat" where
  "nat_of_digits ds = foldl (\<lambda>n c. 10 * n + digit_value c) 0 ds"

subsection \<open>JavaScript objects used as dictionaries\<close>

text \<open>
  An object is its own properties in creation order, each key once. Assigning an existing
  key keeps its position. \<open>Object.keys\<close> lists the array-index keys (canonical decimal
  numerals below \<open>2^32 - 1\<close>) first, in ascending numeric order, and then the other keys in
  creation order.
\<close>

type_synonym 'v js_object = "(string \<times> 'v) list"

definition is_array_index :: "string \<Rightarrow> bool" where
  "is_array_index k \<longleftrightarrow> k \<noteq> [] \<and> list_all is_digit k \<and> (k = ''0'' \<or> hd k \<noteq> CHR ''0'') \<and>
     nat_of_digits k < 2 ^ 32 - 1"

definition obj_set :: "string \<Rightarrow> 'v \<Rightarrow> 'v js_object \<Rightarrow> 'v js_object" where
  "obj_set k v obj =
     (if k \<in> set (map fst obj) then map (\<lambda>(k', v'). if k' = k then (k', v) else (k', v')) obj
      else obj @ [(k, v)])"

definition obj_get :: "'v js_object \<Rightarrow> string \<Rightarrow> 'v option" where
  "obj_get obj k = map_of obj k"

text \<open>An object literal \<open>{k1: v1, k2: v2, ...}\<close>, evaluated left to right.\<close>

definition obj_literal :: "(string \<times> 'v) list \<Rightarrow> 'v js_object" where
  "obj_literal kvs = foldl (\<lambda>obj (k, v). obj_set k v obj) [] kvs"

definition object_keys :: "'v js_object \<Rightarrow> string list" where
  "object_keys obj =
     sort_key nat_of_digits (filter is_array_index (map fst obj)) @
     filter (\<lambda>k. \<not> is_array_index k) (map fst obj)"

text \<open>
  The members an object literal \<open>{}\<close> inherits from \<open>Object.prototype\<close>: reading one of
  these keys from an object that does not own it finds the inherited member.
\<close>

definition object_prototype_members :: "string list" where
  "object_prototype_members =
     [''constructor'', ''__defineGetter__'', ''__defineSetter__'', ''hasOwnProperty'',
      ''__lookupGetter__'', ''__lookupSetter__'', ''isPrototypeOf'', ''propertyIsEnumerable'',
      ''toString'', ''valueOf'', ''__proto__'', ''toLocaleString'']"

text \<open>An exception the code throws, such as reading a property of \<open>undefined\<close>.\<close>

datatype js_error = TypeError

subsection \<open>Rendered elements\<close>

text \<open>
  The element tree a \<open>render\<close> method returns: a tag, its attributes in source order and its
  children; an array child is spliced into the children, and \<open>null\<close>, \<open>false\<close> and
  \<open>undefined\<close> children are \<open>VNull\<close>. Attribute values are strings, numbers (\<open>key\<close>),
  class-token lists, styles that keep their numbers (\<open>`${top}%`\<close> is \<open>(''top'', top)\<close>)
  or are written as strings (\<open>left: '330px'\<close>),
  string lists (\<open>items\<close>), and event handlers named by the method they call and the
  arguments they bind.
\<close>

datatype attr_val = AStr string | ANum jsnum | AClasses "string list" | AStyle "(string \<times> jsnum) list"
  | AStrs "string list" | AHandler string "string list" | AStyleStr "(string \<times> string) list"

datatype vnode = VNull | VText string | VElem string "(string \<times> attr_val) list" "vnode list"

text \<open>
  A JavaScript \<open>map\<close> whose callback may throw: the first exception, or all the results.
\<close>

fun sequence_sum :: "('e + 'a) list \<Rightarrow> 'e + 'a list" where
  "sequence_sum [] = Inr []"
| "sequence_sum (Inl e # xs) = Inl e"
| "sequence_sum (Inr x # xs) = (case sequence_sum xs of Inl e \<Rightarrow> Inl e | Inr ys \<Rightarrow> Inr (x # ys))"

text \<open>\<open>Array.prototype.join(sep)\<close> on strings.\<close>

fun js_join :: "string \<Rightarrow> string list \<Rightarrow> string" where
  "js_join sep [] = []"
| "js_join sep [x] = x"
| "js_join sep (x # y # zs) = x @ sep @ js_join sep (y # zs)"

text \<open>\<open>String.prototype.split(sep)\<close> for a one-character separator: the pieces between
  separators, empty pieces included (\<open>''.split('&')\<close> is \<open>['']\<close>).\<close>

fun js_split :: "char \<Rightarrow> string \<Rightarrow> string list" where
  "js_split sep [] = [[]]"
| "js_split sep (c # cs) =
     (if c = sep then [] # js_split sep cs
      else (case js_split sep cs of p # ps \<Rightarrow> (c # p) # ps | [] \<Rightarrow> [[c]]))"

text \<open>The key of a computed property \<open>[x]\<close> for an optional string: \<open>undefined\<close> converts to
  \<open>'undefined'\<close>.\<close>

definition js_key :: "string option \<Rightarrow> string" where
  "js_key s = (case s of Some x \<Rightarrow> x | None \<Rightarrow> ''undefined'')"

lemma string_of_nat_not_empty [simp]: "string_of_nat n \<noteq> []"
  by (subst string_of_nat.simps) simp

lemma js_truthy_str_simps [simp]:
  "js_truthy_str None = False" "js_truthy_str (Some s) = (s \<noteq> [])"
  by (simp_all add: js_truthy_str_def)

lemma js_or_num_simps [simp]:
  "js_or_num None d = d" "js_or_num (Some v) d = (if v = 0 then d else v)"
  by (simp_all add: js_or_num_def)

subsection \<open>Folds that compute minima and maxima\<close>

lemma foldl_min_le:
  fixes f :: "'b \<Rightarrow> 'a::linorder"
  shows "foldl (\<lambda>acc x. min acc (f x)) a xs \<le> a \<and>
   (\<forall>y\<in>set xs. foldl (\<lambda>acc x. min acc (f x)) a xs \<le> f y)"
proof (induction xs arbitrary: a)
  case (Cons x xs)
  from Cons.IH [of "min a (f x)"] show ?case
    by simp
qed simp

lemma foldl_min_mem: "foldl (\<lambda>acc x. min acc (f x)) a xs \<in> insert a (f ` set xs)"
  by (induction xs arbitrary: a) (auto simp: min_def)

lemma foldl_max_ge:
  fixes f :: "'b \<Rightarrow> 'a::linorder"
  shows "a \<le> foldl (\<lambda>acc x. max acc (f x)) a xs \<and>
   (\<forall>y\<in>set xs. f y \<le> foldl (\<lambda>acc x. max acc (f x)) a xs)"
proof (induction xs arbitrary: a)
  case (Cons x xs)
  from Cons.IH [of "max a (f x)"] show ?case
    by simp
qed simp

lemma foldl_max_mem: "foldl (\<lambda>acc x. max acc (f x)) a xs \<in> insert a (f ` set xs)"
  by (induction xs arbitrary: a) (auto simp: max_def)


subsection \<open>Integral rationals and powers of ten\<close>

lemma not_Ints_between:
  assumes "of_int k < x" "x < of_int k + 1"
  shows "(x::rat) \<notin> \<int>"
proof
  assume "x \<in> \<int>"
  then obtain m where m: "x = of_int m" by (auto elim: Ints_cases)
  then have "k < m" "m < k + 1" using assms by simp_all
  then show False by simp
qed

lemma Ints_abs_rat: "(x::rat) \<in> \<int> \<Longrightarrow> \<bar>x\<bar> \<in> \<int>"
  by (auto elim!: Ints_cases)

lemma exists_pow10_ge: "0 < (x::rat) \<Longrightarrow> \<exists>n. 1 / 10 \<le> x * 10 ^ n"
proof -
  assume x: "0 < x"
  obtain n where n: "1 / 10 < of_nat n * x" using ex_less_of_nat_mult [OF x] by blast
  have "n \<le> 2 ^ n" by (rule less_imp_le [OF less_exp])
  also have "(2::nat) ^ n \<le> 10 ^ n" by (rule power_mono) simp_all
  finally have "(of_nat n :: rat) \<le> of_nat (10 ^ n)" by (simp only: of_nat_le_iff)
  then have "of_nat n * x \<le> 10 ^ n * x" using x by (simp add: mult_right_mono)
  then have "1 / 10 \<le> 10 ^ n * x" using n by linarith
  then have "1 / 10 \<le> x * 10 ^ n" by (simp only: mult.commute)
  then show ?thesis by blast
qed

lemma pow10_Suc_ge: "(10::rat) \<le> 10 ^ Suc n"
  by simp


subsection \<open>Digits and decimal numerals\<close>

lemma nat_of_digits_snoc: "nat_of_digits (ds @ [c]) = 10 * nat_of_digits ds + digit_value c"
  by (simp add: nat_of_digits_def)

lemma digit_value_char_of: "(d::nat) < 10 \<Longrightarrow> digit_value (char_of (48 + d)) = d"
  by (simp add: digit_value_def)

lemma is_digit_char_of: "(d::nat) < 10 \<Longrightarrow> is_digit (char_of (48 + d))"
  by (simp add: is_digit_def)

lemma nat_of_digits_string_of_nat [simp]: "nat_of_digits (string_of_nat n) = n"
proof (induction n rule: string_of_nat.induct)
  case (1 n)
  show ?case
  proof (cases "n < 10")
    case True
    then show ?thesis
      by (subst string_of_nat.simps) (simp add: nat_of_digits_def digit_value_char_of)
  next
    case False
    then show ?thesis using 1
      by (subst string_of_nat.simps) (simp add: nat_of_digits_snoc digit_value_char_of)
  qed
qed

lemma string_of_nat_digits: "\<forall>c\<in>set (string_of_nat n). is_digit c"
proof (induction n rule: string_of_nat.induct)
  case (1 n)
  then show ?case
    by (subst string_of_nat.simps) (auto simp: is_digit_char_of)
qed

lemma string_of_nat_inj [simp]: "string_of_nat m = string_of_nat n \<longleftrightarrow> m = n"
proof
  assume "string_of_nat m = string_of_nat n"
  then have "nat_of_digits (string_of_nat m) = nat_of_digits (string_of_nat n)" by simp
  then show "m = n" by simp
qed simp

lemma string_of_nat_hd: "hd (string_of_nat n) = CHR ''0'' \<Longrightarrow> n = 0"
proof (induction n rule: string_of_nat.induct)
  case (1 n)
  show ?case
  proof (cases "n < 10")
    case True
    then have "char_of (48 + n) = CHR ''0''" using 1(2)
      by (subst (asm) string_of_nat.simps) simp
    then have "(of_char (char_of (48 + n)) :: nat) = of_char CHR ''0''" by (rule arg_cong)
    then show ?thesis using True by simp
  next
    case False
    then have "hd (string_of_nat (n div 10)) = CHR ''0''" using 1(2)
      by (subst (asm) string_of_nat.simps) simp
    then have "n div 10 = 0" using 1(1) False by blast
    then show ?thesis using False by simp
  qed
qed

subsection \<open>Objects\<close>

lemma obj_set_keys: "map fst (obj_set k v obj) = (if k \<in> set (map fst obj) then map fst obj
  else map fst obj @ [k])"
  by (induction obj) (auto simp: obj_set_def split: prod.splits)

lemma obj_set_distinct: "distinct (map fst obj) \<Longrightarrow> distinct (map fst (obj_set k v obj))"
  by (simp add: obj_set_keys)

lemma map_of_update_value:
  "map_of (map (\<lambda>(k', v'). if k' = k then (k', v) else (k', v')) obj) k' =
   (if k' = k \<and> k \<in> set (map fst obj) then Some v else map_of obj k')"
proof (induction obj)
  case (Cons kv obj)
  obtain a b where kv: "kv = (a, b)" by (cases kv)
  show ?case using Cons.IH by (cases "a = k"; cases "k' = a"; simp add: kv)
qed simp

lemma obj_get_empty [simp]: "obj_get [] k = None"
  by (simp add: obj_get_def)

lemma obj_get_set:
  "obj_get (obj_set k v obj) k' = (if k' = k then Some v else obj_get obj k')"
proof (cases "k \<in> set (map fst obj)")
  case True
  then show ?thesis by (simp add: obj_set_def obj_get_def map_of_update_value)
next
  case False
  then have "map_of obj k = None" by (simp add: map_of_eq_None_iff)
  then show ?thesis using False by (simp add: obj_set_def obj_get_def map_add_def split: option.splits)
qed

lemma obj_literal_distinct: "distinct (map fst (obj_literal kvs))"
proof -
  have "distinct (map fst obj) \<Longrightarrow> distinct (map fst (foldl (\<lambda>obj (k, v). obj_set k v obj) obj kvs))"
    for obj by (induction kvs arbitrary: obj) (auto simp: obj_set_distinct)
  then show ?thesis by (simp add: obj_literal_def)
qed

lemma obj_literal_fresh_aux:
  "distinct (map fst (obj @ kvs)) \<Longrightarrow> foldl (\<lambda>obj (k, v). obj_set k v obj) obj kvs = obj @ kvs"
proof (induction kvs arbitrary: obj)
  case (Cons kv kvs)
  obtain k v where kv: "kv = (k, v)" by (cases kv)
  have "k \<notin> set (map fst obj)" using Cons.prems kv by auto
  then have "obj_set k v obj = obj @ [(k, v)]" by (simp add: obj_set_def)
  moreover have "distinct (map fst ((obj @ [(k, v)]) @ kvs))" using Cons.prems kv by simp
  ultimately show ?case using Cons.IH [of "obj @ [(k, v)]"] kv by simp
qed simp

lemma obj_literal_fresh: "distinct (map fst kvs) \<Longrightarrow> obj_literal kvs = kvs"
proof -
  assume d: "distinct (map fst kvs)"
  have "foldl (\<lambda>obj (k, v). obj_set k v obj) [] kvs = [] @ kvs"
    by (rule obj_literal_fresh_aux) (simp add: d)
  then show ?thesis by (simp add: obj_literal_def)
qed

lemma object_keys_plain:
  "\<forall>k\<in>set (map fst obj). \<not> is_array_index k \<Longrightarrow> object_keys obj = map fst obj"
  by (simp add: object_keys_def filter_id_conv)

lemma foldl_inv: "(\<And>n x. P n \<Longrightarrow> P (g n x)) \<Longrightarrow> P a \<Longrightarrow> P (foldl g a xs)"
  by (induction xs arbitrary: a) simp_all

lemma set_object_keys [simp]: "set (object_keys obj) = set (map fst obj)"
  by (auto simp: object_keys_def)

lemma obj_get_None_iff: "obj_get obj k = None \<longleftrightarrow> k \<notin> set (map fst obj)"
  by (simp add: obj_get_def map_of_eq_None_iff)

lemma distinct_object_keys: "distinct (map fst obj) \<Longrightarrow> distinct (object_keys obj)"
  unfolding object_keys_def by (simp add: distinct_sort) blast

lemma js_split_not_Nil [simp]: "js_split sep s \<noteq> []"
  by (induction s) (auto split: list.splits)

lemma js_join_Cons_head: "js_join sep ((c # a) # xs) = c # js_join sep (a # xs)"
  by (cases xs) simp_all

lemma js_join_split: "js_join [sep] (js_split sep s) = s"
proof (induction s)
  case (Cons c cs)
  show ?case
  proof (cases "c = sep")
    case True
    then show ?thesis using Cons.IH by (cases "js_split sep cs") simp_all
  next
    case False
    then show ?thesis using Cons.IH by (cases "js_split sep cs") (simp_all add: js_join_Cons_head)
  qed
qed simp

lemma js_key_simps [simp]: "js_key None = ''undefined''" "js_key (Some s) = s"
  by (simp_all add: js_key_def)

lemma sequence_sum_map_Inr [simp]: "sequence_sum (map Inr ys) = Inr ys"
  by (induction ys) simp_all

lemma sequence_sum_Inr_iff: "sequence_sum xs = Inr ys \<longleftrightarrow> xs = map Inr ys"
  by (induction xs arbitrary: ys rule: sequence_sum.induct) (auto split: sum.splits)

lemma sequence_sum_Inr_ex: "(\<exists>ys. sequence_sum xs = Inr ys) \<longleftrightarrow> (\<forall>x\<in>set xs. \<not> isl x)"
  by (induction xs rule: sequence_sum.induct) (auto split: sum.splits)

lemma sequence_sum_zip_Inr:
  "(\<And>l i. l \<in> set ls \<Longrightarrow> \<not> isl (g (l, i))) \<Longrightarrow> \<exists>vs. sequence_sum (map g (zip (take k ls) xs)) = Inr vs"
  unfolding sequence_sum_Inr_ex by (fastforce dest!: set_zip_leftD in_set_takeD)

end
