(* ===== verification/BarChart_Range.thy ===== *)
theory BarChart_Range
  imports Prelude
begin

text \<open>
  The data model of \<open>src/src/BarChart/index.tsx\<close> (\<open>BarProps\<close>, \<open>Range\<close>) and the range
  calculator \<open>BarChart.computeDataRange\<close>: the quantitative domain of the chart, the
  data's extent widened to include zero and padded by 5\<percent> on each side, or by
  15\<percent> on a side where a labelled bar has to show its label.
\<close>

text \<open>\<open>BarProps\<close>. The optional \<open>empty\<close> flag is read only for its truthiness.\<close>

record bar =
  bar_value :: number
  bar_label :: "string option"
  bar_axisLabel :: "string option"
  bar_className :: "string option"
  bar_empty :: bool

text \<open>\<open>Range\<close>: \<open>{min, max}\<close>.\<close>

record chart_range =
  rmin :: number
  rmax :: number

definition value_bar :: "number \<Rightarrow> bar" where
  "value_bar v = \<lparr>bar_value = v, bar_label = None, bar_axisLabel = None,
     bar_className = None, bar_empty = False\<rparr>"

definition labelled_bar :: "number \<Rightarrow> string \<Rightarrow> bar" where
  "labelled_bar v l = (value_bar v)\<lparr>bar_label := Some l\<rparr>"

subsection \<open>\<open>computeDataRange\<close>\<close>

text \<open>
  \<open>bars\<close> may be \<open>null\<close> in the source (\<open>if (!bars)\<close>), hence the option. The
  divisor \<open>1 - topMargin - bottomMargin\<close> is one of \<open>0.9, 0.8, 0.7\<close>, never zero.
\<close>

definition computeDataRange :: "bar list option \<Rightarrow> chart_range" where
  "computeDataRange bs =
     (case bs of
        None \<Rightarrow> \<lparr>rmin = 0, rmax = 0\<rparr>
      | Some bars \<Rightarrow>
          (let margin = 5 / 100;
               minVal = foldl (\<lambda>acc bar. min acc (bar_value bar)) 0 bars;
               maxVal = foldl (\<lambda>acc bar. max acc (bar_value bar)) 0 bars;
               hasBarNegativeLabels =
                 list_ex (\<lambda>bar. js_truthy_str (bar_label bar) \<and> bar_value bar < 0) bars;
               bottomMargin = margin + (if hasBarNegativeLabels then margin * 2 else 0);
               hasBarPositiveLabels =
                 list_ex (\<lambda>bar. js_truthy_str (bar_label bar) \<and> 0 \<le> bar_value bar) bars;
               topMargin = margin + (if hasBarPositiveLabels then margin * 2 else 0);
               range = maxVal - minVal;
               expandedRange = range / (1 - topMargin - bottomMargin)
           in \<lparr>rmin = minVal - expandedRange * bottomMargin,
               rmax = maxVal + expandedRange * topMargin\<rparr>))"

text \<open>
  The margins the code chooses, named for the statements below: 15\<percent> on a side with
  a labelled bar, 5\<percent> otherwise.
\<close>

definition top_margin :: "bar list \<Rightarrow> rat" where
  "top_margin bars =
     5 / 100 + (if \<exists>b\<in>set bars. js_truthy_str (bar_label b) \<and> 0 \<le> bar_value b
                then 5 / 100 * 2 else 0)"

definition bottom_margin :: "bar list \<Rightarrow> rat" where
  "bottom_margin bars =
     5 / 100 + (if \<exists>b\<in>set bars. js_truthy_str (bar_label b) \<and> bar_value b < 0
                then 5 / 100 * 2 else 0)"

abbreviation data_min :: "bar list \<Rightarrow> rat" where
  "data_min bars \<equiv> foldl (\<lambda>acc bar. min acc (bar_value bar)) 0 bars"

abbreviation data_max :: "bar list \<Rightarrow> rat" where
  "data_max bars \<equiv> foldl (\<lambda>acc bar. max acc (bar_value bar)) 0 bars"

lemma computeDataRange_Some:
  "computeDataRange (Some bars) =
     \<lparr>rmin = data_min bars - (data_max bars - data_min bars) /
               (1 - top_margin bars - bottom_margin bars) * bottom_margin bars,
      rmax = data_max bars + (data_max bars - data_min bars) /
               (1 - top_margin bars - bottom_margin bars) * top_margin bars\<rparr>"
  unfolding computeDataRange_def top_margin_def bottom_margin_def list_ex_iff Let_def
  by (simp only: option.case)

lemma margins_bounds:
  "top_margin bars \<in> {5/100, 15/100}" "bottom_margin bars \<in> {5/100, 15/100}"
  by (simp_all add: top_margin_def bottom_margin_def)

lemma margins_pos: "0 < top_margin bars" "0 < bottom_margin bars"
  using margins_bounds [of bars] by auto

lemma margin_denominator_pos: "0 < 1 - top_margin bars - bottom_margin bars"
  using margins_bounds [of bars] by auto

lemma data_min_max:
  "data_min bars \<le> 0" "0 \<le> data_max bars"
  "\<forall>b\<in>set bars. data_min bars \<le> bar_value b \<and> bar_value b \<le> data_max bars"
  using foldl_min_le [of bar_value 0 bars] foldl_max_ge [of 0 bar_value bars] by auto

subsection \<open>Properties of the range calculator\<close>

text \<open>
  The padded domain in terms of the expanded span \<open>E = (maxVal - minVal) / (1 - top - bottom)\<close>:
  \<open>min = minVal - E * bottom\<close>, \<open>max = maxVal + E * top\<close>, and \<open>max - min = E\<close>.
\<close>

lemma computeDataRange_span:
  fixes bars :: "bar list"
  defines "E \<equiv> (data_max bars - data_min bars) / (1 - top_margin bars - bottom_margin bars)"
  shows "rmin (computeDataRange (Some bars)) = data_min bars - E * bottom_margin bars"
    and "rmax (computeDataRange (Some bars)) = data_max bars + E * top_margin bars"
    and "rmax (computeDataRange (Some bars)) - rmin (computeDataRange (Some bars)) = E"
    and "0 \<le> E"
proof -
  let ?d = "1 - top_margin bars - bottom_margin bars"
  have d: "0 < ?d" by (rule margin_denominator_pos)
  show rr: "rmin (computeDataRange (Some bars)) = data_min bars - E * bottom_margin bars"
    "rmax (computeDataRange (Some bars)) = data_max bars + E * top_margin bars"
    by (simp_all add: computeDataRange_Some E_def)
  have "data_max bars - data_min bars = E * ?d"
    using d by (simp add: E_def)
  then show "rmax (computeDataRange (Some bars)) - rmin (computeDataRange (Some bars)) = E"
    by (simp add: rr algebra_simps)
  show "0 \<le> E"
    using d data_min_max [of bars] by (simp add: E_def)
qed

text \<open>
  C1: the span of the padded domain is \<open>(maxVal - minVal) / (1 - top - bottom)\<close>, and the
  gaps above the largest and below the smallest value are exactly the top and bottom margin
  fractions (5\<percent>, or 15\<percent> on a side with a labelled bar) of that span.
\<close>

theorem computeDataRange_margins:
  "let r = computeDataRange (Some bars) in
       rmax r - rmin r = (data_max bars - data_min bars) / (1 - top_margin bars - bottom_margin bars)
     \<and> rmax r - data_max bars = top_margin bars * (rmax r - rmin r)
     \<and> data_min bars - rmin r = bottom_margin bars * (rmax r - rmin r)"
  using computeDataRange_span [of bars] by (simp add: Let_def)

text \<open>
  C2: the domain always contains zero and every bar's value (\<open>min \<le> 0 \<le> max\<close>), as
  the axis and the bar geometry assume.
\<close>

theorem computeDataRange_contains:
  "rmin (computeDataRange (Some bars)) \<le> 0 \<and> 0 \<le> rmax (computeDataRange (Some bars)) \<and>
   (\<forall>b\<in>set bars. rmin (computeDataRange (Some bars)) \<le> bar_value b \<and>
                    bar_value b \<le> rmax (computeDataRange (Some bars)))"
proof -
  note sp = computeDataRange_span [of bars]
  let ?E = "(data_max bars - data_min bars) / (1 - top_margin bars - bottom_margin bars)"
  have "0 \<le> ?E * top_margin bars"
    by (rule mult_nonneg_nonneg [OF sp(4)]) (simp add: less_imp_le margins_pos)
  then have hi: "data_max bars \<le> rmax (computeDataRange (Some bars))"
    using sp(2) by linarith
  have "0 \<le> ?E * bottom_margin bars"
    by (rule mult_nonneg_nonneg [OF sp(4)]) (simp add: less_imp_le margins_pos)
  then have lo: "rmin (computeDataRange (Some bars)) \<le> data_min bars"
    using sp(1) by linarith
  show ?thesis using hi lo data_min_max [of bars] by fastforce
qed

end
