(* ===== verification/BarChart_Ticks.thy ===== *)
theory BarChart_Ticks
  imports BarChart_Range
begin

text \<open>
  The axis tick generator \<open>BarChart.computeQuantAxisMarkerVals\<close> (lines 135--179 of
  \<open>src/src/BarChart/index.tsx\<close>). The loop state is the record \<open>marker_state\<close>; the
  \<open>for\<close> loop over the candidate increments is \<open>marker_scan\<close>, one pass of the
  \<open>while\<close> loop is \<open>marker_step\<close>, and the \<open>while\<close> loop is \<open>while_option\<close>, whose
  \<open>None\<close> would mean that the loop does not stop (it always stops:
  \<open>computeQuantAxisMarkerVals_terminates\<close>).
\<close>

record marker_state =
  magnitude :: rat
  increment :: rat
  markerMax :: rat
  markerCount :: rat

definition possibleIncrements :: "rat list" where
  "possibleIncrements = [1, 2, 5 / 2, 5]"

definition maxMarkerCount :: rat where
  "maxMarkerCount = 5"

text \<open>One candidate increment: the loop body before its \<open>break\<close> test.\<close>

definition marker_candidate :: "chart_range \<Rightarrow> rat \<Rightarrow> marker_state \<Rightarrow> marker_state" where
  "marker_candidate r inc s =
     (let mMax = of_int (js_trunc (rmax r / inc + 66 / 100)) * inc;
          mMin = of_int (js_trunc (rmin r / inc - 66 / 100)) * inc
      in s\<lparr>increment := inc, markerMax := mMax, markerCount := (mMax - mMin) / inc + 1\<rparr>)"

text \<open>The \<open>for\<close> loop with its \<open>break\<close> at the first acceptable candidate.\<close>

fun marker_scan :: "chart_range \<Rightarrow> rat list \<Rightarrow> marker_state \<Rightarrow> marker_state" where
  "marker_scan r [] s = s"
| "marker_scan r (p # ps) s =
     (let s' = marker_candidate r (p * magnitude s) s
      in if markerCount s' \<le> maxMarkerCount then s' else marker_scan r ps s')"

definition marker_step :: "chart_range \<Rightarrow> marker_state \<Rightarrow> marker_state" where
  "marker_step r s =
     (let s' = marker_scan r possibleIncrements s in s'\<lparr>magnitude := magnitude s' * 10\<rparr>)"

text \<open>
  The state before the loop: \<open>magnitude = Math.pow(10, Math.floor(Math.log10(max - min)) - 1)\<close>
  and \<open>markerCount = maxMarkerCount + 1\<close>; \<open>increment\<close> and \<open>markerMax\<close> are still
  \<open>undefined\<close> and are written before they are read.
\<close>

definition marker_init :: "chart_range \<Rightarrow> marker_state" where
  "marker_init r =
     \<lparr>magnitude = power_int 10 (floor_log10 (rmax r - rmin r) - 1), increment = 0,
      markerMax = 0, markerCount = maxMarkerCount + 1\<rparr>"

text \<open>\<open>for (let i = 0; i < markerCount; i++) markerVals.push(markerMax - i * increment)\<close>.\<close>

definition marker_vals :: "marker_state \<Rightarrow> rat list" where
  "marker_vals s = map (\<lambda>i. markerMax s - of_nat i * increment s) [0..<nat \<lceil>markerCount s\<rceil>]"

text \<open>
  For \<open>max - min \<le> 0\<close> the source takes the logarithm of zero or of a negative number:
  \<open>magnitude\<close> is \<open>0\<close> or \<open>NaN\<close>, every candidate's \<open>markerCount\<close> is \<open>NaN\<close>, both
  \<open>NaN <= 5\<close> and \<open>NaN > 5\<close> are false, so the loop exits after one pass and
  \<open>i < NaN\<close> pushes nothing: the result is \<open>[]\<close>.
\<close>

definition computeQuantAxisMarkerVals :: "chart_range \<Rightarrow> rat list option" where
  "computeQuantAxisMarkerVals r =
     (if rmax r - rmin r \<le> 0 then Some []
      else map_option marker_vals
             (while_option (\<lambda>s. maxMarkerCount < markerCount s) (marker_step r) (marker_init r)))"

text \<open>
  The loop invariant: the magnitude is positive, and while the last pass found no acceptable
  increment the magnitude is below \<open>30 * (|max| + |min|)\<close>, because a pass at magnitude
  \<open>3 * (|max| + |min|)\<close> or more accepts its first candidate.
\<close>

definition tick_loop_inv :: "chart_range \<Rightarrow> marker_state \<Rightarrow> bool" where
  "tick_loop_inv r s \<longleftrightarrow> 0 < magnitude s \<and>
     (maxMarkerCount < markerCount s \<longrightarrow> magnitude s < 30 * (\<bar>rmax r\<bar> + \<bar>rmin r\<bar>))"

definition tick_loop_measure :: "chart_range \<Rightarrow> marker_state \<Rightarrow> nat" where
  "tick_loop_measure r s = nat \<lceil>30 * (\<bar>rmax r\<bar> + \<bar>rmin r\<bar>) / magnitude s\<rceil>"

text \<open>
  A state holds a candidate for its increment when \<open>markerMax\<close> and \<open>markerCount\<close> are the
  values the loop body computes from it.
\<close>

definition is_candidate :: "chart_range \<Rightarrow> marker_state \<Rightarrow> bool" where
  "is_candidate r s \<longleftrightarrow> 0 < increment s \<and>
     markerMax s = of_int (js_trunc (rmax r / increment s + 66 / 100)) * increment s \<and>
     markerCount s = of_int (js_trunc (rmax r / increment s + 66 / 100)
                             - js_trunc (rmin r / increment s - 66 / 100)) + 1"

definition tick_shape_inv :: "chart_range \<Rightarrow> marker_state \<Rightarrow> bool" where
  "tick_shape_inv r s \<longleftrightarrow> (\<exists>e. magnitude s = power_int 10 e) \<and>
     (markerCount s = maxMarkerCount + 1 \<or>
      (is_candidate r s \<and> (\<exists>c\<in>set possibleIncrements. \<exists>e. increment s = c * power_int 10 e)))"

text \<open>
  The span invariant behind the lower bound on the tick count: at the loop head the magnitude
  is below \<open>(max - min) / 0.84\<close>, because the last candidate of the previous pass
  (\<open>5 * magnitude / 10\<close>) was rejected; at exit the accepted increment is below that
  bound too, because it is at most twice a rejected candidate.
\<close>

definition tick_span_inv :: "chart_range \<Rightarrow> marker_state \<Rightarrow> bool" where
  "tick_span_inv r s \<longleftrightarrow> 0 < magnitude s \<and>
     (maxMarkerCount < markerCount s \<longrightarrow> 84 / 100 * magnitude s < rmax r - rmin r) \<and>
     (markerCount s \<le> maxMarkerCount \<longrightarrow> 84 / 100 * increment s < rmax r - rmin r)"

lemma computeQuantAxisMarkerVals_3_5:
  "computeQuantAxisMarkerVals \<lparr>rmin = 0, rmax = 7 / 2\<rparr> = Some [4, 3, 2, 1, 0]"
  by (simp add: computeQuantAxisMarkerVals_def while_option_unfold
      marker_init_def floor_log10_def nat_log10.simps marker_step_def marker_candidate_def
      possibleIncrements_def maxMarkerCount_def js_trunc_def marker_vals_def upt_rec)

subsection \<open>The loop's frame and a candidate's count\<close>

lemma magnitude_marker_candidate [simp]: "magnitude (marker_candidate r inc s) = magnitude s"
  by (simp add: marker_candidate_def Let_def)

lemma magnitude_marker_scan [simp]: "magnitude (marker_scan r ps s) = magnitude s"
  by (induction ps arbitrary: s) (simp_all add: Let_def)

lemma increment_marker_candidate [simp]: "increment (marker_candidate r inc s) = inc"
  by (simp add: marker_candidate_def Let_def)

lemma marker_candidate_twice [simp]:
  "marker_candidate r inc (marker_candidate r inc' s) = marker_candidate r inc s"
  by (simp add: marker_candidate_def Let_def)

lemma marker_candidate_count:
  "inc \<noteq> 0 \<Longrightarrow> markerCount (marker_candidate r inc s) =
     of_int (js_trunc (rmax r / inc + 66 / 100) - js_trunc (rmin r / inc - 66 / 100)) + 1"
  by (simp add: marker_candidate_def Let_def field_simps)

text \<open>
  A magnitude at least three times \<open>|max| + |min|\<close> puts both data ends within a third of
  an increment of zero: the first candidate gives the single marker \<open>0\<close>.
\<close>

lemma marker_candidate_big:
  assumes "0 < m" "3 * (\<bar>rmax r\<bar> + \<bar>rmin r\<bar>) \<le> m"
  shows "markerCount (marker_candidate r m s) = 1"
proof -
  have "3 * \<bar>rmax r\<bar> \<le> 3 * (\<bar>rmax r\<bar> + \<bar>rmin r\<bar>)"
    "3 * \<bar>rmin r\<bar> \<le> 3 * (\<bar>rmax r\<bar> + \<bar>rmin r\<bar>)" by simp_all
  then have "\<bar>rmax r\<bar> * 3 \<le> m" "\<bar>rmin r\<bar> * 3 \<le> m"
    using assms(2) by linarith+
  then have a: "\<bar>rmax r / m\<bar> \<le> 1 / 3" "\<bar>rmin r / m\<bar> \<le> 1 / 3"
    using abs_div_third [OF assms(1)] by blast+
  then have b: "- (1 / 3) \<le> rmax r / m" "rmax r / m \<le> 1 / 3"
    "- (1 / 3) \<le> rmin r / m" "rmin r / m \<le> 1 / 3" by (simp_all only: abs_le_iff) linarith+
  have "js_trunc (rmax r / m + 66 / 100) = 0" "js_trunc (rmin r / m - 66 / 100) = 0"
    unfolding js_trunc_zero_iff using b by linarith+
  then show ?thesis using assms(1) by (simp add: marker_candidate_count)
qed

lemma marker_scan_big:
  assumes "0 < magnitude s" "3 * (\<bar>rmax r\<bar> + \<bar>rmin r\<bar>) \<le> magnitude s"
  shows "markerCount (marker_scan r possibleIncrements s) = 1"
  using marker_candidate_big [OF assms]
  by (simp add: possibleIncrements_def maxMarkerCount_def Let_def)

subsection \<open>Termination of the \<open>while\<close> loop\<close>

lemma ceiling_div10_less: "1 < (x::rat) \<Longrightarrow> \<lceil>x / 10\<rceil> < \<lceil>x\<rceil>"
proof (rule ccontr)
  assume x: "1 < x" and "\<not> \<lceil>x / 10\<rceil> < \<lceil>x\<rceil>"
  then have "of_int \<lceil>x\<rceil> \<le> (of_int \<lceil>x / 10\<rceil> :: rat)" by simp
  moreover have "x \<le> of_int \<lceil>x\<rceil>" by simp
  moreover have "of_int \<lceil>x / 10\<rceil> < x / 10 + 1" using ceiling_correct [of "x / 10"] by linarith
  moreover have "2 \<le> (of_int \<lceil>x\<rceil> :: rat)" using x by (simp add: le_ceiling_iff)
  ultimately show False by linarith
qed

lemma tick_loop_init: "0 < rmax r - rmin r \<Longrightarrow> tick_loop_inv r (marker_init r)"
proof -
  assume sp: "0 < rmax r - rmin r"
  let ?e = "floor_log10 (rmax r - rmin r)"
  have m: "power_int (10::rat) (?e - 1) * 10 = power_int 10 ?e"
    by (rule power_int_minus_mult) simp
  have "power_int 10 ?e \<le> rmax r - rmin r"
    using floor_log10_bounds [OF sp] by simp
  moreover have "rmax r - rmin r \<le> \<bar>rmax r\<bar> + \<bar>rmin r\<bar>" by linarith
  moreover have "0 < power_int (10::rat) (?e - 1)" by simp
  ultimately show ?thesis
    using m sp by (simp add: tick_loop_inv_def marker_init_def)
qed

lemma tick_loop_step:
  assumes inv: "tick_loop_inv r s" and g: "maxMarkerCount < markerCount s"
  shows "tick_loop_inv r (marker_step r s) \<and>
         tick_loop_measure r (marker_step r s) < tick_loop_measure r s"
proof -
  let ?B = "\<bar>rmax r\<bar> + \<bar>rmin r\<bar>"
  let ?m = "magnitude s"
  have m0: "0 < ?m" and mB: "?m < 30 * ?B" using inv g by (auto simp: tick_loop_inv_def)
  have step: "magnitude (marker_step r s) = ?m * 10"
    "markerCount (marker_step r s) = markerCount (marker_scan r possibleIncrements s)"
    by (simp_all add: marker_step_def Let_def)
  have "?m * 10 < 30 * ?B" if "maxMarkerCount < markerCount (marker_scan r possibleIncrements s)"
  proof -
    have "\<not> 3 * ?B \<le> ?m"
      using that marker_scan_big [OF m0] by (auto simp: maxMarkerCount_def)
    then show ?thesis by linarith
  qed
  then have inv': "tick_loop_inv r (marker_step r s)"
    using m0 step by (simp add: tick_loop_inv_def)
  have x: "1 < 30 * ?B / ?m" using m0 mB by simp
  have "30 * ?B / (?m * 10) = (30 * ?B / ?m) / 10" by simp
  then have "\<lceil>30 * ?B / (?m * 10)\<rceil> < \<lceil>30 * ?B / ?m\<rceil>"
    using ceiling_div10_less [OF x] by simp
  moreover have "0 < \<lceil>30 * ?B / (?m * 10)\<rceil>"
    using m0 mB by simp
  ultimately have "tick_loop_measure r (marker_step r s) < tick_loop_measure r s"
    by (simp add: tick_loop_measure_def step)
  with inv' show ?thesis by blast
qed

lemma tick_loop_Some:
  "0 < rmax r - rmin r \<Longrightarrow>
   \<exists>t. while_option (\<lambda>s. maxMarkerCount < markerCount s) (marker_step r) (marker_init r) = Some t"
proof -
  assume sp: "0 < rmax r - rmin r"
  show ?thesis
  proof (rule measure_while_option_Some [where P = "tick_loop_inv r" and f = "tick_loop_measure r"])
    fix s
    assume "tick_loop_inv r s" "maxMarkerCount < markerCount s"
    then show "tick_loop_inv r (marker_step r s) \<and>
      tick_loop_measure r (marker_step r s) < tick_loop_measure r s"
      by (rule tick_loop_step)
  next
    show "tick_loop_inv r (marker_init r)" by (rule tick_loop_init [OF sp])
  qed
qed

text \<open>C4: the tick generator terminates on every domain (the \<open>while\<close> loop always exits).\<close>

theorem computeQuantAxisMarkerVals_terminates: "computeQuantAxisMarkerVals r \<noteq> None"
  using tick_loop_Some [of r] by (auto simp: computeQuantAxisMarkerVals_def)

subsection \<open>What the loop computes\<close>

lemma is_candidate_marker_candidate:
  "0 < inc \<Longrightarrow> is_candidate r (marker_candidate r inc s)"
  by (simp add: is_candidate_def marker_candidate_count) (simp add: marker_candidate_def Let_def)

lemma possibleIncrements_pos: "p \<in> set possibleIncrements \<Longrightarrow> 0 < p"
  by (auto simp: possibleIncrements_def)

lemma marker_scan_candidate:
  "ps \<noteq> [] \<Longrightarrow> \<exists>p\<in>set ps. marker_scan r ps s = marker_candidate r (p * magnitude s) s"
proof (induction ps arbitrary: s)
  case Nil
  then show ?case by simp
next
  case (Cons p ps)
  show ?case
  proof (cases "markerCount (marker_candidate r (p * magnitude s) s) \<le> maxMarkerCount \<or> ps = []")
    case True
    then show ?thesis by (auto simp: Let_def)
  next
    case False
    then obtain q where "q \<in> set ps"
      "marker_scan r ps (marker_candidate r (p * magnitude s) s) =
       marker_candidate r (q * magnitude s) (marker_candidate r (p * magnitude s) s)"
      using Cons.IH [of "marker_candidate r (p * magnitude s) s"] by auto
    then show ?thesis using False by (auto simp: Let_def)
  qed
qed

lemma tick_shape_step: "tick_shape_inv r s \<Longrightarrow> tick_shape_inv r (marker_step r s)"
proof -
  assume inv: "tick_shape_inv r s"
  then obtain e where e: "magnitude s = power_int 10 e" by (auto simp: tick_shape_inv_def)
  have "possibleIncrements \<noteq> []" by (simp add: possibleIncrements_def)
  then obtain p where p: "p \<in> set possibleIncrements"
    "marker_scan r possibleIncrements s = marker_candidate r (p * magnitude s) s"
    using marker_scan_candidate [of possibleIncrements r s] by blast
  have p0: "0 < p * magnitude s" using possibleIncrements_pos [OF p(1)] e by simp
  have "magnitude s * 10 = power_int 10 (e + 1)" using e by (simp add: power_int_add)
  then show ?thesis
    using p p0 is_candidate_marker_candidate [OF p0, of r s] e
    by (auto simp: tick_shape_inv_def marker_step_def Let_def is_candidate_def)
qed

subsection \<open>Every accepted increment leaves at least two ticks\<close>

lemma failed_candidate:
  assumes i: "0 < inc" and f: "maxMarkerCount < markerCount (marker_candidate r inc s)"
  shows "168 / 100 * inc < rmax r - rmin r"
proof -
  let ?a = "js_trunc (rmax r / inc + 66 / 100)" and ?b = "js_trunc (rmin r / inc - 66 / 100)"
  have "(4::rat) < of_int (?a - ?b)"
    using f i by (simp add: marker_candidate_count maxMarkerCount_def)
  then have "5 \<le> ?a - ?b" by linarith
  moreover have "of_int ?a < rmax r / inc + 66 / 100 + 1" by (rule js_trunc_upper)
  moreover have "rmin r / inc - 66 / 100 - 1 < of_int ?b" by (rule js_trunc_lower)
  ultimately have "168 / 100 < rmax r / inc - rmin r / inc" by linarith
  then have "168 / 100 < (rmax r - rmin r) / inc" by (simp add: diff_divide_distrib)
  then show ?thesis using i by (simp add: less_divide_eq)
qed

lemma wide_increment_gap:
  assumes i: "0 < inc" and w: "68 / 100 * inc \<le> rmax r - rmin r"
  shows "js_trunc (rmin r / inc - 66 / 100) < js_trunc (rmax r / inc + 66 / 100)"
proof -
  have "68 / 100 \<le> (rmax r - rmin r) / inc" using w i by (simp add: le_divide_eq)
  then have "rmin r / inc - 66 / 100 + 2 \<le> rmax r / inc + 66 / 100"
    by (simp add: diff_divide_distrib)
  then have "js_trunc (rmin r / inc - 66 / 100 + 2) \<le> js_trunc (rmax r / inc + 66 / 100)"
    by (rule js_trunc_mono)
  then show ?thesis using js_trunc_add2 [of "rmin r / inc - 66 / 100"] by linarith
qed

lemma tick_span_init: "0 < rmax r - rmin r \<Longrightarrow> tick_span_inv r (marker_init r)"
proof -
  assume sp: "0 < rmax r - rmin r"
  let ?e = "floor_log10 (rmax r - rmin r)"
  have m: "power_int (10::rat) (?e - 1) * 10 = power_int 10 ?e"
    by (rule power_int_minus_mult) simp
  have "power_int 10 ?e \<le> rmax r - rmin r"
    using floor_log10_bounds [OF sp] by simp
  moreover have "0 < power_int (10::rat) (?e - 1)" by simp
  ultimately have "84 / 100 * power_int 10 (?e - 1) < rmax r - rmin r" using m by linarith
  then show ?thesis by (simp add: tick_span_inv_def marker_init_def maxMarkerCount_def)
qed

lemma tick_span_step:
  assumes inv: "tick_span_inv r s" and g: "maxMarkerCount < markerCount s"
  shows "tick_span_inv r (marker_step r s)"
proof -
  let ?m = "magnitude s"
  have m: "0 < ?m" and sp: "84 / 100 * ?m < rmax r - rmin r"
    using inv g by (auto simp: tick_span_inv_def)
  have f: "168 / 100 * (c * ?m) < rmax r - rmin r"
    if "0 < c" "maxMarkerCount < markerCount (marker_candidate r (c * ?m) s)" for c
    using failed_candidate [OF _ that(2)] that(1) m by simp
  note f1 = f [of 1] and f2 = f [of 2] and f3 = f [of "5 / 2"] and f4 = f [of 5]
  show ?thesis
    using m sp f1 f2 f3 f4
    by (simp add: tick_span_inv_def marker_step_def possibleIncrements_def Let_def)
      (auto simp: not_le; linarith)
qed

lemma tick_loop_result:
  assumes "0 < rmax r - rmin r"
  obtains s where "computeQuantAxisMarkerVals r = Some (marker_vals s)"
    "is_candidate r s" "markerCount s \<le> maxMarkerCount"
    "\<exists>c\<in>set possibleIncrements. \<exists>e. increment s = c * power_int 10 e"
    "84 / 100 * increment s < rmax r - rmin r"
proof -
  obtain t where t: "while_option (\<lambda>s. maxMarkerCount < markerCount s) (marker_step r) (marker_init r)
                      = Some t"
    using tick_loop_Some [OF assms] by blast
  have "tick_shape_inv r (marker_init r)"
    by (auto simp: tick_shape_inv_def marker_init_def)
  then have "tick_shape_inv r t"
    using while_option_rule [where P = "tick_shape_inv r", OF _ t] tick_shape_step by blast
  moreover have "tick_span_inv r t"
    using while_option_rule [where P = "tick_span_inv r", OF _ t] tick_span_step
      tick_span_init [OF assms] by blast
  moreover have "\<not> maxMarkerCount < markerCount t" using while_option_stop [OF t] .
  ultimately show ?thesis
    using that [of t] t assms
    by (auto simp: tick_shape_inv_def tick_span_inv_def computeQuantAxisMarkerVals_def)
qed

lemma candidate_marker_vals:
  assumes c: "is_candidate r s" and le: "rmin r \<le> rmax r"
  defines "a \<equiv> js_trunc (rmax r / increment s + 66 / 100)"
    and "b \<equiv> js_trunc (rmin r / increment s - 66 / 100)"
  shows "b \<le> a" "length (marker_vals s) = nat (a - b + 1)"
    "\<And>i. i < length (marker_vals s) \<Longrightarrow> marker_vals s ! i = of_int a * increment s - of_nat i * increment s"
    "hd (marker_vals s) = of_int a * increment s"
    "last (marker_vals s) = of_int b * increment s"
proof -
  have inc: "0 < increment s" using c by (simp add: is_candidate_def)
  have "rmin r / increment s \<le> rmax r / increment s"
    using le inc by (simp add: divide_right_mono)
  then have "rmin r / increment s - 66 / 100 \<le> rmax r / increment s + 66 / 100"
    by linarith
  then show ba: "b \<le> a" unfolding a_def b_def by (rule js_trunc_mono)
  have cnt: "\<lceil>markerCount s\<rceil> = a - b + 1" using c by (simp add: is_candidate_def a_def b_def)
  show len: "length (marker_vals s) = nat (a - b + 1)" by (simp add: marker_vals_def cnt)
  have mx: "markerMax s = of_int a * increment s" using c by (simp add: is_candidate_def a_def)
  show "\<And>i. i < length (marker_vals s) \<Longrightarrow> marker_vals s ! i = of_int a * increment s - of_nat i * increment s"
    by (simp add: marker_vals_def len mx)
  have "0 < length (marker_vals s)" using len ba by simp
  then have ne: "marker_vals s \<noteq> []" by blast
  show "hd (marker_vals s) = of_int a * increment s"
    using ne by (simp add: hd_conv_nth marker_vals_def mx cnt)
  have "nat (a - b + 1) - 1 = nat (a - b)" using ba by simp
  then show "last (marker_vals s) = of_int b * increment s"
    using ne ba by (simp add: last_conv_nth marker_vals_def mx cnt algebra_simps)
qed

text \<open>
  What the callers use: a result of two to five ticks, descending from the first in steps
  of one increment \<open>c * 10^e\<close>, \<open>c\<close> one of \<open>possibleIncrements\<close>.
\<close>

lemma tick_result:
  assumes lt: "rmin r < rmax r"
  obtains ticks inc where "computeQuantAxisMarkerVals r = Some ticks" "0 < inc"
    "\<exists>c\<in>set possibleIncrements. \<exists>e. inc = c * power_int 10 e"
    "2 \<le> length ticks" "length ticks \<le> 5"
    "\<And>i. i < length ticks \<Longrightarrow> ticks ! i = hd ticks - of_nat i * inc"
proof -
  have sp: "0 < rmax r - rmin r" using lt by simp
  obtain s where s: "computeQuantAxisMarkerVals r = Some (marker_vals s)" "is_candidate r s"
      "markerCount s \<le> maxMarkerCount"
      "\<exists>c\<in>set possibleIncrements. \<exists>e. increment s = c * power_int 10 e"
      "84 / 100 * increment s < rmax r - rmin r"
    by (rule tick_loop_result [OF sp])
  note v = candidate_marker_vals [OF s(2) less_imp_le [OF lt]]
  have "markerCount s = of_int (js_trunc (rmax r / increment s + 66 / 100)
                             - js_trunc (rmin r / increment s - 66 / 100)) + 1"
    using s(2) by (simp add: is_candidate_def)
  with s(3) have "js_trunc (rmax r / increment s + 66 / 100)
                   - js_trunc (rmin r / increment s - 66 / 100) + 1 \<le> 5"
    by (simp add: maxMarkerCount_def)
  moreover have i0: "0 < increment s" using s(2) by (simp add: is_candidate_def)
  then have "68 / 100 * increment s \<le> rmax r - rmin r" using s(5) by linarith
  then have "js_trunc (rmin r / increment s - 66 / 100) < js_trunc (rmax r / increment s + 66 / 100)"
    by (rule wide_increment_gap [OF i0])
  ultimately have "2 \<le> length (marker_vals s)" "length (marker_vals s) \<le> 5"
    using v(2) by auto
  moreover have "marker_vals s ! i = hd (marker_vals s) - of_nat i * increment s"
    if "i < length (marker_vals s)" for i
    using v(3) [OF that] v(4) by simp
  ultimately show ?thesis using that s(1,4) i0 by blast
qed

subsection \<open>Properties of the tick generator\<close>

text \<open>
  C5: on a non-degenerate domain the generator returns between two and
  \<open>maxMarkerCount = 5\<close> ticks.
\<close>

theorem computeQuantAxisMarkerVals_count:
  "rmin r < rmax r \<Longrightarrow>
   \<exists>ticks. computeQuantAxisMarkerVals r = Some ticks \<and> 2 \<le> length ticks \<and> length ticks \<le> 5"
  by (erule tick_result) blast

text \<open>
  C6: the ticks descend from the first one in steps of one increment, and the increment
  is \<open>c * 10^e\<close> for a \<open>c\<close> of \<open>[1, 2, 2.5, 5]\<close>.
\<close>

theorem computeQuantAxisMarkerVals_spacing:
  "rmin r < rmax r \<Longrightarrow>
   \<exists>ticks inc. computeQuantAxisMarkerVals r = Some ticks \<and> 0 < inc \<and>
     (\<exists>c\<in>set possibleIncrements. \<exists>e. inc = c * power_int 10 e) \<and>
     (\<forall>i < length ticks. ticks ! i = hd ticks - of_nat i * inc)"
  by (erule tick_result) blast

text \<open>
  C7: the overshoot rule. On a domain with \<open>min \<le> 0 \<le> max\<close> (every domain
  \<open>computeDataRange\<close> returns) the top tick is above \<open>max\<close> by at most 0.66 increments and
  below it by less than 0.34; symmetrically the bottom tick is below \<open>min\<close> by at most
  0.66 increments and above it by less than 0.34.
\<close>

theorem computeQuantAxisMarkerVals_overshoot:
  "rmin r \<le> 0 \<Longrightarrow> 0 \<le> rmax r \<Longrightarrow> rmin r < rmax r \<Longrightarrow>
   \<exists>ticks inc. computeQuantAxisMarkerVals r = Some ticks \<and> 0 < inc \<and>
     rmax r - 34 / 100 * inc < hd ticks \<and> hd ticks \<le> rmax r + 66 / 100 * inc \<and>
     rmin r - 66 / 100 * inc \<le> last ticks \<and> last ticks < rmin r + 34 / 100 * inc"
proof -
  assume lo: "rmin r \<le> 0" and hi: "0 \<le> rmax r" and lt: "rmin r < rmax r"
  then have sp: "0 < rmax r - rmin r" by simp
  obtain s where s: "computeQuantAxisMarkerVals r = Some (marker_vals s)" "is_candidate r s"
      "markerCount s \<le> maxMarkerCount"
      "\<exists>c\<in>set possibleIncrements. \<exists>e. increment s = c * power_int 10 e"
      "84 / 100 * increment s < rmax r - rmin r"
    by (rule tick_loop_result [OF sp])
  note v = candidate_marker_vals [OF s(2) less_imp_le [OF lt]]
  define i where "i = increment s"
  have i0: "0 < i" using s(2) by (simp add: is_candidate_def i_def)
  have ya: "0 \<le> rmax r / i + 66 / 100" using hi i0 by simp
  have "rmin r / i \<le> 0" using lo i0 by (simp add: divide_nonpos_pos)
  then have yb: "rmin r / i - 66 / 100 < 0" by linarith
  note ta = js_trunc_nonneg [OF ya] and tb = js_trunc_neg [OF yb]
  have h1: "rmax r / i - 34 / 100 < of_int (js_trunc (rmax r / i + 66 / 100))"
    "of_int (js_trunc (rmax r / i + 66 / 100)) \<le> rmax r / i + 66 / 100" using ta by linarith+
  have h2: "rmin r / i - 66 / 100 \<le> of_int (js_trunc (rmin r / i - 66 / 100))"
    "of_int (js_trunc (rmin r / i - 66 / 100)) < rmin r / i + 34 / 100" using tb by linarith+
  have "rmax r - 34 / 100 * i < of_int (js_trunc (rmax r / i + 66 / 100)) * i"
    using mult_strict_right_mono [OF h1(1) i0] i0 by (simp add: algebra_simps)
  moreover have "of_int (js_trunc (rmax r / i + 66 / 100)) * i \<le> rmax r + 66 / 100 * i"
    using mult_right_mono [OF h1(2) less_imp_le [OF i0]] i0 by (simp add: algebra_simps)
  moreover have "rmin r - 66 / 100 * i \<le> of_int (js_trunc (rmin r / i - 66 / 100)) * i"
    using mult_right_mono [OF h2(1) less_imp_le [OF i0]] i0 by (simp add: algebra_simps)
  moreover have "of_int (js_trunc (rmin r / i - 66 / 100)) * i < rmin r + 34 / 100 * i"
    using mult_strict_right_mono [OF h2(2) i0] i0 by (simp add: algebra_simps)
  ultimately have "rmax r - 34 / 100 * increment s < hd (marker_vals s) \<and>
      hd (marker_vals s) \<le> rmax r + 66 / 100 * increment s \<and>
      rmin r - 66 / 100 * increment s \<le> last (marker_vals s) \<and>
      last (marker_vals s) < rmin r + 34 / 100 * increment s"
    unfolding v(4,5) i_def by blast
  then show ?thesis using s(1) i0 unfolding i_def by blast
qed

end
