(* ===== verification/BarChart_Labels.thy ===== *)
theory BarChart_Labels
  imports BarChart_Ticks
begin

text \<open>
  The label precision of \<open>src/src/BarChart/index.tsx\<close>: \<open>BarChart.countDecimalPlaces\<close>
  (lines 94--130), \<open>_getAxisIncrementDigits\<close> (lines 215--220), the label formatter
  \<open>_formatQuantAxisValue\<close> (lines 240--253) and the longest-label choice of
  \<open>_renderQuantAxisPlaceholder\<close> (lines 287--295). The two \<open>while\<close> loops of
  \<open>countDecimalPlaces\<close> need not stop on an arbitrary exact rational (a repeating decimal
  has no zero digit), so they are \<open>partial_function (option)\<close>, \<open>None\<close> for a loop that does
  not return; the theorems show that they return on every terminating decimal, which every
  IEEE double is, and on every tick increment.
\<close>

text \<open>\<open>while (Math.floor(val * 10) === 0) { val *= 10; ++places; }\<close>\<close>

partial_function (option) count_leading_zeros :: "rat \<Rightarrow> nat \<Rightarrow> (rat \<times> nat) option" where
  "count_leading_zeros val places =
     (if \<lfloor>val * 10\<rfloor> = 0 then count_leading_zeros (val * 10) (places + 1)
      else Some (val, places))"

text \<open>\<open>while (Math.floor(val * 10) % 10 !== 0) { val *= 10; ++places; }\<close>\<close>

partial_function (option) count_nonzero_digits :: "rat \<Rightarrow> nat \<Rightarrow> nat option" where
  "count_nonzero_digits val places =
     (if \<lfloor>val * 10\<rfloor> mod 10 \<noteq> 0 then count_nonzero_digits (val * 10) (places + 1)
      else Some places)"

declare count_leading_zeros.simps [code] count_nonzero_digits.simps [code]

definition countDecimalPlaces :: "rat \<Rightarrow> nat option" where
  "countDecimalPlaces v =
     (let val = \<bar>v - of_int (js_trunc v)\<bar>
      in if val = 0 then Some 0
         else let val = val + val * (1 / 1000)
              in (case count_leading_zeros val 0 of
                    None \<Rightarrow> None
                  | Some (val, places) \<Rightarrow> count_nonzero_digits val places))"

definition getAxisIncrementDigits :: "rat list \<Rightarrow> nat option" where
  "getAxisIncrementDigits quantAxisMarkers =
     countDecimalPlaces (if 2 \<le> length quantAxisMarkers
                         then quantAxisMarkers ! 0 - quantAxisMarkers ! 1 else 0)"


text \<open>
  \<open>_formatQuantAxisValue\<close>: \<open>toLocaleString\<close> with \<open>maximumFractionDigits\<close> is the
  host's \<open>Intl\<close> formatter, a parameter of the model (\<open>toLocaleString d v\<close> formats \<open>v\<close>
  with at most \<open>d\<close> fractional digits); the optional \<open>quantAxisFormatFunc\<close> prop receives
  the value and the default formatter.
\<close>

definition formatQuantAxisValue ::
  "(rat \<Rightarrow> (rat \<Rightarrow> string) \<Rightarrow> string) option \<Rightarrow> (nat \<Rightarrow> rat \<Rightarrow> string) \<Rightarrow>
   rat \<Rightarrow> int \<Rightarrow> string" where
  "formatQuantAxisValue quantAxisFormatFunc toLocaleString value fractionalDigits =
     (let defaultFormatFunc = (\<lambda>val. toLocaleString (nat (max 0 fractionalDigits)) val)
      in case quantAxisFormatFunc of
           Some f \<Rightarrow> f value defaultFormatFunc
         | None \<Rightarrow> defaultFormatFunc value)"

text \<open>
  \<open>axisLabels.reduce((label, acc) => label.length > acc.length ? label : acc, '')\<close>: the
  accumulator is named \<open>label\<close>, the current element \<open>acc\<close>.
\<close>

definition longest_label :: "string list \<Rightarrow> string" where
  "longest_label axisLabels =
     foldl (\<lambda>label acc. if length acc < length label then label else acc) '''' axisLabels"

text \<open>
  \<open>_renderQuantAxisPlaceholder\<close>: the hidden label that sizes the axis, the longest
  formatted marker; \<open>None\<close> when \<open>countDecimalPlaces\<close> does not return.
\<close>

definition renderQuantAxisPlaceholder ::
  "(rat \<Rightarrow> (rat \<Rightarrow> string) \<Rightarrow> string) option \<Rightarrow> (nat \<Rightarrow> rat \<Rightarrow> string) \<Rightarrow>
   rat list \<Rightarrow> string option" where
  "renderQuantAxisPlaceholder quantAxisFormatFunc toLocaleString quantAxisMarkers =
     (case getAxisIncrementDigits quantAxisMarkers of
        None \<Rightarrow> None
      | Some fractionalDigits \<Rightarrow>
          Some (longest_label (map (\<lambda>val. formatQuantAxisValue quantAxisFormatFunc toLocaleString
                                             val (int fractionalDigits)) quantAxisMarkers)))"

subsection \<open>The two loops\<close>

lemma count_leading_zeros_Some_aux:
  "0 \<le> val \<Longrightarrow> 1 / 10 \<le> val * 10 ^ n \<Longrightarrow>
   \<exists>j. count_leading_zeros val p = Some (val * 10 ^ j, p + j) \<and> 1 / 10 \<le> val * 10 ^ j"
proof (induction n arbitrary: val p)
  case 0
  then have "1 \<le> val * 10" by simp
  then have "\<lfloor>val * 10\<rfloor> \<noteq> 0" by linarith
  then show ?case using 0 by (subst count_leading_zeros.simps) (auto intro: exI [of _ 0])
next
  case (Suc n)
  show ?case
  proof (cases "\<lfloor>val * 10\<rfloor> = 0")
    case True
    have "1 / 10 \<le> (val * 10) * 10 ^ n" using Suc.prems(2) by (simp add: mult.assoc)
    then obtain j where j: "count_leading_zeros (val * 10) (p + 1) = Some (val * 10 * 10 ^ j, p + 1 + j)"
        "1 / 10 \<le> val * 10 * 10 ^ j"
      using Suc.IH [of "val * 10" "p + 1"] Suc.prems(1) by auto
    then show ?thesis using True
      by (subst count_leading_zeros.simps) (auto intro!: exI [of _ "Suc j"] simp: mult.assoc)
  next
    case False
    have "0 \<le> \<lfloor>val * 10\<rfloor>" using Suc.prems(1) by simp
    then have "1 \<le> \<lfloor>val * 10\<rfloor>" using False by linarith
    then have "1 / 10 \<le> val" by linarith
    then show ?thesis using False
      by (subst count_leading_zeros.simps) (auto intro: exI [of _ 0])
  qed
qed


lemma count_leading_zeros_Some:
  "0 < val \<Longrightarrow>
   \<exists>j. count_leading_zeros val p = Some (val * 10 ^ j, p + j) \<and> 1 / 10 \<le> val * 10 ^ j"
  using exists_pow10_ge count_leading_zeros_Some_aux less_imp_le by blast

lemma count_leading_zeros_exact:
  "1 / 10 \<le> y \<Longrightarrow> y < 1 \<Longrightarrow> count_leading_zeros (y / 10 ^ j) p = Some (y, p + j)"
proof (induction j arbitrary: p)
  case 0
  then have "\<lfloor>y * 10\<rfloor> \<noteq> 0" by linarith
  then show ?case by (subst count_leading_zeros.simps) simp
next
  case (Suc j)
  have "(1::rat) \<le> 10 ^ j" by simp
  then have "y < 10 ^ j" using Suc.prems(2) by linarith
  then have "y / 10 ^ j < 1" by (simp add: divide_less_eq)
  moreover have "0 \<le> y / 10 ^ j" using Suc.prems(1) by simp
  ultimately have "\<lfloor>y / 10 ^ Suc j * 10\<rfloor> = 0" by (simp add: floor_eq_iff)
  then show ?case using Suc.IH [of "p + 1"] Suc.prems
    by (subst count_leading_zeros.simps) simp
qed

lemma count_nonzero_digits_Some:
  "val * 10 ^ N \<in> \<int> \<Longrightarrow> \<exists>q. count_nonzero_digits val p = Some q"
proof (induction N arbitrary: val p)
  case 0
  then obtain k where "val = of_int k" by (auto elim: Ints_cases)
  then have "val * 10 = of_int (k * 10)" by simp
  then have "\<lfloor>val * 10\<rfloor> mod 10 = 0" by (simp only: floor_of_int) simp
  then show ?case by (subst count_nonzero_digits.simps) simp
next
  case (Suc N)
  have "(val * 10) * 10 ^ N \<in> \<int>" using Suc.prems by (simp add: mult.assoc mult.commute)
  then show ?case using Suc.IH [of "val * 10" "p + 1"]
    by (subst count_nonzero_digits.simps) auto
qed


text \<open>
  C8: \<open>countDecimalPlaces\<close> returns on every terminating decimal (a value with
  \<open>v * 10^N\<close> integral): the leading-zero loop ends because the value is positive, the
  digit loop at the latest after \<open>N + 3\<close> further digits.
\<close>

theorem countDecimalPlaces_terminates:
  "v * 10 ^ N \<in> \<int> \<Longrightarrow> countDecimalPlaces v \<noteq> None"
proof -
  assume v: "v * 10 ^ N \<in> \<int>"
  define f where "f = \<bar>v - of_int (js_trunc v)\<bar>"
  have "(v - of_int (js_trunc v)) * 10 ^ N \<in> \<int>"
    using v by (simp add: left_diff_distrib)
  then have "\<bar>(v - of_int (js_trunc v)) * 10 ^ N\<bar> \<in> \<int>" by (rule Ints_abs_rat)
  then have fN: "f * 10 ^ N \<in> \<int>" by (simp add: f_def abs_mult)
  show ?thesis
  proof (cases "f = 0")
    case True
    then show ?thesis by (simp add: countDecimalPlaces_def f_def [symmetric])
  next
    case False
    let ?g = "f + f * (1 / 1000)"
    have "0 < ?g" using False by (simp add: f_def)
    then obtain j where j: "count_leading_zeros ?g 0 = Some (?g * 10 ^ j, j)"
      using count_leading_zeros_Some [of ?g 0] by auto
    have "?g * 10 ^ j * 10 ^ (N + 3) = (f * 10 ^ N) * 1001 * 10 ^ j"
      by (simp add: power_add algebra_simps)
    also have "\<dots> \<in> \<int>" using fN by simp
    finally obtain q where "count_nonzero_digits (?g * 10 ^ j) j = Some q"
      using count_nonzero_digits_Some by blast
    then show ?thesis using False j by (simp add: countDecimalPlaces_def f_def [symmetric])
  qed
qed

lemma countDecimalPlaces_Ints: "v \<in> \<int> \<Longrightarrow> countDecimalPlaces v = Some 0"
  by (auto elim!: Ints_cases simp: countDecimalPlaces_def)

lemma countDecimalPlaces_fraction:
  assumes x: "0 < x" "x < 1" and y: "1 / 10 \<le> y" "y < 1" "y = x * (1001 / 1000) * 10 ^ n"
  shows "countDecimalPlaces x = count_nonzero_digits y n"
proof -
  have "js_trunc x = 0" using x by (simp add: js_trunc_zero_iff)
  moreover have "x + x * (1 / 1000) = y / 10 ^ n" using y(3) by simp
  then have "count_leading_zeros (x + x * (1 / 1000)) 0 = Some (y, n)"
    using count_leading_zeros_exact [OF y(1,2), of n 0] by simp
  ultimately show ?thesis using x by (simp add: countDecimalPlaces_def)
qed


lemma countDecimalPlaces_digit:
  assumes d: "d = 1 \<or> d = 2 \<or> d = 5"
  shows "countDecimalPlaces (d / 10 ^ Suc n) = Some (Suc n)"
proof -
  have d5: "0 < d" "d \<le> 5" using d by auto
  have "d < 10 ^ Suc n" using pow10_Suc_ge [of n] d5 by linarith
  then have x: "0 < d / 10 ^ Suc n" "d / 10 ^ Suc n < 1" using d5 by simp_all
  have y: "1 / 10 \<le> d * 1001 / 10000" "d * 1001 / 10000 < 1"
    "d * 1001 / 10000 = d / 10 ^ Suc n * (1001 / 1000) * 10 ^ n"
    using d by auto
  have "count_nonzero_digits (d * 1001 / 10000) n = Some (Suc n)"
    using d by (elim disjE) (simp_all add: count_nonzero_digits.simps)
  then show ?thesis using countDecimalPlaces_fraction [OF x y] by simp
qed

lemma countDecimalPlaces_quarter:
  "countDecimalPlaces (25 / 10 ^ Suc (Suc n)) = Some (Suc (Suc n))"
proof -
  have "(1::rat) \<le> 10 ^ n" by simp
  then have "1 < 4 * (10::rat) ^ n" by linarith
  then have "(25::rat) < 10 ^ Suc (Suc n)" by simp
  then have x: "0 < 25 / (10::rat) ^ Suc (Suc n)" "25 / (10::rat) ^ Suc (Suc n) < 1" by simp_all
  have y: "1 / 10 \<le> (25025 / 100000 :: rat)" "(25025 / 100000 :: rat) < 1"
    "25025 / 100000 = 25 / 10 ^ Suc (Suc n) * (1001 / 1000) * (10::rat) ^ n"
    by simp_all
  have "count_nonzero_digits (25025 / 100000) n = Some (Suc (Suc n))"
    by (simp add: count_nonzero_digits.simps)
  then show ?thesis using countDecimalPlaces_fraction [OF x y] by simp
qed

lemma exact_places_Ints:
  "x \<in> \<int> \<Longrightarrow> \<exists>k. countDecimalPlaces x = Some k \<and> x * 10 ^ k \<in> \<int> \<and>
     (0 < k \<longrightarrow> x * 10 ^ (k - 1) \<notin> \<int>)"
  using countDecimalPlaces_Ints by auto

lemma countDecimalPlaces_increment:
  assumes c: "c \<in> set possibleIncrements"
  shows "\<exists>k. countDecimalPlaces (c * power_int 10 e) = Some k \<and> c * power_int 10 e * 10 ^ k \<in> \<int> \<and>
           (0 < k \<longrightarrow> c * power_int 10 e * 10 ^ (k - 1) \<notin> \<int>)"
proof -
  have c4: "c = 1 \<or> c = 2 \<or> c = 5 / 2 \<or> c = 5" using c by (simp add: possibleIncrements_def)
  show ?thesis
  proof (cases "0 \<le> e")
    case True
    then obtain m where m: "e = int m" by (rule nonneg_int_cases)
    then have pe: "power_int (10::rat) e = 10 ^ m" by (simp add: power_int_of_nat)
    show ?thesis
    proof (cases "c = 5 / 2 \<and> m = 0")
      case True
      have "countDecimalPlaces (5 / 2) = Some 1"
        by (simp add: countDecimalPlaces_def js_trunc_def count_leading_zeros.simps
            count_nonzero_digits.simps)
      moreover have "(5 / 2 :: rat) \<notin> \<int>" by (rule not_Ints_between [of 2]) simp_all
      moreover from True have c52: "c = 5 / 2" and m0: "m = 0" by auto
      ultimately show ?thesis unfolding c52 pe m0 by (intro exI [of _ 1]) simp
    next
      case False
      have "c * 10 ^ m \<in> \<int>"
      proof (cases "c = 5 / 2")
        case True
        with False obtain m' where "m = Suc m'" by (cases m) auto
        then have "c * 10 ^ m = 25 * 10 ^ m'" using True by simp
        then show ?thesis by simp
      next
        case False
        then show ?thesis using c4 by auto
      qed
      then show ?thesis unfolding pe by (rule exact_places_Ints)
    qed
  next
    case False
    then have "e < 0" by simp
    then obtain n0 where "e = - int n0" "0 < n0" by (rule neg_int_cases)
    then obtain n where n: "e = - int (Suc n)" by (intro that [of "n0 - 1"]) simp
    have pe: "power_int (10::rat) e = 1 / 10 ^ Suc n"
      unfolding n by (simp only: power_int_minus_divide power_int_of_nat)
    show ?thesis
    proof (cases "c = 5 / 2")
      case True
      have x: "c * power_int 10 e = 25 / 10 ^ Suc (Suc n)" unfolding True pe by simp
      have "(5 / 2 :: rat) \<notin> \<int>" by (rule not_Ints_between [of 2]) simp_all
      then show ?thesis using countDecimalPlaces_quarter [of n]
        by (intro exI [of _ "Suc (Suc n)"]) (simp add: x)
    next
      case False
      then have d: "c = 1 \<or> c = 2 \<or> c = 5" using c4 by auto
      have x: "c * power_int 10 e = c / 10 ^ Suc n" using pe by simp
      have "c / 10 \<notin> \<int>" using d by (intro not_Ints_between [of 0]) auto
      moreover have "c \<in> \<int>" using d by auto
      ultimately show ?thesis using countDecimalPlaces_digit [OF d, of n]
        by (intro exI [of _ "Suc n"]) (simp add: x)
    qed
  qed
qed

lemma longest_label_foldl:
  "(foldl (\<lambda>label acc. if length acc < length label then label else acc) a xs = a \<or>
    foldl (\<lambda>label acc. if length acc < length label then label else acc) a xs \<in> set xs) \<and>
   length a \<le> length (foldl (\<lambda>label acc. if length acc < length label then label else acc) a xs) \<and>
   (\<forall>x\<in>set xs. length x \<le>
      length (foldl (\<lambda>label acc. if length acc < length label then label else acc) a xs))"
proof (induction xs arbitrary: a)
  case (Cons x xs)
  show ?case using Cons.IH [of "if length x < length a then a else x"]
    by (cases "length x < length a") auto
qed simp

subsection \<open>Properties of the label precision\<close>

text \<open>
  C11: the hidden placeholder label is one of the formatted markers and no formatted marker
  is longer, so the axis container is as wide as its widest label.
\<close>

theorem renderQuantAxisPlaceholder_longest:
  "renderQuantAxisPlaceholder fmt toLocaleString markers = Some l \<Longrightarrow> markers \<noteq> [] \<Longrightarrow>
   \<exists>fd. l \<in> set (map (\<lambda>v. formatQuantAxisValue fmt toLocaleString v fd) markers) \<and>
     (\<forall>v\<in>set markers. length (formatQuantAxisValue fmt toLocaleString v fd) \<le> length l)"
proof -
  assume r: "renderQuantAxisPlaceholder fmt toLocaleString markers = Some l" and ne: "markers \<noteq> []"
  then obtain d where l: "l = longest_label (map (\<lambda>v. formatQuantAxisValue fmt toLocaleString v
      (int d)) markers)"
    by (auto simp: renderQuantAxisPlaceholder_def split: option.splits)
  define xs where "xs = map (\<lambda>v. formatQuantAxisValue fmt toLocaleString v (int d)) markers"
  have f: "l = '''' \<or> l \<in> set xs" "\<forall>x\<in>set xs. length x \<le> length l"
    using longest_label_foldl [of "''''" xs] l unfolding xs_def [symmetric] longest_label_def
    by blast+
  have "xs \<noteq> []" using ne by (simp add: xs_def)
  then obtain x where x: "x \<in> set xs" by (cases xs) auto
  have "l \<in> set xs"
  proof (cases "l = ''''")
    case True
    then have "x = ''''" using f(2) x by simp
    then show ?thesis using x True by simp
  next
    case False
    then show ?thesis using f(1) by blast
  qed
  then show ?thesis using f(2) unfolding xs_def by auto
qed

end
