(* ===== verification/StringUtils.thy ===== *)
theory StringUtils
  imports Prelude
begin

text \<open>
  The string and array helpers of \<open>src/src/StringUtils/index.ts\<close> and
  \<open>src/src/ArrayUtils/index.ts\<close>: token substitution \<open>replaceTokens\<close>, the class-name builder
  \<open>buildClassString\<close> over a JavaScript object (with the key order of \<open>Object.keys\<close>),
  \<open>isArrayNullOrEmpty\<close> and \<open>arrayToDictionary\<close>. A \<open>null\<close> array is \<open>None\<close>.
\<close>

subsection \<open>\<open>replaceTokens\<close>\<close>

text \<open>
  The token values \<open>number | string | boolean\<close> and their \<open>toString()\<close>; numbers are the
  integers (the only ones the callers pass), printed in decimal.
\<close>

datatype token_value = TokStr string | TokNum int | TokBool bool

definition token_to_string :: "token_value \<Rightarrow> string" where
  "token_to_string t =
     (case t of
        TokStr s \<Rightarrow> s
      | TokNum i \<Rightarrow> (if i < 0 then CHR ''-'' # string_of_nat (nat (- i)) else string_of_nat (nat i))
      | TokBool b \<Rightarrow> (if b then ''true'' else ''false''))"

text \<open>
  \<open>formatStr.replace(/{(\d+)}/g, (match, p1) => p1 < numValues ? valueArgs[+p1].toString()
  : match)\<close>: a left-to-right scan; at a \<open>{\<close> followed by one or more digits and \<open>}\<close> the
  match is replaced and the scan resumes after it, anywhere else one character is kept.
\<close>

function replace_from :: "token_value list \<Rightarrow> string \<Rightarrow> string" where
  "replace_from valueArgs [] = []"
| "replace_from valueArgs (c # cs) =
     (let p1 = takeWhile is_digit cs; rest = dropWhile is_digit cs
      in if c = CHR ''{'' \<and> p1 \<noteq> [] \<and> rest \<noteq> [] \<and> hd rest = CHR ''}''
         then (if nat_of_digits p1 < length valueArgs
               then token_to_string (valueArgs ! nat_of_digits p1)
               else c # p1 @ [CHR ''}'']) @ replace_from valueArgs (tl rest)
         else c # replace_from valueArgs cs)"
  by pat_completeness auto

termination
proof (relation "measure (\<lambda>(valueArgs, s). length s)")
  fix valueArgs c cs p1 rest
  assume "p1 = takeWhile is_digit cs" "rest = dropWhile is_digit cs"
    "c = CHR ''{'' \<and> p1 \<noteq> [] \<and> rest \<noteq> [] \<and> hd rest = CHR ''}''"
  then show "((valueArgs, tl rest), valueArgs, c # cs) \<in> measure (\<lambda>(valueArgs, s). length s)"
    using length_dropWhile_le [of is_digit cs] by simp
qed auto

definition replaceTokens :: "string \<Rightarrow> token_value list \<Rightarrow> string" where
  "replaceTokens formatStr valueArgs = replace_from valueArgs formatStr"

subsection \<open>\<open>buildClassString\<close>\<close>

text \<open>
  \<open>ClassDictionary\<close> is an object from class names to booleans; the classes whose value is
  \<open>true\<close> are joined with spaces in the order of \<open>Object.keys\<close>.
\<close>

type_synonym class_dictionary = "bool js_object"

definition buildClassString :: "class_dictionary \<Rightarrow> string" where
  "buildClassString classNames =
     js_join '' '' (filter (\<lambda>className. obj_get classNames className = Some True)
                               (object_keys classNames))"

subsection \<open>\<open>ArrayUtils\<close>\<close>

definition isArrayNullOrEmpty :: "'a list option \<Rightarrow> bool" where
  "isArrayNullOrEmpty arr = (case arr of None \<Rightarrow> True | Some xs \<Rightarrow> xs = [])"

text \<open>
  The \<open>forEach((item, i) => ...)\<close> loop of \<open>arrayToDictionary\<close>, from index \<open>i\<close>, on the own
  properties of \<open>dict\<close>: \<open>dict[key] = item\<close> for the key \<open>__proto__\<close> runs the prototype
  setter of \<open>Object.prototype\<close> and creates no own property.
\<close>

fun dict_from :: "('a \<Rightarrow> string) option \<Rightarrow> nat \<Rightarrow> 'a list \<Rightarrow> 'a js_object \<Rightarrow> 'a js_object" where
  "dict_from getKey i [] dict = dict"
| "dict_from getKey i (item # items) dict =
     dict_from getKey (Suc i) items
       (let key = (case getKey of Some g \<Rightarrow> g item | None \<Rightarrow> string_of_nat i)
        in if key = ''__proto__'' then dict else obj_set key item dict)"

text \<open>
  The same loop on the prototype of \<open>dict\<close>: \<open>None\<close> is \<open>Object.prototype\<close>; the setter makes
  an item that is an object or \<open>null\<close> (the host's test \<open>isObject\<close>) the prototype and
  ignores any other value.
\<close>

fun dict_proto :: "('a \<Rightarrow> bool) \<Rightarrow> ('a \<Rightarrow> string) option \<Rightarrow> nat \<Rightarrow> 'a list \<Rightarrow> 'a option \<Rightarrow> 'a option" where
  "dict_proto isObject getKey i [] proto = proto"
| "dict_proto isObject getKey i (item # items) proto =
     dict_proto isObject getKey (Suc i) items
       (if (case getKey of Some g \<Rightarrow> g item | None \<Rightarrow> string_of_nat i) = ''__proto__'' \<and> isObject item
        then Some item else proto)"

text \<open>The own properties of the dictionary \<open>arrayToDictionary\<close> returns, and its prototype.\<close>

definition arrayToDictionary :: "'a list option \<Rightarrow> ('a \<Rightarrow> string) option \<Rightarrow> 'a js_object" where
  "arrayToDictionary arr getKey = (case arr of None \<Rightarrow> [] | Some xs \<Rightarrow> dict_from getKey 0 xs [])"

definition arrayToDictionary_proto :: "('a \<Rightarrow> bool) \<Rightarrow> 'a list option \<Rightarrow> ('a \<Rightarrow> string) option \<Rightarrow> 'a option" where
  "arrayToDictionary_proto isObject arr getKey =
     (case arr of None \<Rightarrow> None | Some xs \<Rightarrow> dict_proto isObject getKey 0 xs None)"

subsection \<open>Lemmas\<close>

lemma replace_from_no_args: "valueArgs = [] \<Longrightarrow> replace_from valueArgs s = s"
proof (induction valueArgs s rule: replace_from.induct)
  case (2 valueArgs c cs)
  define p1 where "p1 = takeWhile is_digit cs"
  define rest where "rest = dropWhile is_digit cs"
  show ?case
  proof (cases "c = CHR ''{'' \<and> p1 \<noteq> [] \<and> rest \<noteq> [] \<and> hd rest = CHR ''}''")
    case True
    have cs: "cs = p1 @ CHR ''}'' # tl rest"
      using True unfolding p1_def rest_def by (metis list.collapse takeWhile_dropWhile_id)
    have ih: "replace_from valueArgs (tl rest) = tl rest"
      using 2(1) [OF p1_def rest_def True] 2(3) .
    have "replace_from valueArgs (c # cs) = c # p1 @ [CHR ''}''] @ replace_from valueArgs (tl rest)"
      using True 2(3) by (simp add: p1_def [symmetric] rest_def [symmetric])
    then show ?thesis using ih cs by simp
  next
    case False
    have "replace_from valueArgs (c # cs) = c # replace_from valueArgs cs"
      by (simp only: replace_from.simps Let_def p1_def [symmetric] rest_def [symmetric]
          if_not_P [OF False])
    then show ?thesis using 2(2) [OF p1_def rest_def False] 2(3) by simp
  qed
qed simp

lemma string_of_nat_not_proto [simp]: "string_of_nat n \<noteq> ''__proto__''"
  using string_of_nat_digits [of n] by (auto simp: is_digit_def)

lemma dict_from_key:
  "obj_get (dict_from (Some g) i xs dict) k =
   (if k \<noteq> ''__proto__'' \<and> (\<exists>x\<in>set xs. g x = k) then Some (last (filter (\<lambda>x. g x = k) xs))
    else obj_get dict k)"
proof (induction xs arbitrary: i dict)
  case (Cons x xs)
  then show ?case by (auto simp: obj_get_set filter_empty_conv Let_def)
qed simp

lemma dict_proto_key:
  "dict_proto isObject (Some g) i xs p =
   (if \<exists>x\<in>set xs. g x = ''__proto__'' \<and> isObject x
    then Some (last (filter (\<lambda>x. g x = ''__proto__'' \<and> isObject x) xs)) else p)"
proof (induction xs arbitrary: i p)
  case (Cons x xs)
  then show ?case by (auto simp: filter_empty_conv)
qed simp

lemma dict_from_index:
  "obj_get (dict_from None i xs dict) (string_of_nat j) =
   (if i \<le> j \<and> j < i + length xs then Some (xs ! (j - i)) else obj_get dict (string_of_nat j))"
proof (induction xs arbitrary: i dict)
  case (Cons x xs)
  show ?case
  proof (cases "j = i")
    case True
    then show ?thesis using Cons.IH [of "Suc i"] by (simp add: obj_get_set)
  next
    case False
    then show ?thesis using Cons.IH [of "Suc i"]
      by (auto simp: obj_get_set nth_Cons' split: if_splits)
  qed
qed auto


lemma filter_map_of_true:
  "distinct (map fst kvs) \<Longrightarrow>
   filter (\<lambda>k. map_of kvs k = Some True) (map fst kvs) = map fst (filter snd kvs)"
proof (induction kvs)
  case (Cons kv kvs)
  obtain k b where kv: "kv = (k, b)" by (cases kv)
  have "filter (\<lambda>k'. map_of ((k, b) # kvs) k' = Some True) (map fst kvs) =
        filter (\<lambda>k'. map_of kvs k' = Some True) (map fst kvs)"
    using Cons.prems kv by (intro filter_cong) auto
  then show ?case using Cons kv by simp
qed simp

lemma dict_from_index_keys:
  "\<forall>k\<in>set (map fst dict). \<forall>j\<ge>i. k \<noteq> string_of_nat j \<Longrightarrow>
   map fst (dict_from None i xs dict) = map fst dict @ map string_of_nat [i..<i + length xs]"
proof (induction xs arbitrary: i dict)
  case (Cons x xs)
  have fresh: "string_of_nat i \<notin> set (map fst dict)"
  proof
    assume "string_of_nat i \<in> set (map fst dict)"
    then show False using Cons.prems by blast
  qed
  then have "obj_set (string_of_nat i) x dict = dict @ [(string_of_nat i, x)]"
    by (simp add: obj_set_def)
  moreover have "\<forall>k\<in>set (map fst (dict @ [(string_of_nat i, x)])). \<forall>j\<ge>Suc i. k \<noteq> string_of_nat j"
    using Cons.prems by auto
  ultimately show ?case using Cons.IH [of "dict @ [(string_of_nat i, x)]" "Suc i"]
    by (simp add: upt_rec)
qed simp

lemma is_array_index_string_of_nat:
  "n < 2 ^ 32 - 1 \<Longrightarrow> is_array_index (string_of_nat n)"
proof -
  assume n: "n < 2 ^ 32 - 1"
  have "string_of_nat n = ''0'' \<or> hd (string_of_nat n) \<noteq> CHR ''0''"
  proof (cases "n = 0")
    case True
    then show ?thesis by (simp add: string_of_nat.simps)
  next
    case False
    then show ?thesis using string_of_nat_hd by blast
  qed
  then show ?thesis using n string_of_nat_digits [of n]
    by (simp add: is_array_index_def list_all_iff)
qed

subsection \<open>Properties of the helpers\<close>

text \<open>
  With no values every token is its own replacement, so \<open>replaceTokens\<close> returns the
  format string unchanged.
\<close>

lemma replaceTokens_no_values: "replaceTokens formatStr [] = formatStr"
  by (simp add: replaceTokens_def replace_from_no_args)

text \<open>
  C15: for an object literal whose keys are distinct and none an array index,
  \<open>buildClassString\<close> joins the keys with value \<open>true\<close> in the literal's order.
\<close>

theorem buildClassString_literal:
  "distinct (map fst kvs) \<Longrightarrow> \<forall>k\<in>set (map fst kvs). \<not> is_array_index k \<Longrightarrow>
   buildClassString (obj_literal kvs) = js_join '' '' (map fst (filter snd kvs))"
proof -
  assume d: "distinct (map fst kvs)" and p: "\<forall>k\<in>set (map fst kvs). \<not> is_array_index k"
  show ?thesis
    by (simp only: buildClassString_def obj_literal_fresh [OF d] object_keys_plain [OF p]
        obj_get_def filter_map_of_true [OF d])
qed


text \<open>
  C18: without a key function the keys are \<open>i.toString()\<close>: the entry under \<open>'i'\<close> is the
  \<open>i\<close>-th item, and \<open>Object.keys\<close> lists \<open>'0', '1', ...\<close> in index order.
\<close>

theorem arrayToDictionary_index:
  "length xs < 2 ^ 32 - 1 \<Longrightarrow>
   object_keys (arrayToDictionary (Some xs) None) = map string_of_nat [0..<length xs] \<and>
   (\<forall>i. obj_get (arrayToDictionary (Some xs) None) (string_of_nat i) =
        (if i < length xs then Some (xs ! i) else None))"
proof -
  assume n: "length xs < 2 ^ 32 - 1"
  have keys: "map fst (arrayToDictionary (Some xs) None) = map string_of_nat [0..<length xs]"
    using dict_from_index_keys [of "[]" 0 xs] by (simp add: arrayToDictionary_def)
  have idx: "\<forall>k\<in>set (map string_of_nat [0..<length xs]). is_array_index k"
    using n by (auto intro: is_array_index_string_of_nat)
  have "sorted (map nat_of_digits (map string_of_nat [0..<length xs]))"
    by (simp add: comp_def)
  then have "object_keys (arrayToDictionary (Some xs) None) = map string_of_nat [0..<length xs]"
    using idx by (simp add: object_keys_def keys sort_key_id_if_sorted)
  moreover have "obj_get (arrayToDictionary (Some xs) None) (string_of_nat i) =
      (if i < length xs then Some (xs ! i) else None)" for i
    by (simp add: arrayToDictionary_def dict_from_index)
  ultimately show ?thesis by blast
qed

end
