(* ===== verification/BarChart_Render.thy ===== *)
theory BarChart_Render
  imports BarChart_Labels StringUtils "HOL-Library.Monad_Syntax"
begin

text \<open>
  The component side of \<open>src/src/BarChart/index.tsx\<close>: the props and state of \<open>BarChart\<close>,
  the padding of \<open>_getBars\<close>, the stacked bar geometry \<open>_getBarChunks\<close>, and the render
  methods that turn them into the element tree. A JSX element is a \<open>vnode\<close>: a tag, its
  attributes in source order and its children, with an array child spliced into the children
  and \<open>null\<close>, \<open>false\<close> and \<open>undefined\<close> children as \<open>VNull\<close>. Styles keep their numbers
  (\<open>`${top}%`\<close> is the pair \<open>(''top'', top)\<close>), so a \<open>NaN\<close> or an \<open>Infinity\<close> the code
  computes is visible in the tree. The chart range of \<open>render\<close> can be \<open>NaN\<close> (the tick
  list can be empty), so every geometric value is a \<open>jsnum\<close>.

  The host's \<open>toLocaleString\<close> and \<open>Number::toString\<close> are parameters. A render method that
  calls \<open>countDecimalPlaces\<close> or the tick generator returns \<open>None\<close> when one of their loops
  does not return; \<open>render_returns\<close> shows that this never happens.
\<close>

subsection \<open>Props, state and elements\<close>

datatype bar_loc = BLeft | BRight

record barchart_props =
  bc_bars :: "bar list"
  bc_showGridLines :: bool
  bc_showQuantAxis :: bool
  bc_verticalBarChart :: bool
  bc_minBarHeight :: "rat option"
  bc_minBars :: "rat option"
  bc_minBarLoc :: "bar_loc option"
  bc_showDeltaTooltip :: bool
  bc_quantAxisFormatFunc :: "(rat \<Rightarrow> (rat \<Rightarrow> string) \<Rightarrow> string) option"

text \<open>The mounted component: its props and \<open>BarChartState\<close> (\<open>{bars}\<close>).\<close>

record barchart =
  bc_props :: barchart_props
  bc_state_bars :: "bar list"

text \<open>\<open>BarChunk\<close> and a \<open>Range\<close> whose ends may be \<open>NaN\<close>.\<close>

record bar_chunk =
  percentHeight :: jsnum
  percentTop :: jsnum

record js_range =
  jmin :: jsnum
  jmax :: jsnum

text \<open>\<open>Math.min(a, b)\<close>: \<open>NaN\<close> if either argument is \<open>NaN\<close>.\<close>

fun js_min :: "jsnum \<Rightarrow> jsnum \<Rightarrow> jsnum" where
  "js_min (Num a) (Num b) = Num (min a b)"
| "js_min (Infinity p) (Num b) = (if p then Num b else Infinity False)"
| "js_min (Num a) (Infinity q) = (if q then Num a else Infinity False)"
| "js_min (Infinity p) (Infinity q) = Infinity (p \<and> q)"
| "js_min _ _ = NaN"

text \<open>
  \<open>Number.prototype.toFixed(f)\<close>: the integer \<open>n\<close> nearest to \<open>x * 10^f\<close> (the larger one on a
  tie), its digits with a point before the last \<open>f\<close>; from \<open>10^21\<close> on, \<open>Number::toString\<close>.
\<close>

definition digits_fixed :: "nat \<Rightarrow> nat \<Rightarrow> string" where
  "digits_fixed f n =
     (let m = string_of_nat n;
          m' = (if f \<noteq> 0 \<and> length m \<le> f then replicate (f + 1 - length m) CHR ''0'' @ m else m)
      in if f = 0 then m' else take (length m' - f) m' @ ''.'' @ drop (length m' - f) m')"

definition js_toFixed :: "(rat \<Rightarrow> string) \<Rightarrow> nat \<Rightarrow> jsnum \<Rightarrow> string" where
  "js_toFixed numberToString f x =
     (case x of
        NaN \<Rightarrow> ''NaN''
      | Infinity p \<Rightarrow> (if p then ''Infinity'' else ''-Infinity'')
      | Num q \<Rightarrow>
          (let s = (if q < 0 then ''-'' else ''''); a = \<bar>q\<bar>
           in if 10 ^ 21 \<le> a then s @ numberToString a
              else s @ digits_fixed f (nat \<lfloor>a * 10 ^ f + 1 / 2\<rfloor>)))"

subsection \<open>\<open>_getBars\<close> and the component's life cycle\<close>

definition empty_padding_bar :: bar where
  "empty_padding_bar = \<lparr>bar_value = 1, bar_label = None, bar_axisLabel = None, bar_className = None,
     bar_empty = True\<rparr>"

text \<open>
  \<open>for (let i = 0; i < minBars - bars.length; i++)\<close> runs \<open>\<lceil>minBars - bars.length\<rceil>\<close> times
  when the bound is positive; \<open>minBars &&\<close> skips an absent or zero \<open>minBars\<close>.
\<close>

definition getBars :: "barchart_props \<Rightarrow> bar list" where
  "getBars props =
     (let bs = bc_bars props;
          emptyBars =
            (case bc_minBars props of
               Some minBars \<Rightarrow>
                 if minBars \<noteq> 0 \<and> of_nat (length bs) < minBars
                 then replicate (nat \<lceil>minBars - of_nat (length bs)\<rceil>) empty_padding_bar else []
             | None \<Rightarrow> [])
      in if (case bc_minBarLoc props of Some l \<Rightarrow> l | None \<Rightarrow> BLeft) = BLeft
         then emptyBars @ bs else bs @ emptyBars)"

definition new_BarChart :: "barchart_props \<Rightarrow> barchart" where
  "new_BarChart props = \<lparr>bc_props = props, bc_state_bars = getBars props\<rparr>"

text \<open>\<open>componentWillReceiveProps\<close> with the props update React performs after it.\<close>

definition componentWillReceiveProps :: "barchart_props \<Rightarrow> barchart \<Rightarrow> barchart" where
  "componentWillReceiveProps nextProps c =
     c\<lparr>bc_props := nextProps, bc_state_bars := getBars nextProps\<rparr>"

subsection \<open>\<open>_getBarChunks\<close>\<close>

text \<open>
  The \<open>while (curIndex >= 0)\<close> loop, from \<open>curIndex\<close> down: each step pushes the difference of
  the bar's height and its predecessor's, until the predecessor is higher in value or empty
  (one full chunk and \<open>break\<close>) or index \<open>0\<close> is reached (one full chunk).
\<close>

fun chunk_walk :: "(bar \<Rightarrow> jsnum) \<Rightarrow> jsnum \<Rightarrow> bar list \<Rightarrow> nat \<Rightarrow> bar_chunk list" where
  "chunk_walk funcBarHeight barTop bs 0 =
     [\<lparr>percentHeight = funcBarHeight (bs ! 0), percentTop = barTop\<rparr>]"
| "chunk_walk funcBarHeight barTop bs (Suc i) =
     (let bar = bs ! Suc i; barHeight = funcBarHeight bar
      in if bar_value bar < bar_value (bs ! i) \<or> bar_empty (bs ! i)
         then [\<lparr>percentHeight = barHeight, percentTop = barTop\<rparr>]
         else \<lparr>percentHeight = barHeight - funcBarHeight (bs ! i), percentTop = barTop\<rparr> #
                chunk_walk funcBarHeight barTop bs i)"

text \<open>
  \<open>index\<close> is a position of \<open>bs\<close>: the only caller, \<open>_renderBarColumn\<close>, is called from
  \<open>bars.forEach\<close>. \<open>b.percentHeight || 0\<close> reads \<open>NaN\<close> as \<open>0\<close>.
\<close>

definition getBarChunks :: "rat option \<Rightarrow> bar list \<Rightarrow> nat \<Rightarrow> js_range \<Rightarrow> bar_chunk list" where
  "getBarChunks minBarHeight bs index chartRange =
     (if bar_empty (bs ! index) then
        (let barHeight = js_or_num minBarHeight 1
         in [\<lparr>percentHeight = Num (js_or_num (Some barHeight) 1), percentTop = Num (95 - barHeight)\<rparr>])
      else
        (let range = jmax chartRange - jmin chartRange;
             funcBarHeight = (\<lambda>bar. \<bar>Num (bar_value bar)\<bar> / range * Num 100);
             barTop = (jmax chartRange - Num (max 0 (bar_value (bs ! index)))) / range * Num 100;
             chunks = chunk_walk funcBarHeight barTop bs index
         in case minBarHeight of
              Some m \<Rightarrow>
                if m \<noteq> 0 \<and> js_less (js_sum (map (\<lambda>b. js_or0 (percentHeight b)) chunks)) (Num m)
                then [\<lparr>percentHeight = Num m, percentTop = Num (95 - m)\<rparr>] else chunks
            | None \<Rightarrow> chunks))"

subsection \<open>The render methods\<close>

text \<open>
  The class list of a chunk: the template literal's newlines and indentation only separate
  the class tokens, so the attribute is the list of its non-empty tokens.
\<close>

definition chunk_classes :: "bool \<Rightarrow> nat \<Rightarrow> nat \<Rightarrow> string list" where
  "chunk_classes isEmpty n chunkIndex =
     filter (\<lambda>c. c \<noteq> [])
       [''barchart__bar'',
        if isEmpty then ''barchart__bar--empty'' else ''barchart__bar-chunk-'' @ string_of_nat (n - chunkIndex),
        if chunkIndex = 0 then ''barchart__bar-chunk-first'' else [],
        if chunkIndex = n - 1 then ''barchart__bar-chunk-last'' else []]"

text \<open>
  \<open>_renderBarColumn\<close>. The \<open>if (!bar)\<close> guard never fires: \<open>bar\<close> comes from \<open>bars.forEach\<close>.
  \<open>{label && ...}\<close> renders nothing for an absent label and an empty text for \<open>''\<close>.
\<close>

definition renderBarColumn ::
  "(rat \<Rightarrow> string) \<Rightarrow> barchart_props \<Rightarrow> bar list \<Rightarrow> nat \<Rightarrow> bar \<Rightarrow> js_range \<Rightarrow> vnode" where
  "renderBarColumn numberToString props bs index bar chartRange =
     (let value = bar_value bar;
          negative = value < 0;
          range = js_max (jmax chartRange - jmin chartRange) (Num 1);
          barHeight = \<bar>Num value\<bar> / range * Num 100;
          barTop = (jmax chartRange - Num (max 0 value)) / range * Num 100;
          labelTop = (if negative then barTop else barTop - barHeight);
          barClassName = buildClassString (obj_literal [(''barchart__bar-column'', True),
                           (js_key (bar_className bar), js_truthy_str (bar_className bar))]);
          labelClassName = buildClassString (obj_literal [(''barchart__bar-label'', True),
                             (''negative'', negative)]);
          barChunks = getBarChunks (bc_minBarHeight props) bs index chartRange;
          n = length barChunks;
          chunkElts = map (\<lambda>(chunk, chunkIndex). VElem ''div''
                        [(''className'', AClasses (chunk_classes (bar_empty bar) n chunkIndex)),
                         (''style'', AStyle [(''top'', percentTop chunk), (''height'', percentHeight chunk)]),
                         (''key'', ANum (Num (of_nat chunkIndex)))] [])
                      (zip barChunks [0..<n]);
          labelElt = (case bar_label bar of
                        None \<Rightarrow> VNull
                      | Some l \<Rightarrow> if l = [] then VText [] else
                          VElem ''div'' [(''className'', AStr labelClassName), (''style'', AStyle [(''top'', labelTop)])]
                            [VElem ''span'' [] [VText l]]);
          barFragment = VElem ''React.Fragment'' [] (chunkElts @ [labelElt])
      in if bc_showDeltaTooltip props \<and> 0 < index \<and> \<not> bar_empty (bs ! index) \<and> \<not> bar_empty (bs ! (index - 1))
         then (let pct = (Num (bar_value (bs ! index)) - Num (bar_value (bs ! (index - 1)))) /
                           Num (bar_value (bs ! (index - 1))) * Num 100;
                   pctChange = (if js_less (Num 0) pct then ''+'' else []) @ js_toFixed numberToString 1 pct @ ''%''
               in VElem ''Tooltip'' [(''id'', AStr (''barchart__bar-'' @ string_of_nat index)),
                    (''wrapperClassName'', AStr barClassName), (''place'', AStr ''left''),
                    (''content'', AStr pctChange), (''key'', ANum (Num (of_nat index)))] [barFragment])
         else VElem ''div'' [(''key'', ANum (Num (of_nat index))), (''className'', AStr barClassName)] [barFragment])"

definition renderBars :: "(rat \<Rightarrow> string) \<Rightarrow> barchart_props \<Rightarrow> bar list \<Rightarrow> js_range \<Rightarrow> vnode" where
  "renderBars numberToString props bs chartRange =
     VElem ''div'' [(''className'', AStr ''barchart__bar-container'')]
       (concat (map (\<lambda>(bar, index).
          [VElem ''div'' [(''className'', AStr ''barchart__bar-column-padding''),
                          (''key'', AStr (string_of_nat index @ ''-bar-before''))] [],
           renderBarColumn numberToString props bs index bar chartRange,
           VElem ''div'' [(''className'', AStr ''barchart__bar-column-padding''),
                          (''key'', AStr (string_of_nat index @ ''-bar-after''))] []])
        (zip bs [0..<length bs])))"

definition renderVerticalBarColumn :: "nat \<Rightarrow> bar \<Rightarrow> rat \<Rightarrow> vnode" where
  "renderVerticalBarColumn index bar totalRange =
     (if bar_value bar \<le> 0 \<or> totalRange \<le> 0 then VNull
      else
        (let barClassName = buildClassString (obj_literal [(''barchart__bar'', True),
                              (js_key (bar_className bar), js_truthy_str (bar_className bar))]);
             barHeight = (if totalRange \<noteq> 0 then max 0 (bar_value bar) / totalRange * 100 else 0)
         in VElem ''div'' [(''className'', AStr barClassName), (''style'', AStyle [(''height'', Num barHeight)])] []))"

definition renderVerticalBar :: "bar list \<Rightarrow> vnode" where
  "renderVerticalBar bs =
     (let totalRange = foldl (\<lambda>acc bar. acc + bar_value bar) 0 bs
      in VElem ''div'' [(''className'', AStr ''barchart__bar-container barchart__bar-container--vertical'')]
           (map (\<lambda>(bar, index). renderVerticalBarColumn index bar totalRange) (zip bs [0..<length bs])))"

text \<open>The element \<open>_renderQuantAxisPlaceholder\<close> returns around the longest label.\<close>

definition quantAxisPlaceholderElt :: "string \<Rightarrow> vnode" where
  "quantAxisPlaceholderElt longestValue =
     VElem ''div'' [(''className'', AStr ''barchart__quant-axis-label hidden'')] [VText longestValue]"

text \<open>
  \<open>_renderQuantAxis\<close> and \<open>_renderGridLines\<close> read the markers only when their flag is set,
  and \<open>render\<close> computes them then; \<open>None\<close> markers stand for \<open>null\<close>.
\<close>

definition renderQuantAxis ::
  "(nat \<Rightarrow> rat \<Rightarrow> string) \<Rightarrow> barchart_props \<Rightarrow> js_range \<Rightarrow> rat list option \<Rightarrow> vnode option" where
  "renderQuantAxis toLocaleString props chartRange quantAxisMarkers =
     (if \<not> bc_showQuantAxis props then Some VNull
      else case quantAxisMarkers of
        None \<Rightarrow> None
      | Some ms \<Rightarrow> do {
          fractionalDigits \<leftarrow> getAxisIncrementDigits ms;
          let rangeSpan = jmax chartRange - jmin chartRange;
          let axisLabels = map (\<lambda>val. formatQuantAxisValue (bc_quantAxisFormatFunc props) toLocaleString
                                        val (int fractionalDigits)) ms;
          placeholder \<leftarrow> renderQuantAxisPlaceholder (bc_quantAxisFormatFunc props) toLocaleString ms;
          Some (VElem ''div'' [(''className'', AStr ''barchart__quant-axis'')]
            (quantAxisPlaceholderElt placeholder #
             map (\<lambda>(val, label). VElem ''div''
                    [(''className'', AStr (buildClassString (obj_literal [(''barchart__quant-axis-label'', True),
                                                                          (''zero'', val = 0)]))),
                     (''style'', AStyle [(''top'', (jmax chartRange - Num val) / rangeSpan * Num 100)]),
                     (''key'', AStr label)] [VText label])
               (zip ms axisLabels)))
        })"

definition renderGridLines :: "barchart_props \<Rightarrow> js_range \<Rightarrow> rat list option \<Rightarrow> vnode option" where
  "renderGridLines props chartRange quantAxisMarkers =
     (if \<not> bc_showGridLines props then Some VNull
      else case quantAxisMarkers of
        None \<Rightarrow> None
      | Some ms \<Rightarrow>
          (let rangeSpan = jmax chartRange - jmin chartRange
           in Some (VElem ''div'' [(''className'', AStr ''barchart__grid-line-container'')]
                (map (\<lambda>val. VElem ''div''
                        [(''className'', AStr (buildClassString (obj_literal [(''barchart__grid-line'', True),
                                                                              (''zero'', val = 0)]))),
                         (''style'', AStyle [(''top'', (jmax chartRange - Num val) / rangeSpan * Num 100)]),
                         (''key'', ANum (Num val))] [])
                   ms))))"

definition renderCatAxis ::
  "(nat \<Rightarrow> rat \<Rightarrow> string) \<Rightarrow> barchart_props \<Rightarrow> bar list \<Rightarrow> rat list option \<Rightarrow> vnode option" where
  "renderCatAxis toLocaleString props bs quantAxisMarkers =
     (if \<not> list_ex (\<lambda>bar. js_truthy_str (bar_axisLabel bar)) bs then Some VNull
      else do {
        placeholder \<leftarrow>
          (if bc_showQuantAxis props
           then (case quantAxisMarkers of
                   None \<Rightarrow> None
                 | Some ms \<Rightarrow>
                     map_option (\<lambda>l. VElem ''div'' [(''className'', AStr ''barchart__quant-axis-placeholder'')]
                                       [quantAxisPlaceholderElt l])
                       (renderQuantAxisPlaceholder (bc_quantAxisFormatFunc props) toLocaleString ms))
           else Some VNull);
        Some (VElem ''div'' [(''className'', AStr ''barchart__horiz-container no-grow'')]
          [placeholder,
           VElem ''div'' [(''className'', AStr ''barchart__cat-axis'')]
             (map (\<lambda>(bar, index). VElem ''div''
                     [(''key'', ANum (Num (of_nat index))),
                      (''className'', AStr (buildClassString (obj_literal [(''barchart__cat-axis-label'', True),
                                   (js_key (bar_className bar), js_truthy_str (bar_className bar))])))]
                     [VText (case bar_axisLabel bar of Some l \<Rightarrow> l | None \<Rightarrow> [])])
                (zip bs [0..<length bs]))])
      })"

text \<open>
  \<open>render\<close>: nothing for no bars; otherwise the markers when an axis or grid lines are shown,
  and the chart range widened to them. \<open>quantAxisMarkers[length - 1]\<close> and
  \<open>quantAxisMarkers[0]\<close> of an empty marker list are \<open>undefined\<close>, which \<open>Math.min\<close> and
  \<open>Math.max\<close> turn into \<open>NaN\<close>.
\<close>

definition render :: "(nat \<Rightarrow> rat \<Rightarrow> string) \<Rightarrow> (rat \<Rightarrow> string) \<Rightarrow> barchart \<Rightarrow> vnode option" where
  "render toLocaleString numberToString c =
     (let props = bc_props c; bs = bc_state_bars c
      in if bs = [] then Some VNull
      else do {
        let dataRange = computeDataRange (Some bs);
        quantAxisMarkers \<leftarrow>
          (if bc_showGridLines props \<or> bc_showQuantAxis props
           then map_option Some (computeQuantAxisMarkerVals dataRange) else Some None);
        let chartRange =
          (case quantAxisMarkers of
             Some ms \<Rightarrow>
               \<lparr>jmin = js_min (Num (rmin dataRange)) (if ms = [] then NaN else Num (last ms)),
                jmax = js_max (Num (rmax dataRange)) (if ms = [] then NaN else Num (hd ms))\<rparr>
           | None \<Rightarrow> \<lparr>jmin = Num (rmin dataRange), jmax = Num (rmax dataRange)\<rparr>);
        quantAxis \<leftarrow> renderQuantAxis toLocaleString props chartRange quantAxisMarkers;
        gridLines \<leftarrow> renderGridLines props chartRange quantAxisMarkers;
        catAxis \<leftarrow> renderCatAxis toLocaleString props bs quantAxisMarkers;
        Some (VElem ''div'' [(''className'', AStr ''barchart'')]
          [VElem ''div'' [(''className'', AStr ''barchart__horiz-container'')]
             [quantAxis,
              VElem ''div'' [(''className'', AStr ''barchart__chart-body'')]
                [gridLines,
                 if bc_verticalBarChart props then renderVerticalBar bs
                 else renderBars numberToString props bs chartRange]],
           catAxis])
      })"

subsection \<open>Observations of the element tree\<close>

text \<open>The children of an element and the \<open>height\<close> of its \<open>style\<close>, for stating properties.\<close>

fun vchildren :: "vnode \<Rightarrow> vnode list" where
  "vchildren (VElem _ _ cs) = cs"
| "vchildren _ = []"

fun style_height :: "vnode \<Rightarrow> jsnum option" where
  "style_height (VElem _ attrs _) =
     (case map_of attrs ''style'' of Some (AStyle st) \<Rightarrow> map_of st ''height'' | _ \<Rightarrow> None)"
| "style_height _ = None"

subsection \<open>Lemmas\<close>

lemma chunk_walk_tops: "c \<in> set (chunk_walk h t bs i) \<Longrightarrow> percentTop c = t"
  by (induction i) (auto simp: Let_def split: if_splits)

lemma chunk_walk_Num:
  "\<exists>hs. map percentHeight (chunk_walk (\<lambda>b. Num (f b)) t bs i) = map Num hs \<and> sum_list hs = f (bs ! i)"
proof (induction i)
  case 0
  show ?case by (rule exI [of _ "[f (bs ! 0)]"]) simp
next
  case (Suc i)
  then obtain hs where hs: "map percentHeight (chunk_walk (\<lambda>b. Num (f b)) t bs i) = map Num hs"
      "sum_list hs = f (bs ! i)" by blast
  show ?case
  proof (cases "bar_value (bs ! Suc i) < bar_value (bs ! i) \<or> bar_empty (bs ! i)")
    case True
    then show ?thesis by (auto intro: exI [of _ "[f (bs ! Suc i)]"])
  next
    case False
    then show ?thesis using hs
      by (auto simp: Let_def intro!: exI [of _ "(f (bs ! Suc i) - f (bs ! i)) # hs"])
  qed
qed

lemma chunk_walk_nonneg:
  assumes "\<forall>j\<le>i. 0 \<le> f (bs ! j)"
    and "\<forall>j<i. bar_value (bs ! j) \<le> bar_value (bs ! Suc j) \<longrightarrow> f (bs ! j) \<le> f (bs ! Suc j)"
  shows "\<exists>hs. map percentHeight (chunk_walk (\<lambda>b. Num (f b)) t bs i) = map Num hs \<and> (\<forall>h\<in>set hs. 0 \<le> h)"
  using assms
proof (induction i)
  case 0
  then show ?case by (auto intro: exI [of _ "[f (bs ! 0)]"])
next
  case (Suc i)
  then obtain hs where hs: "map percentHeight (chunk_walk (\<lambda>b. Num (f b)) t bs i) = map Num hs"
      "\<forall>h\<in>set hs. 0 \<le> h" by (metis less_SucI le_SucI)
  show ?case
  proof (cases "bar_value (bs ! Suc i) < bar_value (bs ! i) \<or> bar_empty (bs ! i)")
    case True
    then show ?thesis using Suc.prems(1) by (auto intro: exI [of _ "[f (bs ! Suc i)]"])
  next
    case False
    then have "f (bs ! i) \<le> f (bs ! Suc i)" using Suc.prems(2) by auto
    then show ?thesis using hs False
      by (auto simp: Let_def intro!: exI [of _ "(f (bs ! Suc i) - f (bs ! i)) # hs"])
  qed
qed

lemma bar_height_Num:
  "a \<noteq> b \<Longrightarrow> \<bar>Num v\<bar> / (Num b - Num a) * Num 100 = Num (\<bar>v\<bar> / (b - a) * 100)"
  by simp

lemma getBarChunks_Num:
  "\<not> bar_empty (bs ! index) \<Longrightarrow> a \<noteq> b \<Longrightarrow>
   getBarChunks mbh bs index \<lparr>jmin = Num a, jmax = Num b\<rparr> =
     (let chunks = chunk_walk (\<lambda>bar. Num (\<bar>bar_value bar\<bar> / (b - a) * 100))
                     (Num ((b - max 0 (bar_value (bs ! index))) / (b - a) * 100)) bs index
      in case mbh of
           Some m \<Rightarrow>
             if m \<noteq> 0 \<and> js_less (js_sum (map (\<lambda>b. js_or0 (percentHeight b)) chunks)) (Num m)
             then [\<lparr>percentHeight = Num m, percentTop = Num (95 - m)\<rparr>] else chunks
         | None \<Rightarrow> chunks)"
proof -
  assume ne: "\<not> bar_empty (bs ! index)" and ab: "a \<noteq> b"
  have h: "\<And>v. \<bar>Num v\<bar> / (Num b - Num a) * Num 100 = Num (\<bar>v\<bar> / (b - a) * 100)"
    using ab by (rule bar_height_Num)
  have ba: "b - a \<noteq> 0" using ab by simp
  have t: "(Num b - Num (max 0 (bar_value (bs ! index)))) / (Num b - Num a) * Num 100 =
      Num ((b - max 0 (bar_value (bs ! index))) / (b - a) * 100)"
    by (simp only: jsnum_Num_arith jsnum_Num_divide [OF ba])
  show ?thesis
    unfolding getBarChunks_def Let_def js_range.select_convs h t using ne by (simp only: if_False)
qed


lemma chunk_walk_top_list: "map percentTop (chunk_walk h t bs i) = replicate (length (chunk_walk h t bs i)) t"
  by (induction i) (auto simp: Let_def)

lemma floor_chunk_within:
  "0 \<le> m \<Longrightarrow> m \<le> 95 \<Longrightarrow>
   \<exists>top hs. map percentTop [\<lparr>percentHeight = Num m, percentTop = Num (95 - m)\<rparr>] = replicate (length hs) (Num top) \<and>
     map percentHeight [\<lparr>percentHeight = Num m, percentTop = Num (95 - m)\<rparr>] = map Num hs \<and>
     0 \<le> top \<and> (\<forall>h\<in>set hs. 0 \<le> h) \<and> top + sum_list hs \<le> 100"
  by (intro exI [of _ "95 - m"] exI [of _ "[m]"]) simp

lemma bar_geometry_bounds:
  fixes a b v :: rat
  assumes "a \<le> 0" "0 < b" "0 \<le> v" "v \<le> b"
  shows "0 \<le> (b - max 0 v) / (b - a) * 100 \<and> (b - max 0 v) / (b - a) * 100 + \<bar>v\<bar> / (b - a) * 100 \<le> 100"
proof -
  have p: "0 < b - a" using assms by simp
  have mv: "max 0 v = v" "\<bar>v\<bar> = v" using assms by simp_all
  have "(b - max 0 v) / (b - a) * 100 + \<bar>v\<bar> / (b - a) * 100 = (b - v + v) / (b - a) * 100"
    unfolding mv by (simp only: add_divide_distrib distrib_right)
  then have "(b - max 0 v) / (b - a) * 100 + \<bar>v\<bar> / (b - a) * 100 = b / (b - a) * 100" by simp
  moreover have "b / (b - a) * 100 \<le> 100" using assms p by (simp add: divide_le_eq)
  moreover have "0 \<le> (b - max 0 v) / (b - a) * 100" using assms p by simp
  ultimately show ?thesis by linarith
qed

lemma foldl_plus_sum_list: "foldl (\<lambda>acc x. acc + f x) a xs = a + sum_list (map f xs)"
  by (induction xs arbitrary: a) (simp_all add: add.assoc)

lemma map_case_zip_fst: "length ys = length xs \<Longrightarrow> map (\<lambda>(x, i). g x) (zip xs ys) = map g xs"
  by (induction ys xs rule: list_induct2) auto

lemma sum_list_percent: "sum_list (map (\<lambda>x. f x / t * 100) xs) = sum_list (map f xs) / t * 100"
  for t :: rat by (induction xs) (simp_all add: add_divide_distrib ring_distribs)

lemma markers_Some: "\<exists>ms. computeQuantAxisMarkerVals r = Some ms"
proof (cases "rmax r - rmin r \<le> 0")
  case True
  then show ?thesis by (simp add: computeQuantAxisMarkerVals_def)
next
  case False
  then have "0 < rmax r - rmin r" by simp
  then obtain t where w:
    "while_option (\<lambda>s. maxMarkerCount < markerCount s) (marker_step r) (marker_init r) = Some t"
    using tick_loop_Some by blast
  show ?thesis
    by (rule exI [of _ "marker_vals t"]) (simp only: computeQuantAxisMarkerVals_def False w if_False option.map)
qed

lemma markers_digits: "computeQuantAxisMarkerVals r = Some ms \<Longrightarrow> \<exists>k. getAxisIncrementDigits ms = Some k"
proof (cases "rmin r < rmax r")
  case True
  assume ms: "computeQuantAxisMarkerVals r = Some ms"
  obtain ticks inc where t: "computeQuantAxisMarkerVals r = Some ticks" "0 < inc"
      "\<exists>c\<in>set possibleIncrements. \<exists>e. inc = c * power_int 10 e"
      "2 \<le> length ticks" "length ticks \<le> 5"
      "\<And>i. i < length ticks \<Longrightarrow> ticks ! i = hd ticks - of_nat i * inc"
    using tick_result [OF True] by blast
  have "ticks = ms" using t(1) ms by simp
  have "ticks \<noteq> []" using t(4) by auto
  then have "ticks ! 0 - ticks ! 1 = inc"
    using t(4) t(6) [of 0] t(6) [of 1] by (simp add: hd_conv_nth)
  moreover obtain k where "countDecimalPlaces inc = Some k"
    using t(3) countDecimalPlaces_increment by blast
  ultimately show ?thesis using t(4) \<open>ticks = ms\<close> by (auto simp: getAxisIncrementDigits_def)
next
  case False
  assume "computeQuantAxisMarkerVals r = Some ms"
  moreover have le: "rmax r - rmin r \<le> 0" using False by simp
  ultimately have "Some [] = Some ms" by (simp only: computeQuantAxisMarkerVals_def le if_True)
  then have "ms = []" by simp
  then show ?thesis by (simp add: getAxisIncrementDigits_def countDecimalPlaces_Ints)
qed

lemma renderers_Some:
  assumes "getAxisIncrementDigits ms = Some k"
  shows "\<exists>q. renderQuantAxis fmt props r (Some ms) = Some q"
    and "\<exists>g. renderGridLines props r (Some ms) = Some g"
    and "\<exists>x. renderCatAxis fmt props bs (Some ms) = Some x"
  using assms
  by (auto simp: renderQuantAxis_def renderGridLines_def renderCatAxis_def renderQuantAxisPlaceholder_def)

lemma renderers_no_axis:
  assumes "\<not> bc_showQuantAxis props" "\<not> bc_showGridLines props"
  shows "renderQuantAxis fmt props r None = Some VNull"
    and "renderGridLines props r None = Some VNull"
    and "\<exists>x. renderCatAxis fmt props bs None = Some x"
  using assms by (auto simp: renderQuantAxis_def renderGridLines_def renderCatAxis_def)

subsection \<open>Properties\<close>

text \<open>
  C33: the chunks of a non-empty bar stack up to the bar. On a chart range with distinct
  finite ends and no minimum height, the heights of the chunks \<open>_getBarChunks\<close> returns are
  finite and sum to the bar's own height \<open>|value| / range * 100\<close> (the differences of the
  ascending run telescope), and every chunk starts at the bar's top
  \<open>(max - max(0, value)) / range * 100\<close>.
\<close>

theorem getBarChunks_stack:
  assumes ne: "\<not> bar_empty (bs ! index)" and ab: "a \<noteq> b"
  shows "\<exists>hs. map percentHeight (getBarChunks None bs index \<lparr>jmin = Num a, jmax = Num b\<rparr>) = map Num hs \<and>
     sum_list hs = \<bar>bar_value (bs ! index)\<bar> / (b - a) * 100 \<and>
     (\<forall>c\<in>set (getBarChunks None bs index \<lparr>jmin = Num a, jmax = Num b\<rparr>).
        percentTop c = Num ((b - max 0 (bar_value (bs ! index))) / (b - a) * 100))"
  using getBarChunks_Num [OF ne ab, of None]
    chunk_walk_Num [of "\<lambda>bar. \<bar>bar_value bar\<bar> / (b - a) * 100" _ bs index] chunk_walk_tops
  by auto

text \<open>
  C34: on non-negative data inside a chart range \<open>[min, max]\<close> with \<open>min \<le> 0 < max\<close>, and
  a minimum height in \<open>[0, 95]\<close> if one is given, the chunks of every bar (padding bars
  included) share one top, have non-negative finite heights, and fill an interval that lies
  within \<open>[0, 100]\<close> percent of the chart: the spec's chunk invariant holds there.
\<close>

theorem getBarChunks_within_chart:
  assumes idx: "index < length bs"
    and vals: "\<forall>bar\<in>set bs. 0 \<le> bar_value bar \<and> bar_value bar \<le> b"
    and a: "a \<le> 0" and b: "0 < b"
    and mbh: "\<forall>m. minBarHeight = Some m \<longrightarrow> 0 \<le> m \<and> m \<le> 95"
  shows "\<exists>top hs.
     map percentTop (getBarChunks minBarHeight bs index \<lparr>jmin = Num a, jmax = Num b\<rparr>) = replicate (length hs) (Num top) \<and>
     map percentHeight (getBarChunks minBarHeight bs index \<lparr>jmin = Num a, jmax = Num b\<rparr>) = map Num hs \<and>
     0 \<le> top \<and> (\<forall>h\<in>set hs. 0 \<le> h) \<and> top + sum_list hs \<le> 100"
proof (cases "bar_empty (bs ! index)")
  case True
  have "0 \<le> js_or_num minBarHeight 1 \<and> js_or_num minBarHeight 1 \<le> 95"
    using mbh by (cases minBarHeight) auto
  moreover have "js_or_num (Some (js_or_num minBarHeight 1)) 1 = js_or_num minBarHeight 1"
    by (cases minBarHeight) auto
  ultimately show ?thesis using True floor_chunk_within [of "js_or_num minBarHeight 1"]
    by (simp add: getBarChunks_def Let_def)
next
  case False
  have ab: "a \<noteq> b" using a b by simp
  define f :: "bar \<Rightarrow> rat" where "f = (\<lambda>bar. \<bar>bar_value bar\<bar> / (b - a) * 100)"
  define top where "top = (b - max 0 (bar_value (bs ! index))) / (b - a) * 100"
  define chunks where "chunks = chunk_walk (\<lambda>bar. Num (f bar)) (Num top) bs index"
  have inset: "\<And>j. j \<le> index \<Longrightarrow> bs ! j \<in> set bs" using idx by simp
  have pos: "0 < b - a" using a b by simp
  obtain hs where hs: "map percentHeight chunks = map Num hs" "sum_list hs = f (bs ! index)"
    using chunk_walk_Num unfolding chunks_def by blast
  have c1: "\<forall>j\<le>index. 0 \<le> f (bs ! j)" using pos by (simp add: f_def)
  have c2: "\<forall>j<index. bar_value (bs ! j) \<le> bar_value (bs ! Suc j) \<longrightarrow> f (bs ! j) \<le> f (bs ! Suc j)"
  proof (intro allI impI)
    fix j
    assume j: "j < index" and le: "bar_value (bs ! j) \<le> bar_value (bs ! Suc j)"
    have "0 \<le> bar_value (bs ! j)" using vals inset [of j] j by simp
    then have "\<bar>bar_value (bs ! j)\<bar> \<le> \<bar>bar_value (bs ! Suc j)\<bar>" using le by simp
    then show "f (bs ! j) \<le> f (bs ! Suc j)" unfolding f_def using pos
      by (simp add: divide_right_mono)
  qed
  from chunk_walk_nonneg [OF c1 c2, where t = "Num top"]
  obtain hs' where hs': "map percentHeight chunks = map Num hs'" "\<forall>h\<in>set hs'. 0 \<le> h"
    unfolding chunks_def by blast
  have "hs' = hs" using hs(1) hs'(1) by (simp add: inj_map_eq_map inj_def)
  have geo: "0 \<le> top \<and> top + f (bs ! index) \<le> 100"
    using bar_geometry_bounds [OF a b] vals inset [of index] unfolding top_def f_def by simp
  have tops: "map percentTop chunks = replicate (length hs) (Num top)"
    using chunk_walk_top_list hs(1) unfolding chunks_def by (metis length_map)
  have within: "\<exists>top hs. map percentTop chunks = replicate (length hs) (Num top) \<and>
     map percentHeight chunks = map Num hs \<and> 0 \<le> top \<and> (\<forall>h\<in>set hs. 0 \<le> h) \<and> top + sum_list hs \<le> 100"
    using tops hs hs' geo \<open>hs' = hs\<close> by (intro exI [of _ top] exI [of _ hs]) simp
  have eq: "getBarChunks minBarHeight bs index \<lparr>jmin = Num a, jmax = Num b\<rparr> =
     (case minBarHeight of
        Some m \<Rightarrow> if m \<noteq> 0 \<and> js_less (js_sum (map (\<lambda>b. js_or0 (percentHeight b)) chunks)) (Num m)
                  then [\<lparr>percentHeight = Num m, percentTop = Num (95 - m)\<rparr>] else chunks
      | None \<Rightarrow> chunks)"
    using getBarChunks_Num [OF False ab, of minBarHeight] unfolding chunks_def f_def top_def
    by (simp only: Let_def)
  show ?thesis
  proof (cases minBarHeight)
    case None
    then show ?thesis using eq within by simp
  next
    case (Some m)
    then show ?thesis using eq within floor_chunk_within [of m] mbh by auto
  qed
qed

text \<open>
  C35: on an ascending run of negative values (\<open>bs[i] < bs[i+1] < 0\<close>, neither empty) the
  walk does not stop, and the first chunk of bar \<open>i + 1\<close> has the height
  \<open>|bs[i+1]| - |bs[i]|\<close> scaled, which is negative: the comparison \<open>bar.value < prev.value\<close>
  is on values while the heights are absolute values.
\<close>

theorem getBarChunks_negative_run:
  assumes ne: "\<not> bar_empty (bs ! Suc i)" "\<not> bar_empty (bs ! i)"
    and lt: "bar_value (bs ! i) < bar_value (bs ! Suc i)" "bar_value (bs ! Suc i) < 0" and ab: "a < b"
  shows "\<exists>h. percentHeight (hd (getBarChunks None bs (Suc i) \<lparr>jmin = Num a, jmax = Num b\<rparr>)) = Num h \<and> h < 0"
proof -
  have p: "0 < b - a" using ab by simp
  have "\<bar>bar_value (bs ! Suc i)\<bar> < \<bar>bar_value (bs ! i)\<bar>" using lt by simp
  then have "\<bar>bar_value (bs ! Suc i)\<bar> / (b - a) * 100 < \<bar>bar_value (bs ! i)\<bar> / (b - a) * 100"
    using p by (simp add: divide_strict_right_mono)
  then show ?thesis
    using getBarChunks_Num [OF ne(1), of a b None] ab lt ne(2) by (simp add: Let_def)
qed

text \<open>
  C37: \<open>_getBars\<close> pads the bars with empty bars on the left, or on the right when
  \<open>minBarLoc = 'right'\<close>, and the result has \<open>max(bars.length, \<lceil>minBars\<rceil>)\<close> bars
  (exactly \<open>bars.length\<close> without \<open>minBars\<close>).
\<close>

theorem getBars_padding:
  "\<exists>k. getBars p = (if bc_minBarLoc p = Some BRight then bc_bars p @ replicate k empty_padding_bar
                     else replicate k empty_padding_bar @ bc_bars p) \<and>
     int (length (getBars p)) =
       (case bc_minBars p of Some m \<Rightarrow> max (int (length (bc_bars p))) \<lceil>m\<rceil> | None \<Rightarrow> int (length (bc_bars p)))"
proof -
  define n where "n = length (bc_bars p)"
  define k where "k = (case bc_minBars p of
     Some m \<Rightarrow> if m \<noteq> 0 \<and> of_nat n < m then nat \<lceil>m - of_nat n\<rceil> else 0 | None \<Rightarrow> 0)"
  have loc: "((case bc_minBarLoc p of Some l \<Rightarrow> l | None \<Rightarrow> BLeft) = BLeft) = (bc_minBarLoc p \<noteq> Some BRight)"
    by (cases "bc_minBarLoc p") (auto intro: bar_loc.exhaust [of "the (bc_minBarLoc p)"] elim: bar_loc.exhaust)
  have g: "getBars p = (if bc_minBarLoc p = Some BRight then bc_bars p @ replicate k empty_padding_bar
                       else replicate k empty_padding_bar @ bc_bars p)"
    unfolding getBars_def Let_def loc k_def n_def by (cases "bc_minBars p") auto
  have len: "int (n + k) = (case bc_minBars p of Some m \<Rightarrow> max (int n) \<lceil>m\<rceil> | None \<Rightarrow> int n)"
  proof (cases "bc_minBars p")
    case (Some m)
    show ?thesis
    proof (cases "m \<noteq> 0 \<and> of_nat n < m")
      case True
      then have "int n \<le> \<lceil>m\<rceil>" by (simp add: le_ceiling_iff)
      moreover have "\<lceil>m - of_nat n\<rceil> = \<lceil>m\<rceil> - int n" by (metis ceiling_diff_of_int of_int_of_nat_eq)
      ultimately show ?thesis using Some True by (simp add: k_def)
    next
      case False
      then have "\<lceil>m\<rceil> \<le> int n" by (cases "m = 0") (auto simp: ceiling_le_iff)
      then show ?thesis using Some False by (simp add: k_def)
    qed
  qed (simp add: k_def)
  show ?thesis using g len unfolding n_def by (intro exI [of _ k]) auto
qed

text \<open>
  C38: \<open>render\<close> always returns: the tick generator and the digit loops of the axis
  labels terminate on every chart the component can hold, for every combination of props, and
  the result is \<open>null\<close> exactly when there are no bars after padding.
\<close>

theorem render_returns: "\<exists>v. render fmt ns c = Some v \<and> (v = VNull \<longleftrightarrow> bc_state_bars c = [])"
proof (cases "bc_state_bars c = []")
  case True
  then show ?thesis by (simp add: render_def)
next
  case False
  define props where "props = bc_props c"
  define dr where "dr = computeDataRange (Some (bc_state_bars c))"
  show ?thesis
  proof (cases "bc_showGridLines props \<or> bc_showQuantAxis props")
    case True
    obtain ms where ms: "computeQuantAxisMarkerVals dr = Some ms" using markers_Some by blast
    obtain k where "getAxisIncrementDigits ms = Some k" using markers_digits [OF ms] by blast
    note r = renderers_Some [OF this]
    define cr where "cr = \<lparr>jmin = js_min (Num (rmin dr)) (if ms = [] then NaN else Num (last ms)),
       jmax = js_max (Num (rmax dr)) (if ms = [] then NaN else Num (hd ms))\<rparr>"
    obtain q where q: "renderQuantAxis fmt props cr (Some ms) = Some q" using r(1) by blast
    obtain g where g: "renderGridLines props cr (Some ms) = Some g" using r(2) by blast
    obtain x where x: "renderCatAxis fmt props (bc_state_bars c) (Some ms) = Some x" using r(3) by blast
    show ?thesis
      using False True ms q g x unfolding cr_def
      unfolding render_def props_def [symmetric] dr_def [symmetric] Let_def by auto
  next
    case False
    note r = renderers_no_axis [of props, OF _ _]
    show ?thesis
      using \<open>bc_state_bars c \<noteq> []\<close> False r(3) [of fmt "bc_state_bars c"]
      unfolding render_def props_def [symmetric] dr_def [symmetric] Let_def by (auto simp: r(1,2))
  qed
qed

text \<open>
  C39: with the delta tooltip on, a bar after a non-empty bar of value 0 gets the tooltip
  content \<open>'+Infinity%'\<close>: the percent change divides by zero and the \<open>Infinity\<close> reaches
  the rendered label.
\<close>

theorem renderBarColumn_tooltip_zero:
  assumes "bc_showDeltaTooltip props" "0 < index" "\<not> bar_empty (bs ! index)" "\<not> bar_empty (bs ! (index - 1))"
    and "bar_value (bs ! (index - 1)) = 0" "0 < bar_value (bs ! index)"
  shows "\<exists>attrs children. renderBarColumn ns props bs index bar r = VElem ''Tooltip'' attrs children \<and>
     (''content'', AStr ''+Infinity%'') \<in> set attrs"
  using assms by (simp add: renderBarColumn_def Let_def js_toFixed_def)

text \<open>
  C40: in a vertical bar chart of positive values the heights of the columns are positive
  and sum to 100 percent, one column per bar.
\<close>

theorem renderVerticalBar_heights:
  assumes ne: "bs \<noteq> []" and pos: "\<forall>bar\<in>set bs. 0 < bar_value bar"
  shows "\<exists>hs. map style_height (vchildren (renderVerticalBar bs)) = map (\<lambda>h. Some (Num h)) hs \<and>
     sum_list hs = 100 \<and> (\<forall>h\<in>set hs. 0 < h)"
proof -
  define t where "t = sum_list (map bar_value bs)"
  obtain x xs where bs: "bs = x # xs" using ne by (cases bs) auto
  have "0 \<le> sum_list (map bar_value xs)" using pos bs by (intro sum_list_nonneg) auto
  then have t0: "0 < t" unfolding t_def using pos bs by (simp add: add_pos_nonneg)
  have cols: "map style_height (vchildren (renderVerticalBar bs)) =
      map (\<lambda>bar. Some (Num (bar_value bar / t * 100))) bs"
    using t0 pos
    by (auto simp: renderVerticalBar_def renderVerticalBarColumn_def foldl_plus_sum_list t_def [symmetric]
        map_case_zip_fst intro!: map_cong)
  have "sum_list (map (\<lambda>bar. bar_value bar / t * 100) bs) = t / t * 100"
    unfolding t_def by (rule sum_list_percent)
  then have "sum_list (map (\<lambda>bar. bar_value bar / t * 100) bs) = 100" using t0 by simp
  moreover have "\<forall>h\<in>set (map (\<lambda>bar. bar_value bar / t * 100) bs). 0 < h" using pos t0 by auto
  ultimately show ?thesis using cols by (intro exI [of _ "map (\<lambda>bar. bar_value bar / t * 100) bs"]) auto
qed

end
