(* ===== verification/HistoryUtils.thy ===== *)
theory HistoryUtils
  imports Prelude
begin

text \<open>
  The URL helpers of \<open>src/src/HistoryUtils/index.ts\<close> and the \<open>LocationContext\<close> record of
  \<open>src/src/Types/locationContext.ts\<close>. \<open>parsePath\<close> matches its argument against the
  regular expression
  \<open>^((?:https?|ftp):)?(?://)?([^/?:#]+)?(?::(\d+))?(/?(?:[^/?#][^?#]*)?)*(\?[^#]*)?(#\w*)?$\<close>;
  the model computes the match ECMAScript's backtracking matcher finds, part by part.
  \<^item> Before the first \<open>?\<close> or \<open>#\<close> every string is matched by the path group alone, so the
    greedy choices for protocol, \<open>//\<close>, host and port never need to be undone.
  \<^item> The path group \<open>(...)*\<close> captures its last non-empty iteration: the text up to the first
    \<open>?\<close> or \<open>#\<close>, with a run of leading slashes cut to one.
  \<^item> From the first \<open>?\<close> or \<open>#\<close> on, the rest must be an optional query \<open>?[^#]*\<close> and an
    optional hash \<open>#\w*\<close>; otherwise there is no match and every field is empty.

  \<open>parseQueryParams\<close> builds an object from a query string. \<open>decodeURIComponent\<close> is the
  host's and a parameter (\<open>None\<close> where it throws \<open>URIError\<close>). The object literal
  \<open>{}\<close> inherits the members of \<open>Object.prototype\<close>, and \<open>params[key]\<close> finds them; a
  \<open>__proto__\<close> parameter replaces that prototype by an array, whose elements, length and
  methods later keys then find.
\<close>

record location_context =
  lc_hash :: string
  lc_host :: string
  lc_hostName :: string
  lc_href :: string
  lc_origin :: string
  lc_pathname :: string
  lc_port :: string
  lc_protocol :: string
  lc_search :: string

definition empty_location :: location_context where
  "empty_location = \<lparr>lc_hash = [], lc_host = [], lc_hostName = [], lc_href = [], lc_origin = [],
     lc_pathname = [], lc_port = [], lc_protocol = [], lc_search = []\<rparr>"

subsection \<open>\<open>parsePath\<close>\<close>

text \<open>\<open>((?:https?|ftp):)?\<close>: the alternatives in the order the matcher tries them.\<close>

definition match_protocol :: "string \<Rightarrow> string" where
  "match_protocol s =
     (if take 6 s = ''https:'' then ''https:''
      else if take 5 s = ''http:'' then ''http:''
      else if take 4 s = ''ftp:'' then ''ftp:'' else [])"

definition is_word_char :: "char \<Rightarrow> bool" where
  "is_word_char c \<longleftrightarrow> is_digit c \<or> c = CHR ''_'' \<or>
     (65 \<le> (of_char c :: nat) \<and> (of_char c :: nat) \<le> 90) \<or>
     (97 \<le> (of_char c :: nat) \<and> (of_char c :: nat) \<le> 122)"

text \<open>The capture of \<open>(/?(?:[^/?#][^?#]*)?)*\<close> on the text before the first \<open>?\<close> or \<open>#\<close>.\<close>

definition path_capture :: "string \<Rightarrow> string" where
  "path_capture p =
     (if p = [] then []
      else if hd p = CHR ''/'' then CHR ''/'' # dropWhile (\<lambda>c. c = CHR ''/'') p
      else p)"

text \<open>
  The groups \<open>matches[1..6]\<close> (protocol, host, port, path, query, hash) of a successful
  match, or \<open>None\<close> when \<open>path.match(urlRegEx)\<close> is \<open>null\<close>.
\<close>

definition url_match :: "string \<Rightarrow> (string \<times> string \<times> string \<times> string \<times> string \<times> string) option" where
  "url_match s =
     (let protocol = match_protocol s;
          r1 = drop (length protocol) s;
          r2 = (if take 2 r1 = ''//'' then drop 2 r1 else r1);
          hostName = takeWhile (\<lambda>c. c \<notin> set ''/?:#'') r2;
          r3 = dropWhile (\<lambda>c. c \<notin> set ''/?:#'') r2;
          port = (if r3 \<noteq> [] \<and> hd r3 = CHR '':'' then takeWhile is_digit (tl r3) else []);
          r4 = (if port \<noteq> [] then dropWhile is_digit (tl r3) else r3);
          path = takeWhile (\<lambda>c. c \<notin> set ''?#'') r4;
          r5 = dropWhile (\<lambda>c. c \<notin> set ''?#'') r4;
          search = (if r5 \<noteq> [] \<and> hd r5 = CHR ''?'' then takeWhile (\<lambda>c. c \<noteq> CHR ''#'') r5 else []);
          hash = drop (length search) r5
      in if hash = [] \<or> (hd hash = CHR ''#'' \<and> list_all is_word_char (tl hash))
         then Some (protocol, hostName, port, path_capture path, search, hash) else None)"

definition parsePath :: "string \<Rightarrow> location_context" where
  "parsePath path =
     (case (if path = [] then None else url_match path) of
        None \<Rightarrow> empty_location
      | Some (protocol, hostName, port, pathname, search, hash) \<Rightarrow>
          (let host = (if hostName \<noteq> [] then hostName @ (if port \<noteq> [] then CHR '':'' # port else [])
                       else [])
           in \<lparr>lc_hash = (if 1 < length hash then hash else []), lc_host = host,
               lc_hostName = hostName, lc_href = path,
               lc_origin = (if protocol \<noteq> [] \<and> host \<noteq> [] then protocol @ ''//'' @ host else []),
               lc_pathname = pathname, lc_port = port, lc_protocol = protocol,
               lc_search = (if 1 < length search then search else [])\<rparr>))"

subsection \<open>\<open>parseQueryParams\<close>\<close>

text \<open>
  A parameter value is a string or an array. An element of an array is a decoded string or a
  value \<open>params[key]\<close> found on the prototype chain: a member of \<open>Object.prototype\<close>,
  \<open>Object.prototype\<close> itself (what \<open>params.__proto__\<close> reads at first), a member of
  \<open>Array.prototype\<close>, or the length of a prototype array.
\<close>

datatype query_elem = QElem string | QInherited string | QObjectPrototype | QArrayMember string | QLength nat

datatype query_value = QString string | QArray "query_elem list"

text \<open>
  The prototype of \<open>params\<close>: \<open>Object.prototype\<close>, until \<open>params['__proto__'] = values\<close> runs
  the \<open>__proto__\<close> setter, which makes the array \<open>values\<close> the prototype and adds no own
  property. The array keeps its identity: a later \<open>__proto__\<close> parameter reads it back,
  pushes onto it and sets it again.
\<close>

datatype query_proto = ObjectPrototype | ArrayPrototype "query_elem list"

record query_params =
  qp_own :: "query_value js_object"
  qp_proto :: query_proto

datatype uri_error = URIError

text \<open>The members of \<open>Array.prototype\<close> (ECMAScript 2023).\<close>

definition array_prototype_members :: "string list" where
  "array_prototype_members =
     [''at'', ''concat'', ''constructor'', ''copyWithin'', ''entries'', ''every'', ''fill'', ''filter'', ''find'',
      ''findIndex'', ''findLast'', ''findLastIndex'', ''flat'', ''flatMap'', ''forEach'', ''includes'', ''indexOf'',
      ''join'', ''keys'', ''lastIndexOf'', ''map'', ''pop'', ''push'', ''reduce'', ''reduceRight'', ''reverse'',
      ''shift'', ''slice'', ''some'', ''sort'', ''splice'', ''toLocaleString'', ''toReversed'', ''toSorted'',
      ''toSpliced'', ''toString'', ''unshift'', ''values'', ''with'']"

text \<open>A key that a prototype array answers before \<open>Object.prototype\<close> can.\<close>

definition array_proto_key :: "string \<Rightarrow> bool" where
  "array_proto_key k \<longleftrightarrow> k = ''length'' \<or> is_array_index k \<or> k \<in> set array_prototype_members"

text \<open>
  \<open>params[key]\<close> for a key \<open>params\<close> does not own, read along the prototype chain, as the
  array \<open>values\<close> the loop builds from it (\<open>Array.isArray(v) ? v : [v]\<close>); \<open>None\<close> is
  \<open>undefined\<close>. \<open>__proto__\<close> reads the prototype itself.
\<close>

definition proto_get :: "query_proto \<Rightarrow> string \<Rightarrow> query_elem list option" where
  "proto_get proto key =
     (if key = ''__proto__'' then Some (case proto of ObjectPrototype \<Rightarrow> [QObjectPrototype] | ArrayPrototype es \<Rightarrow> es)
      else case proto of
        ArrayPrototype es \<Rightarrow>
          if is_array_index key \<and> nat_of_digits key < length es then Some [es ! nat_of_digits key]
          else if key = ''length'' then Some [QLength (length es)]
          else if key \<in> set array_prototype_members then Some [QArrayMember key]
          else if key \<in> set object_prototype_members then Some [QInherited key] else None
      | ObjectPrototype \<Rightarrow> if key \<in> set object_prototype_members then Some [QInherited key] else None)"

text \<open>\<open>params[key]\<close>: an own property, else the prototype chain.\<close>

definition param_get :: "query_params \<Rightarrow> string \<Rightarrow> query_elem list option" where
  "param_get params key =
     (case obj_get (qp_own params) key of
        Some (QString v) \<Rightarrow> Some [QElem v]
      | Some (QArray vs) \<Rightarrow> Some vs
      | None \<Rightarrow> proto_get (qp_proto params) key)"

text \<open>\<open>params[key] = v\<close>: the \<open>__proto__\<close> setter takes an array and ignores a string.\<close>

definition param_put :: "string \<Rightarrow> query_value \<Rightarrow> query_params \<Rightarrow> query_params" where
  "param_put key v params =
     (if key = ''__proto__'' then (case v of QArray es \<Rightarrow> params\<lparr>qp_proto := ArrayPrototype es\<rparr> | QString _ \<Rightarrow> params)
      else params\<lparr>qp_own := obj_set key v (qp_own params)\<rparr>)"

text \<open>\<open>pair[0]\<close> and \<open>pair[1] || ''\<close> of \<open>paramStr.split('=')\<close>.\<close>

definition param_pair :: "string \<Rightarrow> string \<times> string" where
  "param_pair paramStr =
     (let pair = js_split CHR ''='' paramStr in (pair ! 0, if 1 < length pair then pair ! 1 else []))"

text \<open>One pass of the \<open>for\<close> loop: skip an empty parameter, decode, then store or append.\<close>

definition add_param ::
  "(string \<Rightarrow> string option) \<Rightarrow> string \<Rightarrow> query_params \<Rightarrow> uri_error + query_params" where
  "add_param decodeURIComponent paramStr params =
     (if paramStr = [] then Inr params
      else case param_pair paramStr of
             (k, v) \<Rightarrow>
              (case (decodeURIComponent k, decodeURIComponent v) of
                (Some key, Some value) \<Rightarrow>
                  Inr (case param_get params key of
                         Some vs \<Rightarrow> param_put key (QArray (vs @ [QElem value])) params
                       | None \<Rightarrow> param_put key (QString value) params)
              | _ \<Rightarrow> Inl URIError))"

fun add_params ::
  "(string \<Rightarrow> string option) \<Rightarrow> string list \<Rightarrow> query_params \<Rightarrow> uri_error + query_params" where
  "add_params dec [] params = Inr params"
| "add_params dec (p # ps) params =
     (case add_param dec p params of Inl e \<Rightarrow> Inl e | Inr params' \<Rightarrow> add_params dec ps params')"

definition empty_params :: query_params where
  "empty_params = \<lparr>qp_own = [], qp_proto = ObjectPrototype\<rparr>"

definition parseQueryParams ::
  "(string \<Rightarrow> string option) \<Rightarrow> string \<Rightarrow> uri_error + query_params" where
  "parseQueryParams decodeURIComponent queryString =
     (if queryString = [] then Inr empty_params
      else add_params decodeURIComponent
             (js_split CHR ''&'' (if hd queryString = CHR ''?'' then tl queryString else queryString)) empty_params)"

subsection \<open>Reference behaviour of \<open>parseQueryParams\<close>\<close>

text \<open>
  The decoded key/value pairs of the non-empty parameters, in order, and the value the
  comment at line 56 asks for: one occurrence gives the string, several give the array of
  all values in order.
\<close>

definition query_pairs :: "(string \<Rightarrow> string) \<Rightarrow> string list \<Rightarrow> (string \<times> string) list" where
  "query_pairs f ps = map (\<lambda>p. (f (fst (param_pair p)), f (snd (param_pair p)))) (filter (\<lambda>p. p \<noteq> []) ps)"

definition grouped_value :: "string list \<Rightarrow> query_value option" where
  "grouped_value vs =
     (case vs of [] \<Rightarrow> None | [v] \<Rightarrow> Some (QString v) | _ \<Rightarrow> Some (QArray (map QElem vs)))"

text \<open>
  The prototype the loop leaves after the \<open>__proto__\<close> values \<open>vs\<close>: the first one reads
  \<open>Object.prototype\<close> and stores \<open>[Object.prototype, v]\<close> through the setter; each later one
  appends to that array.
\<close>

definition proto_after :: "string list \<Rightarrow> query_proto" where
  "proto_after vs = (if vs = [] then ObjectPrototype else ArrayPrototype (QObjectPrototype # map QElem vs))"

definition param_fails :: "(string \<Rightarrow> string option) \<Rightarrow> string \<Rightarrow> bool" where
  "param_fails dec p \<longleftrightarrow> p \<noteq> [] \<and> (dec (fst (param_pair p)) = None \<or> dec (snd (param_pair p)) = None)"

subsection \<open>Lemmas\<close>

lemma match_protocol_prefix:
  assumes "CHR '':'' \<notin> set (takeWhile (\<lambda>c. c \<noteq> CHR ''/'') s)"
  shows "match_protocol s = []"
proof -
  have pre: "CHR '':'' \<in> set (takeWhile (\<lambda>c. c \<noteq> CHR ''/'') s)"
    if "take n s = t" "CHR '':'' \<in> set t" "CHR ''/'' \<notin> set t" for n t
    using that
  proof (induction s arbitrary: n t)
    case Nil
    then show ?case by simp
  next
    case (Cons c cs)
    then show ?case by (cases n) (auto dest: Cons.IH [OF refl])
  qed
  show ?thesis
    using assms pre [of 6 "''https:''"] pre [of 5 "''http:''"] pre [of 4 "''ftp:''"]
    by (auto simp: match_protocol_def)
qed

lemma grouped_value_snoc:
  "grouped_value (vs @ [v]) =
     Some (case grouped_value vs of None \<Rightarrow> QString v
           | Some (QString u) \<Rightarrow> QArray [QElem u, QElem v]
           | Some (QArray es) \<Rightarrow> QArray (es @ [QElem v]))"
  by (cases vs rule: remdups_adj.cases) (simp_all add: grouped_value_def)

lemma not_proto_member: "k \<notin> set object_prototype_members \<Longrightarrow> k \<noteq> ''__proto__''"
  by (auto simp: object_prototype_members_def)

lemma proto_get_None:
  "k \<notin> set object_prototype_members \<Longrightarrow> \<not> array_proto_key k \<or> proto = ObjectPrototype \<Longrightarrow>
   proto_get proto k = None"
  by (cases proto) (auto simp: proto_get_def array_proto_key_def dest: not_proto_member)

lemma query_pairs_Cons:
  "query_pairs f (p # ps) = (if p \<noteq> [] then [(f (fst (param_pair p)), f (snd (param_pair p)))] else []) @ query_pairs f ps"
  by (simp add: query_pairs_def)

lemma add_param_ok:
  assumes dec: "\<forall>s. dec s = Some (f s)" and k: "k \<notin> set object_prototype_members"
    and pk: "\<not> array_proto_key k \<or> qp_proto acc = ObjectPrototype"
  shows "\<exists>acc'. add_param dec p acc = Inr acc' \<and>
           obj_get (qp_own acc') k = (if p \<noteq> [] \<and> f (fst (param_pair p)) = k
              then Some (case obj_get (qp_own acc) k of None \<Rightarrow> QString (f (snd (param_pair p)))
                | Some (QString u) \<Rightarrow> QArray [QElem u, QElem (f (snd (param_pair p)))]
                | Some (QArray es) \<Rightarrow> QArray (es @ [QElem (f (snd (param_pair p)))]))
              else obj_get (qp_own acc) k) \<and>
           (qp_proto acc' = qp_proto acc \<or> p \<noteq> [] \<and> f (fst (param_pair p)) = ''__proto__'')"
  using not_proto_member [OF k] proto_get_None [OF k pk] by (cases "param_pair p")
    (auto simp: add_param_def dec param_get_def param_put_def obj_get_set split: option.splits query_value.splits)

lemma add_params_get:
  assumes dec: "\<forall>s. dec s = Some (f s)" and k: "k \<notin> set object_prototype_members"
  shows "obj_get (qp_own acc) k = grouped_value vs \<Longrightarrow>
    \<not> array_proto_key k \<or> (qp_proto acc = ObjectPrototype \<and> ''__proto__'' \<notin> fst ` set (query_pairs f ps)) \<Longrightarrow>
    \<exists>r. add_params dec ps acc = Inr r \<and>
      obj_get (qp_own r) k = grouped_value (vs @ [v. (k', v) \<leftarrow> query_pairs f ps, k' = k])"
proof (induction ps arbitrary: acc vs)
  case Nil
  then show ?case by (simp add: query_pairs_def)
next
  case (Cons p ps)
  have pk: "\<not> array_proto_key k \<or> qp_proto acc = ObjectPrototype" using Cons.prems(2) by blast
  obtain acc' where a: "add_param dec p acc = Inr acc'"
    "obj_get (qp_own acc') k = (if p \<noteq> [] \<and> f (fst (param_pair p)) = k
        then Some (case obj_get (qp_own acc) k of None \<Rightarrow> QString (f (snd (param_pair p)))
          | Some (QString u) \<Rightarrow> QArray [QElem u, QElem (f (snd (param_pair p)))]
          | Some (QArray es) \<Rightarrow> QArray (es @ [QElem (f (snd (param_pair p)))]))
        else obj_get (qp_own acc) k)"
    "qp_proto acc' = qp_proto acc \<or> p \<noteq> [] \<and> f (fst (param_pair p)) = ''__proto__''"
    using add_param_ok [OF dec k pk] by blast
  have pk': "\<not> array_proto_key k \<or> (qp_proto acc' = ObjectPrototype \<and> ''__proto__'' \<notin> fst ` set (query_pairs f ps))"
    using Cons.prems(2) a(3) by (auto simp: query_pairs_Cons split: if_splits)
  show ?case
  proof (cases "p \<noteq> [] \<and> f (fst (param_pair p)) = k")
    case True
    then have "obj_get (qp_own acc') k = grouped_value (vs @ [f (snd (param_pair p))])"
      using a(2) Cons.prems(1) by (simp add: grouped_value_snoc)
    then show ?thesis
      using Cons.IH [of acc' "vs @ [f (snd (param_pair p))]"] pk' a(1) True by (auto simp: query_pairs_def)
  next
    case False
    have "obj_get (qp_own acc') k = obj_get (qp_own acc) k" by (simp only: a(2) if_not_P [OF False])
    then have "obj_get (qp_own acc') k = grouped_value vs" using Cons.prems(1) by simp
    then show ?thesis using Cons.IH [of acc'] pk' a(1) False by (auto simp: query_pairs_def)
  qed
qed

lemma add_param_proto:
  assumes dec: "\<forall>s. dec s = Some (f s)"
    and pr: "qp_proto acc = proto_after vs" and own: "obj_get (qp_own acc) ''__proto__'' = None"
  shows "\<exists>acc'. add_param dec p acc = Inr acc' \<and> obj_get (qp_own acc') ''__proto__'' = None \<and>
           qp_proto acc' = proto_after (vs @ (if p \<noteq> [] \<and> f (fst (param_pair p)) = ''__proto__''
                                               then [f (snd (param_pair p))] else []))"
  using pr own by (cases "param_pair p")
    (auto simp: add_param_def dec param_get_def param_put_def proto_get_def proto_after_def obj_get_set
      split: option.splits query_value.splits)

lemma add_params_proto:
  assumes dec: "\<forall>s. dec s = Some (f s)"
  shows "qp_proto acc = proto_after vs \<Longrightarrow> obj_get (qp_own acc) ''__proto__'' = None \<Longrightarrow>
    \<exists>r. add_params dec ps acc = Inr r \<and> obj_get (qp_own r) ''__proto__'' = None \<and>
      qp_proto r = proto_after (vs @ [v. (k', v) \<leftarrow> query_pairs f ps, k' = ''__proto__''])"
proof (induction ps arbitrary: acc vs)
  case Nil
  then show ?case by (simp add: query_pairs_def)
next
  case (Cons p ps)
  obtain acc' where a: "add_param dec p acc = Inr acc'" "obj_get (qp_own acc') ''__proto__'' = None"
    "qp_proto acc' = proto_after (vs @ (if p \<noteq> [] \<and> f (fst (param_pair p)) = ''__proto__''
                                         then [f (snd (param_pair p))] else []))"
    using add_param_proto [OF dec Cons.prems] by blast
  show ?case using Cons.IH [OF a(3) a(2)] a(1) by (auto simp: query_pairs_Cons)
qed

lemma add_param_Inl: "(\<exists>e. add_param dec p acc = Inl e) \<longleftrightarrow> param_fails dec p"
  by (cases "param_pair p")
    (auto simp: add_param_def param_fails_def split: option.splits query_value.splits)

lemma add_params_Inl:
  "(\<exists>e. add_params dec ps acc = Inl e) \<longleftrightarrow> (\<exists>p\<in>set ps. param_fails dec p)"
proof (induction ps arbitrary: acc)
  case Nil
  then show ?case by simp
next
  case (Cons p ps)
  show ?case
  proof (cases "add_param dec p acc")
    case (Inl e)
    then show ?thesis using add_param_Inl [of dec p acc] by auto
  next
    case (Inr acc')
    then have "\<not> param_fails dec p" using add_param_Inl [of dec p acc] by auto
    then show ?thesis using Inr Cons.IH [of acc'] by auto
  qed
qed

lemma takeWhile_query_start:
  assumes "search = [] \<or> hd search = CHR ''?''" "hash = [] \<or> hd hash = CHR ''#''"
  shows "takeWhile (\<lambda>c. c \<notin> set ''?#'') (search @ hash) = [] \<and>
         dropWhile (\<lambda>c. c \<notin> set ''?#'') (search @ hash) = search @ hash"
  using assms by (cases search; cases hash) auto

lemma search_split:
  assumes "search = [] \<or> (hd search = CHR ''?'' \<and> CHR ''#'' \<notin> set search)"
    "hash = [] \<or> hd hash = CHR ''#''"
  shows "(if search @ hash \<noteq> [] \<and> hd (search @ hash) = CHR ''?''
          then takeWhile (\<lambda>c. c \<noteq> CHR ''#'') (search @ hash) else []) = search"
  using assms by (cases search; cases hash) (auto simp: takeWhile_tail takeWhile_eq_all_conv)

subsection \<open>Properties\<close>

text \<open>
  C19: an absolute path \<open>/q\<close> (one leading slash), followed by an optional query
  \<open>?...\<close> without \<open>#\<close> and an optional hash \<open>#\w*\<close>, is split into exactly these parts: the
  path is the pathname, a query or hash of more than its marker character is kept, and no
  protocol, host or port is found.
\<close>

theorem parsePath_absolute:
  assumes q: "q = [] \<or> hd q \<noteq> CHR ''/''" "CHR ''?'' \<notin> set q" "CHR ''#'' \<notin> set q"
    and s: "search = [] \<or> (hd search = CHR ''?'' \<and> CHR ''#'' \<notin> set search)"
    and h: "hash = [] \<or> (hd hash = CHR ''#'' \<and> list_all is_word_char (tl hash))"
  shows "parsePath (CHR ''/'' # q @ search @ hash) =
    empty_location\<lparr>lc_href := CHR ''/'' # q @ search @ hash, lc_pathname := CHR ''/'' # q,
      lc_search := (if 1 < length search then search else []),
      lc_hash := (if 1 < length hash then hash else [])\<rparr>"
proof -
  let ?s = "CHR ''/'' # q @ search @ hash"
  have p: "match_protocol ?s = []" by (rule match_protocol_prefix) simp
  have sh: "search = [] \<or> hd search = CHR ''?''" "hash = [] \<or> hd hash = CHR ''#''"
    using s h by auto
  have t2: "take 2 ?s \<noteq> ''//''"
    using q(1) sh by (cases q; cases search; cases hash) auto
  have qa: "\<forall>c\<in>set q. c \<notin> set ''?#''" using q(2,3) by auto
  have path: "takeWhile (\<lambda>c. c \<notin> set ''?#'') ?s = CHR ''/'' # q"
    "dropWhile (\<lambda>c. c \<notin> set ''?#'') ?s = search @ hash"
    using takeWhile_query_start [OF sh] qa by (simp_all add: takeWhile_append2 dropWhile_append2)
  have pc: "path_capture (CHR ''/'' # q) = CHR ''/'' # q"
    using q(1) by (cases q) (auto simp: path_capture_def)
  have hn: "takeWhile (\<lambda>c. c \<notin> set ''/?:#'') ?s = []"
    "dropWhile (\<lambda>c. c \<notin> set ''/?:#'') ?s = ?s" by simp_all
  have hash_ok: "hash = [] \<or> (hd hash = CHR ''#'' \<and> list_all is_word_char (tl hash))"
    by (rule h)
  have c: "(CHR ''/'' = CHR '':'') = False" by simp
  have hs: "drop (length search) (search @ hash) = hash" by simp
  have u: "url_match ?s = Some ([], [], [], CHR ''/'' # q, search, hash)"
    unfolding url_match_def Let_def p using t2
    by (simp only: list.size drop_0 if_False if_True hn path pc search_split [OF s sh(2)] hs c
        hash_ok list.sel list.discI simp_thms)
  show ?thesis
    by (simp add: parsePath_def u empty_location_def)
qed

text \<open>
  C21: a relative path \<open>w/q\<close> whose first segment \<open>w\<close> has no \<open>:\<close>, \<open>?\<close> or \<open>#\<close> is read as
  host \<open>w\<close> and pathname \<open>/q\<close>: the optional \<open>//\<close> lets the host group match at the start.
  The function's comment promises to separate out the pathname, and the pathname is not
  the path.
\<close>

theorem parsePath_relative:
  assumes w: "w \<noteq> []" "\<forall>c\<in>set w. c \<notin> set ''/?:#''"
    and q: "q = [] \<or> hd q \<noteq> CHR ''/''" "CHR ''?'' \<notin> set q" "CHR ''#'' \<notin> set q"
  shows "parsePath (w @ CHR ''/'' # q) =
    empty_location\<lparr>lc_host := w, lc_hostName := w, lc_href := w @ CHR ''/'' # q,
      lc_pathname := CHR ''/'' # q\<rparr>"
proof -
  let ?s = "w @ CHR ''/'' # q"
  have tw: "takeWhile (\<lambda>c. c \<noteq> CHR ''/'') ?s = w" using w(2) by (simp add: takeWhile_append2)
  have p: "match_protocol ?s = []" by (rule match_protocol_prefix) (use w(2) tw in auto)
  have t2: "take 2 ?s \<noteq> ''//''" using w by (cases w) auto
  have hn: "takeWhile (\<lambda>c. c \<notin> set ''/?:#'') ?s = w"
    "dropWhile (\<lambda>c. c \<notin> set ''/?:#'') ?s = CHR ''/'' # q"
    using w(2) by (simp_all add: takeWhile_append2 dropWhile_append2)
  have qa: "\<forall>c\<in>set q. c \<notin> set ''?#''" using q(2,3) by auto
  have path: "takeWhile (\<lambda>c. c \<notin> set ''?#'') (CHR ''/'' # q) = CHR ''/'' # q"
    "dropWhile (\<lambda>c. c \<notin> set ''?#'') (CHR ''/'' # q) = []"
    using qa by (simp_all add: takeWhile_eq_all_conv)
  have pc: "path_capture (CHR ''/'' # q) = CHR ''/'' # q"
    using q(1) by (cases q) (auto simp: path_capture_def)
  have c: "(CHR ''/'' = CHR '':'') = False" by simp
  have u: "url_match ?s = Some ([], w, [], CHR ''/'' # q, [], [])"
    unfolding url_match_def Let_def p using t2
    by (simp only: list.size drop_0 drop_Nil if_False if_True hn path pc c list.sel list.discI simp_thms)
  show ?thesis using w(1) by (simp add: parsePath_def u empty_location_def)
qed

text \<open>
  C22: with a \<open>decodeURIComponent\<close> that does not throw, the value of a key that no
  prototype of \<open>params\<close> answers (not a member of \<open>Object.prototype\<close>, and not a key of an
  array unless no \<open>__proto__\<close> parameter makes an array the prototype) is what the comment
  at line 56 asks for: the string of its only occurrence, or the array of the values of all
  its occurrences in order, and absent when it does not occur.
\<close>

theorem parseQueryParams_grouping:
  assumes dec: "\<forall>s. dec s = Some (f s)" and k: "k \<notin> set object_prototype_members"
    and pk: "\<not> array_proto_key k \<or> ''__proto__'' \<notin> fst ` set (query_pairs f (js_split CHR ''&'' q))"
  shows "\<exists>r. parseQueryParams dec (CHR ''?'' # q) = Inr r \<and>
    obj_get (qp_own r) k = grouped_value [v. (k', v) \<leftarrow> query_pairs f (js_split CHR ''&'' q), k' = k]"
  using add_params_get [OF dec k, of empty_params "[]" "js_split CHR ''&'' q"] pk
  by (simp add: parseQueryParams_def grouped_value_def empty_params_def)

text \<open>
  C23: \<open>parseQueryParams\<close> throws (\<open>URIError\<close> from \<open>decodeURIComponent\<close>) exactly when some
  non-empty parameter has a key or a value that does not decode; an empty parameter
  (\<open>&&\<close>) is skipped before it is decoded.
\<close>

theorem parseQueryParams_uri_error:
  "(\<exists>e. parseQueryParams dec (CHR ''?'' # q) = Inl e) \<longleftrightarrow>
   (\<exists>p\<in>set (js_split CHR ''&'' q). param_fails dec p)"
  by (simp add: parseQueryParams_def add_params_Inl)

text \<open>
  C24: a \<open>__proto__\<close> parameter is never stored: the first one reads the inherited
  \<open>Object.prototype\<close>, which is not \<open>null\<close>, and assigns \<open>[Object.prototype, v]\<close> through the
  \<open>__proto__\<close> setter, so that this array becomes the prototype of the result; each later
  one appends its value to it. Without a \<open>__proto__\<close> parameter the prototype stays
  \<open>Object.prototype\<close>.
\<close>

theorem parseQueryParams_proto:
  assumes dec: "\<forall>s. dec s = Some (f s)"
  shows "\<exists>r. parseQueryParams dec (CHR ''?'' # q) = Inr r \<and> obj_get (qp_own r) ''__proto__'' = None \<and>
    qp_proto r = proto_after [v. (k', v) \<leftarrow> query_pairs f (js_split CHR ''&'' q), k' = ''__proto__'']"
  using add_params_proto [OF dec, of empty_params "[]" "js_split CHR ''&'' q"]
  by (simp add: parseQueryParams_def empty_params_def proto_after_def)

end
