(* ===== verification/MockHistory.thy ===== *)
theory MockHistory
  imports HistoryUtils
begin

text \<open>
  The test double of the browser window the history wrapper runs against:
  \<open>MockWindow\<close> (\<open>src/src/_mocks/mockWindow.ts\<close>) and its \<open>MockHistory\<close>
  (\<open>src/src/_mocks/mockHistory.ts\<close>). The mock keeps the session history as two arrays
  (\<open>_stateStack\<close>, \<open>_locationStack\<close>), an index \<open>_stackIndex\<close> and a \<open>length\<close>; \<open>back\<close>,
  \<open>forward\<close> and \<open>go\<close> move the index, copy the entry's URL into \<open>window.location\<close> and
  dispatch a \<open>popstate\<close> event synchronously. Here each of them returns the new window and the
  \<open>event.state\<close> it dispatches, and the caller (theory \<open>BrowserHistory\<close>) runs the listener.

  A value stored as history state is \<open>undefined\<close>, \<open>null\<close>, an object without the wrapper's
  fields, or a \<open>HistoryState\<close> \<open>{historyStack, historyIndex}\<close>; the keys of the stack are the
  strings \<open>_createKey\<close> draws at random, modelled as natural numbers.

  Arrays are read and written with JavaScript's index semantics: \<open>js_index\<close> is \<open>xs[i]\<close>
  (\<open>None\<close> for \<open>undefined\<close>, also at a negative index), and \<open>js_assign\<close> is \<open>xs[i] = v\<close> for
  \<open>i \<le> xs.length\<close>, the only indices the mock and the wrapper write (\<open>BrowserHistory.bh_inv\<close>).
\<close>

datatype jstate = JUndefined | JNull | JEmpty | JHist "nat list" nat

definition js_index :: "int \<Rightarrow> 'a list \<Rightarrow> 'a option" where
  "js_index i xs = (if 0 \<le> i \<and> nat i < length xs then Some (xs ! nat i) else None)"

definition js_assign :: "nat \<Rightarrow> 'a \<Rightarrow> 'a list \<Rightarrow> 'a list" where
  "js_assign i v xs = (if i < length xs then xs[i := v] else xs @ [v])"

text \<open>\<open>x || default\<close> on a state value: \<open>undefined\<close> and \<open>null\<close> are the falsy ones.\<close>

fun js_truthy_state :: "jstate \<Rightarrow> bool" where
  "js_truthy_state JUndefined = False"
| "js_truthy_state JNull = False"
| "js_truthy_state _ = True"

record mock_history =
  mh_length :: nat
  mh_state :: jstate
  mh_stateStack :: "jstate list"
  mh_locationStack :: "string list"
  mh_stackIndex :: int

record mock_window =
  mw_history :: mock_history
  mw_location :: location_context

definition new_mock_history :: mock_history where
  "new_mock_history = \<lparr>mh_length = 0, mh_state = JEmpty, mh_stateStack = [], mh_locationStack = [],
     mh_stackIndex = -1\<rparr>"

definition new_mock_window :: mock_window where
  "new_mock_window = \<lparr>mw_history = new_mock_history, mw_location = empty_location\<rparr>"

text \<open>\<open>MockHistory._updateState\<close>.\<close>

definition mh_updateState :: "mock_history \<Rightarrow> mock_history" where
  "mh_updateState h = h\<lparr>mh_state :=
     (if 0 \<le> mh_stackIndex h
      then (case js_index (mh_stackIndex h) (mh_stateStack h) of Some v \<Rightarrow> v | None \<Rightarrow> JUndefined)
      else JEmpty)\<rparr>"

text \<open>
  \<open>MockHistory._updateLocation\<close> calling \<open>MockWindow._updateLocation(cur, cur, null, null)\<close>.
\<close>

definition mw_updateLocation :: "mock_window \<Rightarrow> mock_window" where
  "mw_updateLocation w =
     (let h = mw_history w;
          cur = (case js_index (mh_stackIndex h) (mh_locationStack h) of Some u \<Rightarrow> u | None \<Rightarrow> [])
      in w\<lparr>mw_location := (mw_location w)\<lparr>lc_href := cur, lc_pathname := cur, lc_search := [],
                                            lc_hash := []\<rparr>\<rparr>)"

text \<open>\<open>_updateState(); _updateLocation()\<close> after a change of the history.\<close>

definition mw_set_history :: "mock_history \<Rightarrow> mock_window \<Rightarrow> mock_window" where
  "mw_set_history h w = mw_updateLocation (w\<lparr>mw_history := mh_updateState h\<rparr>)"

text \<open>The \<open>event.state\<close> of \<open>_notifyPop\<close>: \<open>this._stateStack[this._stackIndex]\<close>.\<close>

definition popped_state :: "mock_window \<Rightarrow> jstate" where
  "popped_state w =
     (case js_index (mh_stackIndex (mw_history w)) (mh_stateStack (mw_history w)) of
        Some v \<Rightarrow> v | None \<Rightarrow> JUndefined)"

definition mock_back :: "mock_window \<Rightarrow> (mock_window \<times> jstate) option" where
  "mock_back w =
     (let h = mw_history w in
      if mh_stackIndex h = -1 then None
      else let w' = mw_set_history (h\<lparr>mh_stackIndex := mh_stackIndex h - 1\<rparr>) w in Some (w', popped_state w'))"

definition mock_forward :: "mock_window \<Rightarrow> (mock_window \<times> jstate) option" where
  "mock_forward w =
     (let h = mw_history w in
      if mh_stackIndex h = int (mh_length h) - 1 then None
      else let w' = mw_set_history (h\<lparr>mh_stackIndex := mh_stackIndex h + 1\<rparr>) w in Some (w', popped_state w'))"

definition mock_go :: "int \<Rightarrow> mock_window \<Rightarrow> mock_window \<times> jstate" where
  "mock_go delta w =
     (let h = mw_history w;
          i = max 0 (min (mh_stackIndex h + delta) (int (mh_length h) - 1));
          w' = mw_set_history (h\<lparr>mh_stackIndex := i\<rparr>) w
      in (w', popped_state w'))"

text \<open>\<open>slice(0, _stackIndex + 1)\<close> is \<open>take\<close>; the index is never below \<open>-1\<close>.\<close>

definition mock_pushState :: "jstate \<Rightarrow> string \<Rightarrow> mock_window \<Rightarrow> mock_window" where
  "mock_pushState data url w =
     (let h = mw_history w;
          n = nat (mh_stackIndex h + 1);
          ls = take n (mh_locationStack h) @ [url]
      in mw_set_history (h\<lparr>mh_stateStack := take n (mh_stateStack h) @ [data], mh_locationStack := ls,
                           mh_stackIndex := mh_stackIndex h + 1, mh_length := length ls\<rparr>) w)"

definition mock_replaceState :: "jstate \<Rightarrow> string \<Rightarrow> mock_window \<Rightarrow> mock_window" where
  "mock_replaceState data url w =
     (let h0 = mw_history w;
          h = (if mh_stackIndex h0 = -1 then h0\<lparr>mh_stackIndex := 0, mh_length := 1\<rparr> else h0);
          i = nat (mh_stackIndex h)
      in mw_set_history (h\<lparr>mh_stateStack := js_assign i data (mh_stateStack h),
                           mh_locationStack := js_assign i url (mh_locationStack h)\<rparr>) w)"

subsection \<open>Lemmas\<close>

lemma js_index_nat [simp]: "js_index (int i) xs = (if i < length xs then Some (xs ! i) else None)"
  by (simp add: js_index_def)

lemma js_index_neg [simp]: "i < 0 \<Longrightarrow> js_index i xs = None"
  by (simp add: js_index_def)

lemma js_index_Some: "js_index i xs = Some v \<Longrightarrow> 0 \<le> i"
  by (simp add: js_index_def split: if_splits)

lemma length_js_assign [simp]: "i \<le> length xs \<Longrightarrow> length (js_assign i v xs) = max (Suc i) (length xs)"
  by (auto simp: js_assign_def)

lemma nth_js_assign: "i \<le> length xs \<Longrightarrow> j < max (Suc i) (length xs) \<Longrightarrow>
    js_assign i v xs ! j = (if j = i then v else xs ! j)"
  by (auto simp: js_assign_def nth_append)

lemma mw_set_history_history [simp]: "mw_history (mw_set_history h w) = mh_updateState h"
  by (simp add: mw_set_history_def mw_updateLocation_def Let_def)

lemma mh_updateState_simps [simp]:
  "mh_stackIndex (mh_updateState h) = mh_stackIndex h"
  "mh_length (mh_updateState h) = mh_length h"
  "mh_stateStack (mh_updateState h) = mh_stateStack h"
  "mh_locationStack (mh_updateState h) = mh_locationStack h"
  by (simp_all add: mh_updateState_def)

lemma mock_back_index:
  "mock_back w = Some (w', st) \<Longrightarrow>
     mh_stackIndex (mw_history w') = mh_stackIndex (mw_history w) - 1 \<and>
     st = popped_state w'"
  by (auto simp: mock_back_def Let_def split: if_splits)

lemma popped_state_JHist: "popped_state w = JHist stk i \<Longrightarrow> 0 \<le> mh_stackIndex (mw_history w)"
  by (auto simp: popped_state_def dest: js_index_Some split: option.splits)

lemma mw_location_set_history [simp]:
  "mw_location (mw_set_history h w) =
     (mw_location w)\<lparr>lc_href := (case js_index (mh_stackIndex h) (mh_locationStack h) of Some u \<Rightarrow> u | None \<Rightarrow> []),
        lc_pathname := (case js_index (mh_stackIndex h) (mh_locationStack h) of Some u \<Rightarrow> u | None \<Rightarrow> []),
        lc_search := [], lc_hash := []\<rparr>"
  by (simp add: mw_set_history_def mw_updateLocation_def Let_def)

end
