(* ===== verification/BrowserHistory.thy ===== *)
theory BrowserHistory
  imports MockHistory
begin

text \<open>
  The history wrapper \<open>BrowserHistory\<close> of \<open>src/src/BrowserHistory/index.ts\<close>, running
  against the \<open>MockWindow\<close> of theory \<open>MockHistory\<close>. The state \<open>bh_state\<close> is the
  wrapper's fields (filters, listeners, \<open>_historyStack\<close>, \<open>_historyIndex\<close>,
  \<open>_restoringPosition\<close>) together with the window it holds, whether
  \<open>navigator.userAgent\<close> contains \<open>CriOS\<close>, the source of fresh keys for \<open>_createKey\<close>, and
  the notifications the listeners have received so far.

  Filters are pure functions with an identity (the number they are registered under, as
  \<open>indexOf\<close> compares functions by identity); a listener is its identity, and a call of it
  is the notification \<open>(listener, location, action)\<close> appended to \<open>notifications\<close>.

  The popstate handler \<open>_handlePopState\<close> is re-entrant: \<open>history.back()\<close> (line 273) and
  \<open>history.go(delta)\<close> (line 301, from \<open>_rejectPop\<close>) dispatch a new \<open>popstate\<close> event
  before they return, and the handler resumes after the nested handler has finished.
  \<open>handlePopState\<close> is a recursive function; it terminates because the nested call from
  \<open>_rejectPop\<close> runs with \<open>_restoringPosition\<close> set (and returns at once), and the nested call
  from \<open>back()\<close> runs one history entry lower.
\<close>

datatype nav_action = Unknown | Back | Forward | Push | Replace

type_synonym navigation_filter = "location_context \<Rightarrow> nav_action \<Rightarrow> bool"

record bh_state =
  navigationFilters :: "(nat \<times> navigation_filter) list"
  navigationListeners :: "nat list"
  historyStack :: "nat list"
  historyIndex :: nat
  restoringPosition :: bool
  window :: mock_window
  crios :: bool
  next_key :: nat
  notifications :: "(nat \<times> location_context \<times> nav_action) list"

subsection \<open>Helpers\<close>

text \<open>\<open>Array.prototype.indexOf\<close> and \<open>splice(i, 1)\<close>.\<close>

fun js_indexOf :: "'a \<Rightarrow> 'a list \<Rightarrow> int" where
  "js_indexOf x [] = -1"
| "js_indexOf x (y # ys) = (if x = y then 0 else (let r = js_indexOf x ys in if r = -1 then -1 else r + 1))"

definition splice_one :: "nat \<Rightarrow> 'a list \<Rightarrow> 'a list" where
  "splice_one i xs = take i xs @ drop (Suc i) xs"

definition with_window :: "(mock_window \<Rightarrow> mock_window) \<Rightarrow> bh_state \<Rightarrow> bh_state" where
  "with_window f s = s\<lparr>window := f (window s)\<rparr>"

text \<open>\<open>getCurrentLocation(this._window)\<close> (lines 28--41): the mock's location fields.\<close>

definition getCurrentLocation :: "bh_state \<Rightarrow> location_context" where
  "getCurrentLocation s = mw_location (window s)"

definition isExtraneousPopstateEvent :: "bool \<Rightarrow> jstate \<Rightarrow> bool" where
  "isExtraneousPopstateEvent is_crios st \<longleftrightarrow> st = JUndefined \<and> \<not> is_crios"

definition getHistoryState :: "mock_window \<Rightarrow> jstate" where
  "getHistoryState w = (if js_truthy_state (mh_state (mw_history w)) then mh_state (mw_history w) else JEmpty)"

definition createKey :: "bh_state \<Rightarrow> nat \<times> bh_state" where
  "createKey s = (next_key s, s\<lparr>next_key := Suc (next_key s)\<rparr>)"

definition getState :: "bh_state \<Rightarrow> jstate" where
  "getState s = JHist (historyStack s) (historyIndex s)"

definition allowNavigation :: "bh_state \<Rightarrow> string \<Rightarrow> nav_action \<Rightarrow> bool" where
  "allowNavigation s uri action =
     (let location = parsePath uri
      in \<not> foldl (\<lambda>block (fid, f). f location action \<or> block) False (navigationFilters s))"

definition notifyListeners :: "location_context \<Rightarrow> nav_action \<Rightarrow> bh_state \<Rightarrow> bh_state" where
  "notifyListeners location action s =
     s\<lparr>notifications := notifications s @ map (\<lambda>l. (l, location, action)) (navigationListeners s)\<rparr>"

definition initHistoryState :: "bh_state \<Rightarrow> bh_state" where
  "initHistoryState s =
     (let (k1, s1) = createKey s;
          s2 = s1\<lparr>historyIndex := 0, historyStack := [k1]\<rparr>;
          s3 = with_window (mock_replaceState (getState s2) (lc_href (getCurrentLocation s2))) s2;
          (k2, s4) = createKey s3;
          s5 = s4\<lparr>historyStack := historyStack s4 @ [k2], historyIndex := 1\<rparr>
      in with_window (mock_pushState (getState s5) (lc_href (getCurrentLocation s5))) s5)"

subsection \<open>Public operations\<close>

definition replace :: "string \<Rightarrow> bh_state \<Rightarrow> bh_state" where
  "replace path s =
     (if \<not> allowNavigation s path Replace then s
      else let (key, s1) = createKey s;
               s2 = s1\<lparr>historyStack := js_assign (historyIndex s1) key (historyStack s1)\<rparr>;
               s3 = with_window (mock_replaceState (getState s2) path) s2
           in notifyListeners (getCurrentLocation s3) Replace s3)"

definition push :: "string \<Rightarrow> bh_state \<Rightarrow> bh_state" where
  "push path s =
     (if path = lc_pathname (getCurrentLocation s) then replace path s
      else if \<not> allowNavigation s path Push then s
      else let (key, s1) = createKey s;
               s2 = s1\<lparr>historyStack := take (Suc (historyIndex s1)) (historyStack s1) @ [key],
                       historyIndex := Suc (historyIndex s1)\<rparr>;
               s3 = with_window (mock_pushState (getState s2) path) s2
           in notifyListeners (getCurrentLocation s3) Push s3)"

definition listen :: "nat \<Rightarrow> bh_state \<Rightarrow> bh_state" where
  "listen callback s = s\<lparr>navigationListeners := navigationListeners s @ [callback]\<rparr>"

definition add_filter :: "nat \<Rightarrow> navigation_filter \<Rightarrow> bh_state \<Rightarrow> bh_state" where
  "add_filter fid f s = s\<lparr>navigationFilters := navigationFilters s @ [(fid, f)]\<rparr>"

definition removeNavigationFilter :: "nat \<Rightarrow> bh_state \<Rightarrow> bh_state" where
  "removeNavigationFilter fid s =
     (let index = js_indexOf fid (map fst (navigationFilters s))
      in if index \<noteq> -1 then s\<lparr>navigationFilters := splice_one (nat index) (navigationFilters s)\<rparr> else s)"

definition removeNavigationListener :: "nat \<Rightarrow> bh_state \<Rightarrow> bh_state" where
  "removeNavigationListener l s =
     (let index = js_indexOf l (navigationListeners s)
      in if index \<noteq> -1 then s\<lparr>navigationListeners := splice_one (nat index) (navigationListeners s)\<rparr> else s)"

subsection \<open>The popstate handler\<close>

text \<open>
  Lines 242--262: the action and the index of the popped entry's key in our stack, from the
  \<open>HistoryState\<close> the event carries.
\<close>

definition pop_target :: "bh_state \<Rightarrow> jstate \<Rightarrow> nav_action \<times> int" where
  "pop_target s st =
     (case st of
        JHist stk i \<Rightarrow>
          (let foundIndex = (case js_index (int i) stk of Some key \<Rightarrow> js_indexOf key (historyStack s)
                                                     | None \<Rightarrow> -1)
           in (if 0 \<le> foundIndex \<and> foundIndex < int (historyIndex s) then Back
               else if int (historyIndex s) < foundIndex then Forward else Unknown, foundIndex))
      | _ \<Rightarrow> (Unknown, -1))"

fun state_historyIndex :: "jstate \<Rightarrow> nat option" where
  "state_historyIndex (JHist stk i) = Some i"
| "state_historyIndex _ = None"

text \<open>
  \<open>_rejectPop\<close> (lines 291--306): either it finishes (\<open>Inl\<close>), or it sets
  \<open>_restoringPosition\<close> and calls \<open>history.go(delta)\<close>, which dispatches the returned event
  state (\<open>Inr\<close>).
\<close>

definition rejectPop ::
  "location_context \<Rightarrow> nav_action \<Rightarrow> int \<Rightarrow> bh_state \<Rightarrow> bh_state + bh_state \<times> jstate" where
  "rejectPop location action popIndex s =
     (if popIndex = -1 then Inl (notifyListeners location action (initHistoryState s))
      else let delta = int (historyIndex s) - popIndex
           in if delta \<noteq> 0
              then (let s1 = s\<lparr>restoringPosition := True\<rparr>;
                        (w', st) = mock_go delta (window s1)
                    in Inr (s1\<lparr>window := w'\<rparr>, st))
              else Inl s)"

text \<open>Lines 277--287: re-synchronise with the popped entry, and notify.\<close>

definition pop_finish :: "location_context \<Rightarrow> nav_action \<Rightarrow> int \<Rightarrow> bh_state \<Rightarrow> bh_state" where
  "pop_finish location navAction foundIndex s =
     notifyListeners location navAction
       (if foundIndex = -1 then initHistoryState s
        else let s1 = s\<lparr>historyIndex := nat foundIndex\<rparr>
             in with_window (mock_replaceState (getState s1) (lc_href location)) s1)"

function handlePopState :: "bh_state \<Rightarrow> jstate \<Rightarrow> bh_state" where
  "handlePopState s st =
     (if isExtraneousPopstateEvent (crios s) st then s
      else if restoringPosition s then s\<lparr>restoringPosition := False\<rparr>
      else let location = getCurrentLocation s;
               (navAction, foundIndex) = pop_target s st
           in if js_truthy_state st then
                (if \<not> allowNavigation s (lc_pathname location) navAction then
                   (case rejectPop location navAction foundIndex s of
                      Inl s' \<Rightarrow> s'
                    | Inr (s', st') \<Rightarrow> handlePopState s' st')
                 else pop_finish location navAction foundIndex
                   (if state_historyIndex st = Some 0 \<and> navAction = Back
                    then (case mock_back (window s) of
                            None \<Rightarrow> s
                          | Some (w', st') \<Rightarrow> handlePopState (s\<lparr>window := w'\<rparr>) st')
                    else s))
              else pop_finish location navAction foundIndex s)"
  by pat_completeness auto

text \<open>The measure: first whether a restore is pending, then the entry of a \<open>HistoryState\<close>.\<close>

definition pop_rank :: "bh_state \<times> jstate \<Rightarrow> nat" where
  "pop_rank p = (if restoringPosition (fst p) then 0 else 1)"

definition pop_depth :: "bh_state \<times> jstate \<Rightarrow> nat" where
  "pop_depth p = (case snd p of JHist _ _ \<Rightarrow> Suc (nat (mh_stackIndex (mw_history (window (fst p))) + 1))
                  | _ \<Rightarrow> 0)"

termination handlePopState
proof (relation "measures [pop_rank, pop_depth]", goal_cases)
  case 1
  then show ?case by simp
next
  case (2 s st location x navAction foundIndex x2 s' st')
  then show ?case by (auto simp: pop_rank_def rejectPop_def Let_def split: if_splits prod.splits)
next
  case (3 s st location x navAction foundIndex x2 w' st')
  have hb: "mock_back (window s) = Some (w', st')" using 3 by simp
  have ne: "mh_stackIndex (mw_history (window s)) \<noteq> -1"
    using hb by (auto simp: mock_back_def Let_def)
  have i: "mh_stackIndex (mw_history w') = mh_stackIndex (mw_history (window s)) - 1" "st' = popped_state w'"
    using mock_back_index [OF hb] by auto
  have d: "pop_depth (s\<lparr>window := w'\<rparr>, st') < Suc (nat (mh_stackIndex (mw_history (window s)) + 1))"
  proof (cases st')
    case (JHist stk j)
    then have "0 \<le> mh_stackIndex (mw_history w')" using i(2) popped_state_JHist by metis
    then show ?thesis using JHist i(1) ne by (simp add: pop_depth_def)
  qed (simp_all add: pop_depth_def)
  obtain stk where "st = JHist stk 0" using 3 by (cases st) auto
  then show ?case using 3 d by (simp add: pop_rank_def pop_depth_def)
qed

declare handlePopState.simps [simp del]

definition goBack :: "bh_state \<Rightarrow> bh_state" where
  "goBack s = (case mock_back (window s) of None \<Rightarrow> s | Some (w', st) \<Rightarrow> handlePopState (s\<lparr>window := w'\<rparr>) st)"

definition goForward :: "bh_state \<Rightarrow> bh_state" where
  "goForward s = (case mock_forward (window s) of None \<Rightarrow> s | Some (w', st) \<Rightarrow> handlePopState (s\<lparr>window := w'\<rparr>) st)"

definition canGoBack :: "bh_state \<Rightarrow> bool" where
  "canGoBack s \<longleftrightarrow> 1 < historyIndex s"

text \<open>
  The constructor (lines 80--104) on a window; the fields the constructor assigns only on one
  branch start as \<open>[]\<close> and \<open>0\<close>.
\<close>

definition new_BrowserHistory :: "bool \<Rightarrow> mock_window \<Rightarrow> bh_state" where
  "new_BrowserHistory is_crios w =
     (let s0 = \<lparr>navigationFilters = [], navigationListeners = [], historyStack = [], historyIndex = 0,
                restoringPosition = False, window = w, crios = is_crios, next_key = 0,
                notifications = []\<rparr>
      in case getHistoryState w of
           JHist stk i \<Rightarrow>
             (let s1 = s0\<lparr>historyStack := stk, historyIndex := i\<rparr>
              in if i = 0 then (case mock_forward (window s1) of None \<Rightarrow> s1
                                | Some (w', st) \<Rightarrow> handlePopState (s1\<lparr>window := w'\<rparr>) st)
                 else s1)
         | _ \<Rightarrow> initHistoryState s0)"

subsection \<open>Calls and reachable states\<close>

datatype bh_call = CallPush string | CallReplace string | CallGoBack | CallGoForward
  | CallListen nat | CallUnlisten nat | CallFilter nat navigation_filter | CallUnfilter nat

fun bh_step :: "bh_state \<Rightarrow> bh_call \<Rightarrow> bh_state" where
  "bh_step s (CallPush p) = push p s"
| "bh_step s (CallReplace p) = replace p s"
| "bh_step s CallGoBack = goBack s"
| "bh_step s CallGoForward = goForward s"
| "bh_step s (CallListen l) = listen l s"
| "bh_step s (CallUnlisten l) = removeNavigationListener l s"
| "bh_step s (CallFilter fid f) = add_filter fid f s"
| "bh_step s (CallUnfilter fid) = removeNavigationFilter fid s"

text \<open>
  The states of a wrapper constructed on a fresh mock window, after any calls made while the
  application is displayed (the mock's index \<open>-1\<close> stands for having gone back out of it).
\<close>

inductive reachable :: "bh_state \<Rightarrow> bool" where
  reachable_init: "reachable (new_BrowserHistory c new_mock_window)"
| reachable_step: "reachable s \<Longrightarrow> 0 \<le> mh_stackIndex (mw_history (window s)) \<Longrightarrow> reachable (bh_step s e)"

subsection \<open>The invariant\<close>

text \<open>
  Entry \<open>j\<close> of the mock history carries the \<open>HistoryState\<close> written when our index was
  \<open>j\<close>, whose key at \<open>j\<close> is still our key at \<open>j\<close>.
\<close>

definition entry_ok :: "jstate list \<Rightarrow> nat list \<Rightarrow> nat \<Rightarrow> bool" where
  "entry_ok ss stack j =
     (case ss ! j of JHist stk i \<Rightarrow> i = j \<and> j < length stk \<and> stk ! j = stack ! j | _ \<Rightarrow> False)"

text \<open>
  The invariant, with the entries at the indices \<open>E\<close> exempted (an operation that rewrites
  the current entry passes through such a state).
\<close>

definition bh_inv_except :: "nat set \<Rightarrow> bh_state \<Rightarrow> bool" where
  "bh_inv_except E s \<longleftrightarrow>
     (let h = mw_history (window s); i = mh_stackIndex h in
      -1 \<le> i \<and> i < int (mh_length h) \<and> 0 < mh_length h \<and> historyIndex s = nat i \<and>
      mh_length h \<le> length (mh_stateStack h) \<and> length (mh_locationStack h) = length (mh_stateStack h) \<and>
      mh_length h \<le> length (historyStack s) \<and>
      (\<forall>j < mh_length h. j \<notin> E \<longrightarrow> entry_ok (mh_stateStack h) (historyStack s) j) \<and>
      distinct (historyStack s) \<and> (\<forall>k \<in> set (historyStack s). k < next_key s) \<and>
      \<not> restoringPosition s)"

definition bh_inv :: "bh_state \<Rightarrow> bool" where
  "bh_inv s \<longleftrightarrow> bh_inv_except {} s"

text \<open>The window of \<open>s\<close> after \<open>back\<close>, \<open>forward\<close> or \<open>go\<close> has moved the mock's index to \<open>k\<close>.\<close>

definition moved :: "bh_state \<Rightarrow> int \<Rightarrow> mock_window" where
  "moved s k = mw_set_history ((mw_history (window s))\<lparr>mh_stackIndex := k\<rparr>) (window s)"

subsection \<open>Lemmas\<close>

lemma js_indexOf_nth: "distinct xs \<Longrightarrow> j < length xs \<Longrightarrow> js_indexOf (xs ! j) xs = int j"
proof (induction xs arbitrary: j)
  case Nil
  then show ?case by simp
next
  case (Cons y ys)
  then show ?case by (cases j) (auto simp: Let_def)
qed

lemma js_indexOf_notin: "x \<notin> set xs \<Longrightarrow> js_indexOf x xs = -1"
  by (induction xs) (auto simp: Let_def)

lemma handlePopState_extraneous: "isExtraneousPopstateEvent (crios s) st \<Longrightarrow> handlePopState s st = s"
  by (subst handlePopState.simps) simp

lemma handlePopState_restoring:
  "\<not> isExtraneousPopstateEvent (crios s) st \<Longrightarrow> restoringPosition s \<Longrightarrow>
     handlePopState s st = s\<lparr>restoringPosition := False\<rparr>"
  by (subst handlePopState.simps) simp

lemma bh_inv_except_notify [simp]: "bh_inv_except E (notifyListeners l a s) = bh_inv_except E s"
  by (simp add: bh_inv_except_def notifyListeners_def)

lemma bh_inv_notify [simp]: "bh_inv (notifyListeners l a s) = bh_inv s"
  by (simp add: bh_inv_def)

lemma bh_inv_except_mono: "bh_inv_except E s \<Longrightarrow> E \<subseteq> E' \<Longrightarrow> bh_inv_except E' s"
  by (auto simp: bh_inv_except_def Let_def)

lemma entry_ok_same:
  assumes "i < length ss" "i < length stack'"
  shows "entry_ok (js_assign i (JHist stack' i) ss) stack' i"
  using assms by (simp add: entry_ok_def js_assign_def)

lemma entry_ok_other:
  assumes "entry_ok ss stack j" "j \<noteq> i" "j < length ss" "stack' ! j = stack ! j"
  shows "entry_ok (js_assign i v ss) stack' j"
  using assms by (auto simp: entry_ok_def js_assign_def nth_append split: jstate.splits)

lemma bh_inv_new_BrowserHistory: "bh_inv (new_BrowserHistory c new_mock_window)"
  by (simp add: bh_inv_def bh_inv_except_def new_BrowserHistory_def getHistoryState_def new_mock_window_def
      new_mock_history_def initHistoryState_def createKey_def with_window_def getState_def
      mock_replaceState_def mock_pushState_def js_assign_def entry_ok_def less_Suc_eq Let_def)

text \<open>Moving the mock's index within the entries keeps everything but our index.\<close>

lemma bh_inv_except_move:
  assumes "bh_inv_except E s" "-1 \<le> i'" "i' < int (mh_length (mw_history (window s)))"
  shows "bh_inv_except E (s\<lparr>window := mw_set_history ((mw_history (window s))\<lparr>mh_stackIndex := i'\<rparr>) (window s),
                            historyIndex := nat i'\<rparr>)"
  using assms by (simp add: bh_inv_except_def Let_def)

text \<open>\<open>replaceState(this._getState(), ...)\<close> repairs the current entry.\<close>

lemma bh_inv_replaceState:
  assumes inv: "bh_inv_except {historyIndex s} s"
  shows "bh_inv (with_window (mock_replaceState (getState s) u) s)"
proof -
  define h where "h = mw_history (window s)"
  have f: "-1 \<le> mh_stackIndex h" "mh_stackIndex h < int (mh_length h)" "0 < mh_length h"
    "historyIndex s = nat (mh_stackIndex h)" "mh_length h \<le> length (mh_stateStack h)"
    "length (mh_locationStack h) = length (mh_stateStack h)" "mh_length h \<le> length (historyStack s)"
    "\<And>j. j < mh_length h \<Longrightarrow> j \<noteq> historyIndex s \<Longrightarrow> entry_ok (mh_stateStack h) (historyStack s) j"
    using inv by (simp_all add: bh_inv_except_def Let_def h_def)
  show ?thesis
  proof (cases "mh_stackIndex h = -1")
    case True
    then have "historyIndex s = 0" using f(4) by simp
    moreover have "0 < length (mh_stateStack h)" "0 < length (historyStack s)" using f(3,5,7) by linarith+
    ultimately show ?thesis
      using True f inv entry_ok_same [of 0 "mh_stateStack h" "historyStack s"]
      by (simp add: bh_inv_def bh_inv_except_def with_window_def mock_replaceState_def getState_def
          Let_def h_def [symmetric])
  next
    case False
    then have i: "int (historyIndex s) = mh_stackIndex h" using f(1,4) by simp
    have lt: "historyIndex s < length (mh_stateStack h)" "historyIndex s < length (historyStack s)"
      using f(2,5,7) i by linarith+
    have "entry_ok (js_assign (historyIndex s) (getState s) (mh_stateStack h)) (historyStack s) j"
      if "j < mh_length h" for j
    proof (cases "j = historyIndex s")
      case True
      then show ?thesis using lt entry_ok_same by (simp add: getState_def)
    next
      case False
      then show ?thesis using that f(5,8) entry_ok_other by fastforce
    qed
    moreover have "mw_history (window (with_window (mock_replaceState (getState s) u) s)) =
        mh_updateState (h\<lparr>mh_stateStack := js_assign (historyIndex s) (getState s) (mh_stateStack h),
          mh_locationStack := js_assign (historyIndex s) u (mh_locationStack h)\<rparr>)"
      using False by (simp add: with_window_def mock_replaceState_def Let_def h_def f(4))
    moreover have "distinct (historyStack s)" "\<forall>k \<in> set (historyStack s). k < next_key s"
      "\<not> restoringPosition s"
      using inv by (simp_all add: bh_inv_except_def Let_def)
    ultimately show ?thesis
      using f(1-7) lt by (simp add: bh_inv_def bh_inv_except_def with_window_def Let_def)
  qed
qed

lemma entry_ok_cong:
  "ss' ! j = ss ! j \<Longrightarrow> stack' ! j = stack ! j \<Longrightarrow> entry_ok ss' stack' j = entry_ok ss stack j"
  by (simp add: entry_ok_def split: jstate.splits)

lemma bh_inv_facts:
  assumes "bh_inv_except E s" "0 \<le> mh_stackIndex (mw_history (window s))"
  shows "int (historyIndex s) = mh_stackIndex (mw_history (window s))"
    "historyIndex s < mh_length (mw_history (window s))"
    "historyIndex s < length (mh_stateStack (mw_history (window s)))"
    "historyIndex s < length (historyStack s)"
  using assms by (auto simp: bh_inv_except_def Let_def)

text \<open>A fresh key written at our index: everything holds but the entry there.\<close>

lemma bh_inv_fresh_key:
  assumes inv: "bh_inv s" and i0: "0 \<le> mh_stackIndex (mw_history (window s))"
  shows "bh_inv_except {historyIndex s}
           (s\<lparr>next_key := Suc (next_key s),
              historyStack := js_assign (historyIndex s) (next_key s) (historyStack s)\<rparr>)"
proof -
  have e: "bh_inv_except {} s" using inv by (simp add: bh_inv_def)
  note b = bh_inv_facts [OF e i0]
  have k: "next_key s \<notin> set (historyStack s)" "\<forall>k \<in> set (historyStack s). k < next_key s"
    using e by (auto simp: bh_inv_except_def Let_def)
  have d: "distinct ((historyStack s)[historyIndex s := next_key s])"
    using e k(1) by (intro distinct_list_update) (auto simp: bh_inv_except_def Let_def)
  have sub: "set ((historyStack s)[historyIndex s := next_key s]) \<subseteq> insert (next_key s) (set (historyStack s))"
    by (rule set_update_subset_insert)
  have "\<forall>x \<in> insert (next_key s) (set (historyStack s)). x < Suc (next_key s)" using k(2) by auto
  then have "\<forall>x \<in> set ((historyStack s)[historyIndex s := next_key s]). x < Suc (next_key s)"
    using sub by blast
  moreover have "entry_ok ss ((historyStack s)[historyIndex s := next_key s]) j = entry_ok ss (historyStack s) j"
    if "j \<noteq> historyIndex s" for ss j
    using that by (metis entry_ok_cong nth_list_update_neq)
  ultimately show ?thesis using e b(4) d
    by (simp add: bh_inv_except_def Let_def js_assign_def)
qed

lemma bh_inv_replace:
  assumes inv: "bh_inv s" and i0: "0 \<le> mh_stackIndex (mw_history (window s))"
  shows "bh_inv (replace path s)"
proof (cases "allowNavigation s path Replace")
  case False
  then show ?thesis using inv by (simp add: replace_def)
next
  case True
  let ?s2 = "s\<lparr>next_key := Suc (next_key s),
               historyStack := js_assign (historyIndex s) (next_key s) (historyStack s)\<rparr>"
  have "bh_inv (with_window (mock_replaceState (getState ?s2) path) ?s2)"
    using bh_inv_replaceState bh_inv_fresh_key [OF inv i0] by simp
  then show ?thesis using True by (simp add: replace_def createKey_def Let_def)
qed

lemma bh_inv_pushState:
  assumes inv: "bh_inv s" and i0: "0 \<le> mh_stackIndex (mw_history (window s))"
    and s2: "s2 = s\<lparr>next_key := Suc (next_key s),
                    historyStack := take (Suc (historyIndex s)) (historyStack s) @ [next_key s],
                    historyIndex := Suc (historyIndex s)\<rparr>"
  shows "bh_inv (with_window (mock_pushState (getState s2) path) s2)"
proof -
  define hi where "hi = historyIndex s"
  define h where "h = mw_history (window s)"
  define stack' where "stack' = take (Suc hi) (historyStack s) @ [next_key s]"
  have e: "bh_inv_except {} s" using inv by (simp add: bh_inv_def)
  note b = bh_inv_facts [OF e i0, folded hi_def h_def]
  have f: "length (mh_locationStack h) = length (mh_stateStack h)" "distinct (historyStack s)"
    "\<forall>k \<in> set (historyStack s). k < next_key s"
    "\<And>j. j < mh_length h \<Longrightarrow> entry_ok (mh_stateStack h) (historyStack s) j"
    using e by (simp_all add: bh_inv_except_def Let_def h_def)
  have n: "nat (mh_stackIndex h + 1) = Suc hi" using b(1) by simp
  have hist: "mw_history (window (with_window (mock_pushState (getState s2) path) s2)) =
      mh_updateState (h\<lparr>mh_stateStack := take (Suc hi) (mh_stateStack h) @ [JHist stack' (Suc hi)],
        mh_locationStack := take (Suc hi) (mh_locationStack h) @ [path],
        mh_stackIndex := mh_stackIndex h + 1, mh_length := Suc (Suc hi)\<rparr>)"
  proof -
    have "min (length (mh_locationStack h)) (Suc hi) = Suc hi" using b(3) f(1) by simp
    then show ?thesis by (simp add: s2 with_window_def mock_pushState_def Let_def getState_def n
        h_def [symmetric] hi_def [symmetric] stack'_def)
  qed
  have len: "length stack' = Suc (Suc hi)" using b(4) by (simp add: stack'_def)
  have ent: "entry_ok (take (Suc hi) (mh_stateStack h) @ [JHist stack' (Suc hi)]) stack' j"
    if "j < Suc (Suc hi)" for j
  proof (cases "j = Suc hi")
    case True
    then show ?thesis using b(3) len by (simp add: entry_ok_def nth_append)
  next
    case False
    then have "j < Suc hi" using that by simp
    moreover have "entry_ok (mh_stateStack h) (historyStack s) j" using f(4) b(2) calculation by simp
    ultimately show ?thesis using b(3,4)
      by (subst entry_ok_cong [where ss = "mh_stateStack h" and stack = "historyStack s"])
        (simp_all add: nth_append stack'_def)
  qed
  have k: "next_key s \<notin> set (take (Suc hi) (historyStack s))"
    using f(3) by (auto dest!: in_set_takeD)
  have d: "distinct stack'" using f(2) k by (simp add: stack'_def)
  have ks: "\<forall>x \<in> set stack'. x < Suc (next_key s)"
    using f(3) by (auto simp: stack'_def dest!: in_set_takeD)
  let ?t = "with_window (mock_pushState (getState s2) path) s2"
  have t: "historyStack ?t = stack'" "historyIndex ?t = Suc hi" "next_key ?t = Suc (next_key s)"
    "restoringPosition ?t = restoringPosition s"
    by (simp_all add: s2 with_window_def stack'_def hi_def)
  have r: "\<not> restoringPosition s" using e by (simp add: bh_inv_except_def Let_def)
  show ?thesis
    unfolding bh_inv_def bh_inv_except_def Let_def hist t
    using b(1,3) f(1) len ent d ks r by simp
qed

lemma bh_inv_push:
  assumes inv: "bh_inv s" and i0: "0 \<le> mh_stackIndex (mw_history (window s))"
  shows "bh_inv (push path s)"
proof -
  let ?s2 = "s\<lparr>next_key := Suc (next_key s),
               historyStack := take (Suc (historyIndex s)) (historyStack s) @ [next_key s],
               historyIndex := Suc (historyIndex s)\<rparr>"
  have "bh_inv (with_window (mock_pushState (getState ?s2) path) ?s2)"
    by (rule bh_inv_pushState [OF inv i0 refl])
  then show ?thesis using inv bh_inv_replace [OF inv i0]
    by (simp add: push_def createKey_def Let_def)
qed

subsection \<open>The popstate handler on the wrapper's own entries\<close>

lemma handlePopState_JHist:
  assumes "\<not> restoringPosition s" "pop_target s (JHist stk j) = (a, f)"
  shows "handlePopState s (JHist stk j) =
    (if \<not> allowNavigation s (lc_pathname (getCurrentLocation s)) a then
       (case rejectPop (getCurrentLocation s) a f s of Inl s' \<Rightarrow> s' | Inr (s', st') \<Rightarrow> handlePopState s' st')
     else pop_finish (getCurrentLocation s) a f
       (if j = 0 \<and> a = Back
        then (case mock_back (window s) of None \<Rightarrow> s
              | Some (w', st') \<Rightarrow> handlePopState (s\<lparr>window := w'\<rparr>) st')
        else s))"
  by (subst handlePopState.simps) (simp add: assms isExtraneousPopstateEvent_def)

lemma entry_ok_JHist: "entry_ok ss stack j \<Longrightarrow> \<exists>stk. ss ! j = JHist stk j \<and> j < length stk \<and> stk ! j = stack ! j"
  by (auto simp: entry_ok_def split: jstate.splits)

lemma pop_target_entry:
  assumes "j < length stk" "stk ! j = historyStack s ! j" "distinct (historyStack s)"
    "j < length (historyStack s)"
  shows "pop_target s (JHist stk j) =
    (if j < historyIndex s then Back else if historyIndex s < j then Forward else Unknown, int j)"
  using assms by (simp add: pop_target_def js_indexOf_nth)

lemma allowNavigation_iff:
  "allowNavigation s uri a \<longleftrightarrow> (\<forall>(fid, f) \<in> set (navigationFilters s). \<not> f (parsePath uri) a)"
proof -
  have "foldl (\<lambda>block (fid, f). f l a \<or> block) b fs \<longleftrightarrow> b \<or> (\<exists>(fid, f) \<in> set fs. f l a)" for l b fs
    by (induction fs arbitrary: b) auto
  from this [of "parsePath uri" False "navigationFilters s"] show ?thesis
    by (simp add: allowNavigation_def Let_def split_def)
qed

text \<open>A window whose index was moved by \<open>back\<close>, \<open>forward\<close> or \<open>go\<close>.\<close>

lemma mock_back_moved:
  "mh_stackIndex (mw_history w) \<noteq> -1 \<Longrightarrow>
   mock_back w = Some (mw_set_history ((mw_history w)\<lparr>mh_stackIndex := mh_stackIndex (mw_history w) - 1\<rparr>) w,
     popped_state (mw_set_history ((mw_history w)\<lparr>mh_stackIndex := mh_stackIndex (mw_history w) - 1\<rparr>) w))"
  by (simp add: mock_back_def Let_def)

lemma mock_forward_moved:
  "mh_stackIndex (mw_history w) \<noteq> int (mh_length (mw_history w)) - 1 \<Longrightarrow>
   mock_forward w = Some (mw_set_history ((mw_history w)\<lparr>mh_stackIndex := mh_stackIndex (mw_history w) + 1\<rparr>) w,
     popped_state (mw_set_history ((mw_history w)\<lparr>mh_stackIndex := mh_stackIndex (mw_history w) + 1\<rparr>) w))"
  by (simp add: mock_forward_def Let_def)

lemma popped_state_moved [simp]:
  "popped_state (mw_set_history (h\<lparr>mh_stackIndex := i\<rparr>) w) =
     (case js_index i (mh_stateStack h) of Some v \<Rightarrow> v | None \<Rightarrow> JUndefined)"
  by (simp add: popped_state_def)

lemma mw_set_history_twice [simp]:
  "mw_set_history ((mh_updateState h)\<lparr>mh_stackIndex := i\<rparr>) (mw_set_history h w) =
   mw_set_history (h\<lparr>mh_stackIndex := i\<rparr>) w"
  by (simp add: mw_set_history_def mw_updateLocation_def mh_updateState_def Let_def)

text \<open>Lines 277--287 on a found entry the mock is at: the invariant is restored.\<close>

lemma bh_inv_pop_finish:
  assumes "bh_inv_except {} (t\<lparr>historyIndex := nat f\<rparr>)" "0 \<le> f"
  shows "bh_inv (pop_finish loc a f t)"
proof -
  have "bh_inv (with_window (mock_replaceState (getState (t\<lparr>historyIndex := nat f\<rparr>)) (lc_href loc))
                 (t\<lparr>historyIndex := nat f\<rparr>))"
    by (rule bh_inv_replaceState) (rule bh_inv_except_mono [OF assms(1)], simp)
  then show ?thesis using assms(2) by (simp add: pop_finish_def Let_def)
qed

text \<open>A rejected pop to a found entry: \<open>go(delta)\<close> returns to our entry, whose event only clears the flag.\<close>

lemma rejectPop_Inr: "rejectPop location action i s = Inr p \<Longrightarrow> restoringPosition (fst p)"
  by (auto simp: rejectPop_def Let_def split: if_splits prod.splits)

lemma handle_rejected:
  assumes "rejectPop loc a f s = Inr (s1, st1)" "st1 \<noteq> JUndefined"
  shows "(case rejectPop loc a f s of Inl s' \<Rightarrow> s' | Inr (s', st') \<Rightarrow> handlePopState s' st') =
           s1\<lparr>restoringPosition := False\<rparr>"
  using assms rejectPop_Inr [OF assms(1)] handlePopState_restoring [of s1 st1]
  by (simp add: handlePopState_restoring isExtraneousPopstateEvent_def)

lemma allowNavigation_window [simp]: "allowNavigation (s\<lparr>window := w\<rparr>) = allowNavigation s"
  by (simp add: allowNavigation_def fun_eq_iff)

text \<open>
  \<open>mv s k\<close>: the window of \<open>s\<close> with the mock's index moved to \<open>k\<close> (as \<open>back\<close>, \<open>forward\<close> and
  \<open>go\<close> leave it).
\<close>

lemma pop_entry:
  assumes inv: "bh_inv s" and i0: "0 \<le> mh_stackIndex (mw_history (window s))"
    and j: "j < mh_length (mw_history (window s))" "j \<noteq> historyIndex s"
    and mv: "\<And>k. mv k = mw_set_history ((mw_history (window s))\<lparr>mh_stackIndex := k\<rparr>) (window s)"
  shows "handlePopState (s\<lparr>window := mv (int j)\<rparr>) (popped_state (mv (int j))) =
    (let a = (if j < historyIndex s then Back else Forward); loc = mw_location (mv (int j)) in
     if \<not> allowNavigation s (lc_pathname loc) a then s\<lparr>window := mv (int (historyIndex s))\<rparr>
     else pop_finish loc a (int j)
       (if j = 0 \<and> a = Back
        then (case mock_back (mv (int j)) of None \<Rightarrow> s\<lparr>window := mv (int j)\<rparr>
              | Some (w', st') \<Rightarrow> handlePopState (s\<lparr>window := w'\<rparr>) st')
        else s\<lparr>window := mv (int j)\<rparr>))"
proof -
  define h where "h = mw_history (window s)"
  define n where "n = historyIndex s"
  have e: "bh_inv_except {} s" using inv by (simp add: bh_inv_def)
  note b = bh_inv_facts [OF e i0, folded h_def n_def]
  have f: "mh_length h \<le> length (mh_stateStack h)" "distinct (historyStack s)"
    "mh_length h \<le> length (historyStack s)" "\<not> restoringPosition s"
    "\<And>j. j < mh_length h \<Longrightarrow> entry_ok (mh_stateStack h) (historyStack s) j"
    using e by (simp_all add: bh_inv_except_def Let_def h_def)
  obtain stk where stk: "mh_stateStack h ! j = JHist stk j" "j < length stk" "stk ! j = historyStack s ! j"
    using entry_ok_JHist [OF f(5) [OF j(1) [folded h_def]]] by blast
  have jl: "j < length (mh_stateStack h)" "j < length (historyStack s)" using j(1) f(1,3) h_def by simp_all
  have pop: "popped_state (mv (int j)) = JHist stk j" using jl stk(1) by (simp add: mv h_def)
  let ?a = "if j < n then Back else Forward"
  have pt: "pop_target (s\<lparr>window := mv (int j)\<rparr>) (JHist stk j) = (?a, int j)"
    using pop_target_entry [of j stk "s\<lparr>window := mv (int j)\<rparr>"] stk(2,3) f(2) jl(2) j(2)
    by (simp add: n_def)
  have loc: "getCurrentLocation (s\<lparr>window := mv (int j)\<rparr>) = mw_location (mv (int j))"
    by (simp add: getCurrentLocation_def)
  have go: "mock_go (int n - int j) (mv (int j)) = (mv (int n), popped_state (mv (int n)))"
  proof -
    have "max 0 (min (int j + (int n - int j)) (int (mh_length h) - 1)) = int n" using b(2) h_def n_def by simp
    then show ?thesis by (simp add: mock_go_def mv h_def [symmetric])
  qed
  have pn: "popped_state (mv (int n)) \<noteq> JUndefined"
  proof -
    obtain stk' where "mh_stateStack h ! n = JHist stk' n"
      using entry_ok_JHist [OF f(5) [OF b(2) [folded h_def n_def]]] by (auto simp: n_def)
    then show ?thesis using b(3) by (simp add: mv h_def n_def)
  qed
  have rej: "rejectPop (mw_location (mv (int j))) ?a (int j) (s\<lparr>window := mv (int j)\<rparr>) =
      Inr (s\<lparr>window := mv (int j), restoringPosition := True, window := mv (int n)\<rparr>, popped_state (mv (int n)))"
    using go j(2) by (simp add: rejectPop_def Let_def n_def)
  show ?thesis
    unfolding pop
    using f(4) handlePopState_JHist [OF _ pt] loc handle_rejected [OF rej pn] rej
    by (simp add: Let_def n_def split: option.splits)
qed

lemma goBack_first:
  assumes "bh_inv s" "0 \<le> mh_stackIndex (mw_history (window s))" "\<not> crios s" "historyIndex s = 0"
  shows "goBack s = s\<lparr>window := moved s (-1)\<rparr>"
proof -
  have "mh_stackIndex (mw_history (window s)) = 0"
    using bh_inv_facts(1) [of "{}" s] assms by (simp add: bh_inv_def)
  then show ?thesis using assms(3)
    by (simp add: goBack_def mock_back_moved moved_def handlePopState_extraneous isExtraneousPopstateEvent_def)
qed

lemma goBack_entry:
  assumes inv: "bh_inv s" and i0: "0 \<le> mh_stackIndex (mw_history (window s))" and nc: "\<not> crios s"
    and n: "0 < historyIndex s"
  shows "goBack s =
    (let loc = mw_location (moved s (int (historyIndex s) - 1)) in
     if \<not> allowNavigation s (lc_pathname loc) Back then s\<lparr>window := moved s (int (historyIndex s))\<rparr>
     else pop_finish loc Back (int (historyIndex s) - 1)
       (if historyIndex s = 1 then s\<lparr>window := moved s (-1)\<rparr>
        else s\<lparr>window := moved s (int (historyIndex s) - 1)\<rparr>))"
proof -
  note b = bh_inv_facts [OF inv [unfolded bh_inv_def] i0]
  define j where "j = historyIndex s - 1"
  have jj: "int j = int (historyIndex s) - 1" "j < mh_length (mw_history (window s))" "j \<noteq> historyIndex s"
    "j < historyIndex s"
    using n b(2) by (simp_all add: j_def of_nat_diff)
  have gb: "goBack s = handlePopState (s\<lparr>window := moved s (int j)\<rparr>) (popped_state (moved s (int j)))"
    using b(1) jj(1) by (simp add: goBack_def mock_back_moved moved_def)
  have first: "mock_back (moved s 0) = Some (moved s (-1), JUndefined)"
    by (simp add: mock_back_moved moved_def)
  show ?thesis
    unfolding gb pop_entry [OF inv i0 jj(2,3) moved_def]
    using jj(1,4) nc first
    by (simp add: Let_def j_def handlePopState_extraneous isExtraneousPopstateEvent_def)
qed

lemma goForward_last:
  "mh_stackIndex (mw_history (window s)) = int (mh_length (mw_history (window s))) - 1 \<Longrightarrow> goForward s = s"
  by (simp add: goForward_def mock_forward_def)

lemma goForward_entry:
  assumes inv: "bh_inv s" and i0: "0 \<le> mh_stackIndex (mw_history (window s))"
    and n: "Suc (historyIndex s) < mh_length (mw_history (window s))"
  shows "goForward s =
    (let loc = mw_location (moved s (int (historyIndex s) + 1)) in
     if \<not> allowNavigation s (lc_pathname loc) Forward then s\<lparr>window := moved s (int (historyIndex s))\<rparr>
     else pop_finish loc Forward (int (historyIndex s) + 1) (s\<lparr>window := moved s (int (historyIndex s) + 1)\<rparr>))"
proof -
  note b = bh_inv_facts [OF inv [unfolded bh_inv_def] i0]
  have ne: "mh_stackIndex (mw_history (window s)) \<noteq> int (mh_length (mw_history (window s))) - 1"
    using b(1) n by simp
  have gf: "goForward s = handlePopState (s\<lparr>window := moved s (int (Suc (historyIndex s)))\<rparr>)
                             (popped_state (moved s (int (Suc (historyIndex s)))))"
    using ne by (simp add: goForward_def mock_forward_moved moved_def b(1) [symmetric] add.commute)
  show ?thesis
    unfolding gf pop_entry [OF inv i0 n Suc_n_not_n moved_def] by (simp add: Let_def add.commute)
qed

lemma bh_inv_moved:
  assumes "bh_inv s" "-1 \<le> k" "k < int (mh_length (mw_history (window s)))"
  shows "bh_inv_except {} (s\<lparr>window := moved s k, historyIndex := nat k\<rparr>)"
  using bh_inv_except_move [of "{}" s k] assms by (simp add: bh_inv_def moved_def)

lemma bh_inv_goBack:
  assumes inv: "bh_inv s" and i0: "0 \<le> mh_stackIndex (mw_history (window s))" and nc: "\<not> crios s"
  shows "bh_inv (goBack s)"
proof -
  note b = bh_inv_facts [OF inv [unfolded bh_inv_def] i0]
  have m: "bh_inv_except {} (s\<lparr>window := moved s k, historyIndex := nat k\<rparr>)"
    if "-1 \<le> k" "k \<le> int (historyIndex s)" for k
    using bh_inv_moved [OF inv] that b(2) by simp
  show ?thesis
  proof (cases "historyIndex s = 0")
    case True
    have eq: "s\<lparr>window := moved s (-1)\<rparr> = s\<lparr>window := moved s (-1), historyIndex := nat (-1)\<rparr>"
      using True by (cases s) simp
    show ?thesis
      by (subst goBack_first [OF inv i0 nc True], subst eq, unfold bh_inv_def, rule m) simp_all
  next
    case False
    then have n: "0 < historyIndex s" by simp
    have blocked: "bh_inv (s\<lparr>window := moved s (int (historyIndex s))\<rparr>)"
      using m [of "int (historyIndex s)"] by (simp add: bh_inv_def)
    have allowed: "bh_inv (pop_finish loc Back (int (historyIndex s) - 1)
        (if historyIndex s = 1 then s\<lparr>window := moved s (-1)\<rparr>
         else s\<lparr>window := moved s (int (historyIndex s) - 1)\<rparr>))" for loc
    proof (rule bh_inv_pop_finish)
      show "bh_inv_except {} ((if historyIndex s = 1 then s\<lparr>window := moved s (-1)\<rparr>
              else s\<lparr>window := moved s (int (historyIndex s) - 1)\<rparr>)
            \<lparr>historyIndex := nat (int (historyIndex s) - 1)\<rparr>)"
        using m [of "-1"] m [of "int (historyIndex s) - 1"] n by auto
    qed (use n in simp)
    show ?thesis using blocked allowed goBack_entry [OF inv i0 nc n] by (simp add: Let_def)
  qed
qed

lemma bh_inv_goForward:
  assumes inv: "bh_inv s" and i0: "0 \<le> mh_stackIndex (mw_history (window s))"
  shows "bh_inv (goForward s)"
proof (cases "Suc (historyIndex s) < mh_length (mw_history (window s))")
  case False
  note b = bh_inv_facts [OF inv [unfolded bh_inv_def] i0]
  then have "mh_stackIndex (mw_history (window s)) = int (mh_length (mw_history (window s))) - 1"
    using False by simp
  then show ?thesis using inv goForward_last by simp
next
  case True
  have m: "bh_inv_except {} (s\<lparr>window := moved s k, historyIndex := nat k\<rparr>)"
    if "0 \<le> k" "k \<le> int (historyIndex s) + 1" for k
    using bh_inv_moved [OF inv] that True by simp
  have blocked: "bh_inv (s\<lparr>window := moved s (int (historyIndex s))\<rparr>)"
    using m [of "int (historyIndex s)"] by (simp add: bh_inv_def)
  have allowed: "bh_inv (pop_finish loc Forward (int (historyIndex s) + 1)
      (s\<lparr>window := moved s (int (historyIndex s) + 1)\<rparr>))" for loc
    using m [of "int (historyIndex s) + 1"] by (intro bh_inv_pop_finish) simp_all
  show ?thesis using blocked allowed goForward_entry [OF inv i0 True] by (simp add: Let_def)
qed

lemma pop_finish_frame [simp]:
  "crios (pop_finish l a f t) = crios t"
  "navigationFilters (pop_finish l a f t) = navigationFilters t"
  "navigationListeners (pop_finish l a f t) = navigationListeners t"
  by (simp_all add: pop_finish_def notifyListeners_def initHistoryState_def createKey_def with_window_def
      Let_def split: prod.splits)

lemma rejectPop_frame:
  "rejectPop l a f t = Inl t' \<Longrightarrow>
     crios t' = crios t \<and> navigationFilters t' = navigationFilters t \<and> navigationListeners t' = navigationListeners t"
  "rejectPop l a f t = Inr (t', st') \<Longrightarrow>
     crios t' = crios t \<and> navigationFilters t' = navigationFilters t \<and> navigationListeners t' = navigationListeners t"
  by (auto simp: rejectPop_def notifyListeners_def initHistoryState_def createKey_def with_window_def
      Let_def split: prod.splits if_splits)

lemma handlePopState_frame:
  "crios (handlePopState s st) = crios s \<and>
   navigationFilters (handlePopState s st) = navigationFilters s \<and>
   navigationListeners (handlePopState s st) = navigationListeners s"
proof (induction s st rule: handlePopState.induct)
  case (1 s st)
  obtain a f where pt: "pop_target s st = (a, f)" by (cases "pop_target s st")
  let ?l = "getCurrentLocation s"
  have rej: "crios (case rejectPop ?l a f s of Inl s' \<Rightarrow> s' | Inr (s', st') \<Rightarrow> handlePopState s' st') = crios s \<and>
      navigationFilters (case rejectPop ?l a f s of Inl s' \<Rightarrow> s' | Inr (s', st') \<Rightarrow> handlePopState s' st') =
        navigationFilters s \<and>
      navigationListeners (case rejectPop ?l a f s of Inl s' \<Rightarrow> s' | Inr (s', st') \<Rightarrow> handlePopState s' st') =
        navigationListeners s"
    if "\<not> isExtraneousPopstateEvent (crios s) st" "\<not> restoringPosition s" "js_truthy_state st"
       "\<not> allowNavigation s (lc_pathname ?l) a"
  proof (cases "rejectPop ?l a f s")
    case (Inl t)
    then show ?thesis using rejectPop_frame(1) [OF Inl] by simp
  next
    case (Inr p)
    obtain t st' where p: "p = (t, st')" by (cases p)
    have "crios (handlePopState t st') = crios t \<and> navigationFilters (handlePopState t st') = navigationFilters t \<and>
        navigationListeners (handlePopState t st') = navigationListeners t"
      using 1(1) [OF that(1,2) refl pt [symmetric] refl that(3,4) Inr [unfolded p] refl] by simp
    then show ?thesis using rejectPop_frame(2) [OF Inr [unfolded p]] Inr p by simp
  qed
  have bk: "crios t = crios s \<and> navigationFilters t = navigationFilters s \<and>
      navigationListeners t = navigationListeners s"
    if "\<not> isExtraneousPopstateEvent (crios s) st" "\<not> restoringPosition s" "js_truthy_state st"
       "allowNavigation s (lc_pathname ?l) a"
       "t = (if state_historyIndex st = Some 0 \<and> a = Back
             then (case mock_back (window s) of None \<Rightarrow> s | Some (w', st') \<Rightarrow> handlePopState (s\<lparr>window := w'\<rparr>) st')
             else s)" for t
  proof (cases "state_historyIndex st = Some 0 \<and> a = Back")
    case True
    show ?thesis
    proof (cases "mock_back (window s)")
      case (Some p)
      obtain w' st' where p: "p = (w', st')" by (cases p)
      show ?thesis
        using 1(2) [OF that(1,2) refl pt [symmetric] refl that(3) _ True Some [unfolded p] refl] that(4,5)
          True Some p by simp
    qed (use that True in simp)
  qed (use that in auto)
  show ?case
  proof (cases "isExtraneousPopstateEvent (crios s) st")
    case True
    then show ?thesis by (simp add: handlePopState_extraneous)
  next
    case ne: False
    show ?thesis
    proof (cases "restoringPosition s")
      case True
      then show ?thesis using ne by (simp add: handlePopState_restoring)
    next
      case nr: False
      let ?b = "if state_historyIndex st = Some 0 \<and> a = Back
             then (case mock_back (window s) of None \<Rightarrow> s | Some (w', st') \<Rightarrow> handlePopState (s\<lparr>window := w'\<rparr>) st')
             else s"
      have u: "handlePopState s st =
          (if js_truthy_state st then
             (if \<not> allowNavigation s (lc_pathname ?l) a then
                (case rejectPop ?l a f s of Inl s' \<Rightarrow> s' | Inr (s', st') \<Rightarrow> handlePopState s' st')
              else pop_finish ?l a f ?b)
           else pop_finish ?l a f s)"
        by (subst handlePopState.simps) (simp add: ne nr pt Let_def)
      show ?thesis
      proof (cases "js_truthy_state st")
        case tr: True
        show ?thesis
        proof (cases "allowNavigation s (lc_pathname ?l) a")
          case False
          then show ?thesis using u tr rej [OF ne nr tr False] by simp
        next
          case True
          then show ?thesis using u tr bk [OF ne nr tr True refl] by simp
        qed
      qed (use u in simp)
    qed
  qed
qed

lemma bh_step_frame: "crios (bh_step s e) = crios s"
  using handlePopState_frame
  by (cases e) (auto simp: push_def replace_def listen_def add_filter_def removeNavigationFilter_def
      removeNavigationListener_def goBack_def goForward_def createKey_def with_window_def notifyListeners_def
      Let_def split: option.splits prod.splits)

lemma bh_inv_step:
  assumes "bh_inv s" "0 \<le> mh_stackIndex (mw_history (window s))" "\<not> crios s"
  shows "bh_inv (bh_step s e)"
proof (cases e)
  case (CallPush p)
  then show ?thesis using bh_inv_push [OF assms(1,2)] by simp
next
  case (CallReplace p)
  then show ?thesis using bh_inv_replace [OF assms(1,2)] by simp
next
  case CallGoBack
  then show ?thesis using bh_inv_goBack [OF assms] by simp
next
  case CallGoForward
  then show ?thesis using bh_inv_goForward [OF assms(1,2)] by simp
qed (use assms(1) in \<open>auto simp: bh_inv_def bh_inv_except_def listen_def add_filter_def
      removeNavigationFilter_def removeNavigationListener_def Let_def\<close>)

lemma bh_inv_reachable:
  "reachable s \<Longrightarrow> \<not> crios s \<Longrightarrow> bh_inv s"
proof (induction rule: reachable.induct)
  case (reachable_init c)
  show ?case by (rule bh_inv_new_BrowserHistory)
next
  case (reachable_step s e)
  then show ?case using bh_inv_step bh_step_frame by metis
qed

lemma reachable_foldl:
  "reachable s \<Longrightarrow> (\<forall>i < length es. 0 \<le> mh_stackIndex (mw_history (window (foldl bh_step s (take i es))))) \<Longrightarrow>
   reachable (foldl bh_step s es)"
proof (induction es arbitrary: s)
  case Nil
  then show ?case by simp
next
  case (Cons e es)
  have i0: "0 \<le> mh_stackIndex (mw_history (window s))" using Cons.prems(2) [rule_format, of 0] by simp
  have "reachable (bh_step s e)" by (rule reachable_step [OF Cons.prems(1) i0])
  moreover have "\<forall>i < length es. 0 \<le> mh_stackIndex (mw_history (window (foldl bh_step (bh_step s e) (take i es))))"
  proof (intro allI impI)
    fix i assume "i < length es"
    then show "0 \<le> mh_stackIndex (mw_history (window (foldl bh_step (bh_step s e) (take i es))))"
      using Cons.prems(2) [rule_format, of "Suc i"] by simp
  qed
  ultimately show ?case using Cons.IH by simp
qed

lemma reachable_inv:
  assumes "reachable s" "\<not> crios s"
  shows "bh_inv_except {} s" "distinct (historyStack s)" "\<forall>k \<in> set (historyStack s). k < next_key s"
    "\<not> restoringPosition s"
  using bh_inv_reachable [OF assms] by (simp_all add: bh_inv_def bh_inv_except_def Let_def)

lemma push_allowed:
  assumes "path \<noteq> lc_pathname (getCurrentLocation s)" "allowNavigation s path Push"
  shows "push path s =
    (let s2 = s\<lparr>next_key := Suc (next_key s),
                historyStack := take (Suc (historyIndex s)) (historyStack s) @ [next_key s],
                historyIndex := Suc (historyIndex s)\<rparr>;
         s3 = with_window (mock_pushState (getState s2) path) s2
     in notifyListeners (getCurrentLocation s3) Push s3)"
  using assms by (simp add: push_def createKey_def Let_def)

lemma mw_location_pushState:
  assumes "-1 \<le> mh_stackIndex (mw_history w)"
    "mh_stackIndex (mw_history w) < int (length (mh_locationStack (mw_history w)))"
  shows "lc_href (mw_location (mock_pushState d path w)) = path \<and>
         lc_pathname (mw_location (mock_pushState d path w)) = path"
proof -
  have "min (length (mh_locationStack (mw_history w))) (nat (mh_stackIndex (mw_history w) + 1)) =
      nat (mh_stackIndex (mw_history w) + 1)" using assms by simp
  then show ?thesis using assms
    by (simp add: mock_pushState_def mw_set_history_def mw_updateLocation_def Let_def js_index_def nth_append)
qed

lemma pop_finish_found:
  "0 \<le> f \<Longrightarrow> pop_finish loc a f t =
     notifyListeners loc a (with_window (mock_replaceState (getState (t\<lparr>historyIndex := nat f\<rparr>)) (lc_href loc))
                                       (t\<lparr>historyIndex := nat f\<rparr>))"
  by (simp add: pop_finish_def Let_def)

lemma js_indexOf_append: "x \<notin> set xs \<Longrightarrow> js_indexOf x (xs @ x # ys) = int (length xs)"
  by (induction xs) (auto simp: Let_def)

lemma moved_index [simp]: "mh_stackIndex (mw_history (moved s k)) = k"
  by (simp add: moved_def)

lemma replaceState_index:
  "mh_stackIndex (mw_history (mock_replaceState d u w)) = max 0 (mh_stackIndex (mw_history w)) \<or>
   mh_stackIndex (mw_history w) < -1"
  by (simp add: mock_replaceState_def Let_def max_def)

lemma handlePopState_falsy:
  "\<not> isExtraneousPopstateEvent (crios s) st \<Longrightarrow> \<not> restoringPosition s \<Longrightarrow> \<not> js_truthy_state st \<Longrightarrow>
   handlePopState s st = pop_finish (getCurrentLocation s) Unknown (-1) s"
  by (subst handlePopState.simps) (cases st; simp add: pop_target_def Let_def)

lemma initHistoryState_fields:
  assumes "mh_stackIndex (mw_history (window s)) = -1"
  shows "mh_stackIndex (mw_history (window (initHistoryState s))) = 1"
    "historyIndex (initHistoryState s) = 1"
    "notifications (initHistoryState s) = notifications s"
    "navigationListeners (initHistoryState s) = navigationListeners s"
  using assms by (simp_all add: initHistoryState_def createKey_def with_window_def mock_replaceState_def
      mock_pushState_def Let_def)

lemma pop_finish_fields:
  "0 \<le> f \<Longrightarrow> historyIndex (pop_finish loc a f t) = nat f"
  "0 \<le> f \<Longrightarrow> mh_stackIndex (mw_history (window (pop_finish loc a f t))) =
     max 0 (mh_stackIndex (mw_history (window t))) \<or> mh_stackIndex (mw_history (window t)) < -1"
  "notifications (pop_finish loc a f t) =
     notifications (if f = -1 then initHistoryState t else t) @ map (\<lambda>l. (l, loc, a)) (navigationListeners t)"
  by (simp_all add: pop_finish_def Let_def notifyListeners_def with_window_def getState_def
      mock_replaceState_def max_def initHistoryState_def createKey_def mock_pushState_def)

text \<open>The constructor on a fresh window: two entries, the first one the sentinel.\<close>

lemma new_BrowserHistory_init:
  "new_BrowserHistory c new_mock_window =
     initHistoryState \<lparr>navigationFilters = [], navigationListeners = [], historyStack = [], historyIndex = 0,
        restoringPosition = False, window = new_mock_window, crios = c, next_key = 0, notifications = []\<rparr>"
proof -
  have "getHistoryState new_mock_window = JEmpty"
    by (simp add: getHistoryState_def new_mock_window_def new_mock_history_def)
  then show ?thesis unfolding new_BrowserHistory_def Let_def by (simp only: jstate.case)
qed

lemma new_BrowserHistory_fresh:
  "historyStack (new_BrowserHistory c new_mock_window) = [0, 1]"
  "historyIndex (new_BrowserHistory c new_mock_window) = 1"
  "mh_stackIndex (mw_history (window (new_BrowserHistory c new_mock_window))) = 1"
  "mh_length (mw_history (window (new_BrowserHistory c new_mock_window))) = 2"
  "crios (new_BrowserHistory c new_mock_window) = c"
  "navigationFilters (new_BrowserHistory c new_mock_window) = []"
  "navigationListeners (new_BrowserHistory c new_mock_window) = []"
  "notifications (new_BrowserHistory c new_mock_window) = []"
  "next_key (new_BrowserHistory c new_mock_window) = 2"
  "lc_pathname (getCurrentLocation (new_BrowserHistory c new_mock_window)) = []"
  unfolding new_BrowserHistory_init
  by (simp_all add: new_mock_window_def new_mock_history_def initHistoryState_def createKey_def
      with_window_def getState_def mock_replaceState_def mock_pushState_def js_assign_def Let_def
      getCurrentLocation_def js_index_def empty_location_def)

subsection \<open>Properties\<close>

text \<open>
  C26: in every reachable state of a wrapper on a browser whose user agent is not Chrome for
  iOS, the wrapper and the window agree: our index is the window's entry (or 0 once the user
  has gone back out of the application), every entry the window can reach carries the
  \<open>HistoryState\<close> written for it, with our key at its own index, the keys are distinct and
  fresh, and no restore is pending. In particular \<open>_historyIndex\<close> indexes
  \<open>_historyStack\<close>, so the assignment of \<open>replace\<close> (line 172) stays inside the array.
\<close>

theorem reachable_bh_inv:
  "reachable s \<Longrightarrow> \<not> crios s \<Longrightarrow> bh_inv s"
  by (rule bh_inv_reachable)

text \<open>
  C27: a back navigation that a registered filter blocks is undone: the window returns to the
  entry it left (\<open>go(1)\<close> from \<open>_rejectPop\<close>), the wrapper's stack and index are unchanged,
  no listener is notified and no restore stays pending. This holds at every entry past the
  first, including entry 1, whose back navigation lands on the entry \<open>_initHistoryState\<close>
  adds so that a back navigation can always be caught.
\<close>

theorem goBack_blocked:
  assumes "reachable s" "\<not> crios s" "0 \<le> mh_stackIndex (mw_history (window s))" "0 < historyIndex s"
    "\<exists>(fid, f) \<in> set (navigationFilters s). \<forall>l. f l Back"
  shows "historyStack (goBack s) = historyStack s \<and> historyIndex (goBack s) = historyIndex s \<and>
    mh_stackIndex (mw_history (window (goBack s))) = mh_stackIndex (mw_history (window s)) \<and>
    notifications (goBack s) = notifications s \<and> \<not> restoringPosition (goBack s)"
proof -
  have inv: "bh_inv s" by (rule bh_inv_reachable [OF assms(1,2)])
  have "\<not> allowNavigation s uri Back" for uri using assms(5) by (auto simp: allowNavigation_iff)
  then have "goBack s = s\<lparr>window := moved s (int (historyIndex s))\<rparr>"
    using goBack_entry [OF inv assms(3,2,4)] by (simp add: Let_def)
  then show ?thesis
    using bh_inv_facts(1) [OF inv [unfolded bh_inv_def] assms(3)] reachable_inv(4) [OF assms(1,2)] by simp
qed

text \<open>
  C28: with no filter registered, \<open>push(path)\<close> to a new path followed by \<open>goBack()\<close> returns
  the wrapper and the window to the index they had; the stack keeps the pushed key above
  it, and the listeners are told \<open>push\<close> and then \<open>back\<close>.
\<close>

theorem push_goBack_roundtrip:
  assumes r: "reachable s" "\<not> crios s" "0 \<le> mh_stackIndex (mw_history (window s))"
    and nf: "navigationFilters s = []" and p: "path \<noteq> lc_pathname (getCurrentLocation s)"
  shows "historyIndex (goBack (push path s)) = historyIndex s \<and>
    mh_stackIndex (mw_history (window (goBack (push path s)))) = mh_stackIndex (mw_history (window s)) \<and>
    historyStack (goBack (push path s)) = take (Suc (historyIndex s)) (historyStack s) @ [next_key s] \<and>
    map (\<lambda>(l, loc, a). (l, a)) (notifications (goBack (push path s))) =
      map (\<lambda>(l, loc, a). (l, a)) (notifications s) @ map (\<lambda>l. (l, Push)) (navigationListeners s) @
      map (\<lambda>l. (l, Back)) (navigationListeners s)"
proof -
  have inv: "bh_inv s" by (rule bh_inv_reachable [OF r(1,2)])
  note b = bh_inv_facts [OF inv [unfolded bh_inv_def] r(3)]
  let ?s1 = "push path s"
  have al: "allowNavigation t u a" if "navigationFilters t = []" for t u a
    using that by (simp add: allowNavigation_iff)
  have s1: "historyIndex ?s1 = Suc (historyIndex s)"
    "historyStack ?s1 = take (Suc (historyIndex s)) (historyStack s) @ [next_key s]"
    "navigationFilters ?s1 = []" "navigationListeners ?s1 = navigationListeners s" "crios ?s1 = crios s"
    "map (\<lambda>(l, loc, a). (l, a)) (notifications ?s1) =
       map (\<lambda>(l, loc, a). (l, a)) (notifications s) @ map (\<lambda>l. (l, Push)) (navigationListeners s)"
    using push_allowed [OF p al [OF nf]] nf by (simp_all add: Let_def with_window_def notifyListeners_def)
  have inv1: "bh_inv ?s1" by (rule bh_inv_push [OF inv r(3)])
  have i1: "0 \<le> mh_stackIndex (mw_history (window ?s1))"
    using bh_inv_facts(1) [OF inv1 [unfolded bh_inv_def]] inv1 s1(1)
    by (auto simp: bh_inv_def bh_inv_except_def Let_def)
  define t where "t = (if Suc (historyIndex s) = 1 then ?s1\<lparr>window := moved ?s1 (-1)\<rparr>
                       else ?s1\<lparr>window := moved ?s1 (int (Suc (historyIndex s)) - 1)\<rparr>)"
  define loc where "loc = mw_location (moved ?s1 (int (Suc (historyIndex s)) - 1))"
  have gb: "goBack ?s1 = notifyListeners loc Back
      (with_window (mock_replaceState (getState (t\<lparr>historyIndex := historyIndex s\<rparr>)) (lc_href loc))
                   (t\<lparr>historyIndex := historyIndex s\<rparr>))"
    using goBack_entry [OF inv1 i1] r(2) s1(1,3,5) al [OF s1(3)] pop_finish_found [of "int (historyIndex s)"]
    by (simp add: Let_def t_def loc_def)
  have idx: "mh_stackIndex (mw_history (window (t\<lparr>historyIndex := historyIndex s\<rparr>))) =
      (if historyIndex s = 0 then -1 else int (historyIndex s))"
    by (simp add: t_def)
  have "mh_stackIndex (mw_history (window (goBack ?s1))) = int (historyIndex s)"
    using idx b(1) replaceState_index [of "getState (t\<lparr>historyIndex := historyIndex s\<rparr>)" "lc_href loc"
        "window (t\<lparr>historyIndex := historyIndex s\<rparr>)"]
    by (cases "historyIndex s = 0") (auto simp: gb with_window_def notifyListeners_def)
  then show ?thesis
    using b(1) s1 by (simp add: gb t_def with_window_def notifyListeners_def)
qed

text \<open>
  C29: with no filter registered, \<open>canGoBack()\<close> (line 130) tells exactly whether
  \<open>goBack()\<close> keeps the application past the entry \<open>_initHistoryState\<close> added to catch
  back navigations: from index 1 the back navigation lands there (index 0), and from
  index 0 it leaves the application.
\<close>

theorem canGoBack_goBack:
  assumes r: "reachable s" "\<not> crios s" "0 \<le> mh_stackIndex (mw_history (window s))"
    and nf: "navigationFilters s = []"
  shows "canGoBack s \<longleftrightarrow> 0 < historyIndex (goBack s)"
proof (cases "historyIndex s = 0")
  case True
  have inv: "bh_inv s" by (rule bh_inv_reachable [OF r(1,2)])
  show ?thesis using goBack_first [OF inv r(3,2) True] True by (simp add: canGoBack_def)
next
  case False
  have inv: "bh_inv s" by (rule bh_inv_reachable [OF r(1,2)])
  have "allowNavigation s u a" for u a using nf by (simp add: allowNavigation_iff)
  then have "historyIndex (goBack s) = historyIndex s - 1"
    using goBack_entry [OF inv r(3,2)] False pop_finish_fields(1) [where f = "int (historyIndex s) - 1"]
    by (simp add: Let_def nat_diff_distrib)
  then show ?thesis using False by (simp add: canGoBack_def)
qed

text \<open>
  C30: \<open>_removeNavigationFilter\<close> (lines 199--206) removes the first registration of the
  filter and only that one: a filter registered twice is still consulted after one removal.
\<close>

theorem removeNavigationFilter_first:
  assumes "navigationFilters s = xs @ (fid, f) # ys" "fid \<notin> set (map fst xs)"
  shows "navigationFilters (removeNavigationFilter fid s) = xs @ ys \<and>
    removeNavigationFilter fid s = s\<lparr>navigationFilters := xs @ ys\<rparr>"
proof -
  have "js_indexOf fid (map fst (navigationFilters s)) = int (length xs)"
    using assms js_indexOf_append [of fid "map fst xs" "map fst ys"] by simp
  then show ?thesis using assms by (simp add: removeNavigationFilter_def splice_one_def)
qed

text \<open>
  C31: an allowed \<open>push(path)\<close> to a path other than the current one cuts the stack above
  our index, appends a key that is not in the stack, moves our index up by one, makes
  \<open>path\<close> the window's URL and notifies every listener, in registration order, with that
  location and the action \<open>push\<close>.
\<close>

theorem push_new_entry:
  assumes r: "reachable s" "\<not> crios s" "0 \<le> mh_stackIndex (mw_history (window s))"
    and p: "path \<noteq> lc_pathname (getCurrentLocation s)" "allowNavigation s path Push"
  shows "historyStack (push path s) = take (Suc (historyIndex s)) (historyStack s) @ [next_key s] \<and>
    next_key s \<notin> set (historyStack s) \<and> historyIndex (push path s) = Suc (historyIndex s) \<and>
    lc_href (getCurrentLocation (push path s)) = path \<and>
    notifications (push path s) =
      notifications s @ map (\<lambda>l. (l, getCurrentLocation (push path s), Push)) (navigationListeners s)"
proof -
  have e: "bh_inv_except {} s" by (rule reachable_inv(1) [OF r(1,2)])
  have k: "next_key s \<notin> set (historyStack s)" using reachable_inv(3) [OF r(1,2)] by auto
  have w: "-1 \<le> mh_stackIndex (mw_history (window s))"
    "mh_stackIndex (mw_history (window s)) < int (length (mh_locationStack (mw_history (window s))))"
    using e by (auto simp: bh_inv_except_def Let_def)
  show ?thesis
    using push_allowed [OF p] k mw_location_pushState [OF w]
    by (simp add: Let_def notifyListeners_def with_window_def getCurrentLocation_def)
qed

text \<open>
  C32: on Chrome for iOS (\<open>navigator.userAgent\<close> contains \<open>CriOS\<close>) the event of the nested
  \<open>history.back()\<close> at line 273 is not discarded as extraneous. Going back from entry 1 to
  the first entry then re-initialises the stack inside the nested handler, and the outer
  handler resumes with the index it computed before: the wrapper ends at index 0 while the
  window is at entry 1, and the listeners hear \<open>unknown\<close> and then \<open>back\<close> for one back
  navigation (with the window's synchronous popstate dispatch).
\<close>

theorem goBack_crios_first_entry:
  assumes inv: "bh_inv s" and c: "crios s" and i0: "0 \<le> mh_stackIndex (mw_history (window s))"
    and n: "historyIndex s = 1" and nf: "navigationFilters s = []"
  shows "historyIndex (goBack s) = 0 \<and> mh_stackIndex (mw_history (window (goBack s))) = 1 \<and>
    map (\<lambda>(l, loc, a). (l, a)) (notifications (goBack s)) =
      map (\<lambda>(l, loc, a). (l, a)) (notifications s) @ map (\<lambda>l. (l, Unknown)) (navigationListeners s) @
      map (\<lambda>l. (l, Back)) (navigationListeners s)"
proof -
  note b = bh_inv_facts [OF inv [unfolded bh_inv_def] i0]
  have al: "allowNavigation s u a" for u a using nf by (simp add: allowNavigation_iff)
  have j: "0 < mh_length (mw_history (window s))" "(0::nat) \<noteq> historyIndex s" using b(2) n by simp_all
  have gb: "goBack s = handlePopState (s\<lparr>window := moved s 0\<rparr>) (popped_state (moved s 0))"
    using b(1) n by (simp add: goBack_def mock_back_moved moved_def)
  have first: "mock_back (moved s 0) = Some (moved s (-1), JUndefined)"
    by (simp add: mock_back_moved moved_def)
  let ?t = "s\<lparr>window := moved s (-1)\<rparr>"
  have nr: "\<not> restoringPosition s" using inv by (simp add: bh_inv_def bh_inv_except_def Let_def)
  have inner: "handlePopState ?t JUndefined = pop_finish (getCurrentLocation ?t) Unknown (-1) ?t"
    using c nr by (simp add: handlePopState_falsy isExtraneousPopstateEvent_def)
  let ?u = "pop_finish (getCurrentLocation ?t) Unknown (-1) ?t"
  have g: "goBack s = pop_finish (mw_location (moved s 0)) Back 0 ?u"
    using pop_entry [OF inv i0 j moved_def] n al first inner by (simp add: gb Let_def)
  have u: "mh_stackIndex (mw_history (window ?u)) = 1"
    "map (\<lambda>(l, loc, a). (l, a)) (notifications ?u) =
       map (\<lambda>(l, loc, a). (l, a)) (notifications s) @ map (\<lambda>l. (l, Unknown)) (navigationListeners s)"
    using initHistoryState_fields [of ?t]
    by (simp_all add: pop_finish_def notifyListeners_def with_window_def)
  have i1: "mh_stackIndex (mw_history (window ?t)) = -1" by simp
  show ?thesis
    using g pop_finish_fields [where f = 0 and loc = "mw_location (moved s 0)" and a = Back and t = ?u] u
      initHistoryState_fields [OF i1]
    by (simp add: notifyListeners_def pop_finish_def)
qed

end
