(* ===== verification/SelectableItems.thy ===== *)
theory SelectableItems
  imports StringUtils
begin

text \<open>
  The pill selector \<open>SelectableItems\<close> of \<open>src/src/SelectableItems/index.tsx\<close>. Its state is
  the set \<open>addedItems\<close> of items added through the search box, the object \<open>itemState\<close> from
  item to selected flag, the search results, and the private \<open>_searchString\<close>; the calls of
  the \<open>searchCallback\<close> and \<open>onItemsSelect\<close> props are recorded in the order they are made.

  A JavaScript \<open>Set\<close> is a distinct list in insertion order. \<open>itemState\<close> is a plain object
  created by \<open>{}\<close>: reading a key it does not own finds a member inherited from
  \<open>Object.prototype\<close> (a function, truthy, neither \<open>null\<close> nor \<open>false\<close>), and assigning a
  boolean to \<open>__proto__\<close> calls the prototype setter, which ignores it. \<open>Object.assign\<close>
  copies the own properties in the order of \<open>Object.keys\<close>. The header strings come from a
  module \<open>./strings\<close> that is not in the repository; they are parameters.
\<close>

subsection \<open>Sets and objects\<close>

text \<open>\<open>set.add(x)\<close>, \<open>set.delete(x)\<close> and \<open>new Set(iterable)\<close>.\<close>

definition set_add :: "'a \<Rightarrow> 'a list \<Rightarrow> 'a list" where
  "set_add x s = (if x \<in> set s then s else s @ [x])"

definition set_delete :: "'a \<Rightarrow> 'a list \<Rightarrow> 'a list" where
  "set_delete x s = removeAll x s"

definition set_of_iter :: "'a list \<Rightarrow> 'a list" where
  "set_of_iter xs = foldl (\<lambda>s x. set_add x s) [] xs"

text \<open>\<open>obj[k]\<close> on an object of booleans created by \<open>{}\<close>.\<close>

datatype js_prop = PBool bool | PInherited | PUndefined

definition prop_get :: "bool js_object \<Rightarrow> string \<Rightarrow> js_prop" where
  "prop_get obj k =
     (case obj_get obj k of
        Some b \<Rightarrow> PBool b
      | None \<Rightarrow> if k \<in> set object_prototype_members then PInherited else PUndefined)"

fun prop_truthy :: "js_prop \<Rightarrow> bool" where
  "prop_truthy (PBool b) = b"
| "prop_truthy PInherited = True"
| "prop_truthy PUndefined = False"

text \<open>\<open>obj[k] = b\<close>: the \<open>__proto__\<close> setter ignores a boolean.\<close>

definition js_put :: "string \<Rightarrow> bool \<Rightarrow> bool js_object \<Rightarrow> bool js_object" where
  "js_put k b obj = (if k = ''__proto__'' then obj else obj_set k b obj)"

text \<open>\<open>Object.assign({}, obj, {[k]: b})\<close>.\<close>

definition obj_assign_put :: "string \<Rightarrow> bool \<Rightarrow> bool js_object \<Rightarrow> bool js_object" where
  "obj_assign_put k b obj =
     js_put k b (foldl (\<lambda>acc key. js_put key (the (obj_get obj key)) acc) [] (object_keys obj))"

subsection \<open>Props and state\<close>

text \<open>
  \<open>SelectableItemsProps\<close>; a \<open>Set\<close> prop may be absent (\<open>None\<close>), and the two callbacks are
  recorded by whether they are given.
\<close>

record si_props =
  si_className :: "string option"
  si_initialItems :: "string list option"
  si_possibleItems :: "string list option"
  si_hasOnItemsSelect :: bool
  si_hasSearchCallback :: bool
  si_searchPlaceholderText :: "string option"
  si_headerText :: string
  si_title :: "string option"

record si_state =
  si_props :: si_props
  addedItems :: "string list"
  itemState :: "bool js_object"
  searchResults :: "string list"
  searchString :: string
  searchRequests :: "string list"
  selections :: "string list list"

subsection \<open>Operations\<close>

text \<open>
  \<open>_notifySelectionChange\<close>: the own keys whose value is \<open>true\<close>, as a \<open>Set\<close>, passed to
  \<open>onItemsSelect\<close> when it is given.
\<close>

definition notifySelectionChange :: "bool js_object \<Rightarrow> si_state \<Rightarrow> si_state" where
  "notifySelectionChange st s =
     (if \<not> si_hasOnItemsSelect (si_props s) then s
      else s\<lparr>selections := selections s @
                [set_of_iter (filter (\<lambda>key. prop_truthy (prop_get st key)) (object_keys st))]\<rparr>)"

definition new_SelectableItems :: "si_props \<Rightarrow> si_state" where
  "new_SelectableItems props =
     (let st0 = (case si_initialItems props of
                   Some xs \<Rightarrow> foldl (\<lambda>st item. js_put item True st) [] xs | None \<Rightarrow> []);
          st = (case si_possibleItems props of
                  Some xs \<Rightarrow> foldl (\<lambda>st item. js_put item False st) st0 xs | None \<Rightarrow> st0)
      in \<lparr>si_props = props, addedItems = [], itemState = st, searchResults = [], searchString = [],
          searchRequests = [], selections = []\<rparr>)"

text \<open>
  \<open>componentWillReceiveProps\<close>: the four \<open>forEach\<close> calls on the old and new item sets throw a
  \<open>TypeError\<close> when a set is absent. The new item state starts from the new groups and keeps
  the user's overrides of the old ones. \<open>_notifySelectionChange\<close> runs while
  \<open>this.props\<close> still holds the old props; React installs \<open>nextProps\<close> afterwards.
\<close>

definition componentWillReceiveProps_si :: "si_props \<Rightarrow> si_state \<Rightarrow> js_error + si_state" where
  "componentWillReceiveProps_si nextProps s =
     (case (si_initialItems (si_props s), si_possibleItems (si_props s),
            si_initialItems nextProps, si_possibleItems nextProps) of
        (Some initialItems, Some possibleItems, Some nextInitialItems, Some nextPossibleItems) \<Rightarrow>
          (let st = itemState s;
               newAddedItems = foldl (\<lambda>a item. set_delete item a)
                                 (foldl (\<lambda>a item. set_delete item a) (set_of_iter (addedItems s)) nextInitialItems)
                                 nextPossibleItems;
               n0 = foldl (\<lambda>n item. js_put item True n) [] nextInitialItems;
               n1 = foldl (\<lambda>n item. js_put item False n) n0 nextPossibleItems;
               n2 = foldl (\<lambda>n item. js_put item True n) n1 newAddedItems;
               n3 = foldl (\<lambda>n item. if prop_truthy (prop_get n item) \<and> prop_get st item = PBool False
                                      then js_put item False n else n) n2 initialItems;
               n4 = foldl (\<lambda>n item. if prop_get n item = PBool False \<and> prop_truthy (prop_get st item)
                                      then js_put item True n else n) n3 possibleItems;
               n5 = foldl (\<lambda>n item. if prop_get n item = PBool False \<and> prop_truthy (prop_get st item)
                                      then js_put item True n else n) n4 (addedItems s);
               s1 = notifySelectionChange n5 (s\<lparr>addedItems := newAddedItems, itemState := n5\<rparr>)
           in Inr (s1\<lparr>si_props := nextProps\<rparr>))
      | _ \<Rightarrow> Inl TypeError)"

definition toggleItemState :: "string \<Rightarrow> si_state \<Rightarrow> si_state" where
  "toggleItemState item s =
     (let newItemState = obj_assign_put item (\<not> prop_truthy (prop_get (itemState s) item)) (itemState s)
      in notifySelectionChange newItemState (s\<lparr>itemState := newItemState\<rparr>))"

text \<open>
  \<open>_handleSearchChange\<close> remembers the query and, when \<open>searchCallback\<close> is given, issues it;
  \<open>searchResponse\<close> is the callback it passes, called by the search with a term and results.
\<close>

definition handleSearchChange :: "string \<Rightarrow> si_state \<Rightarrow> si_state" where
  "handleSearchChange value s =
     s\<lparr>searchString := value,
       searchRequests := (if si_hasSearchCallback (si_props s) then searchRequests s @ [value]
                          else searchRequests s)\<rparr>"

definition searchResponse :: "string \<Rightarrow> string list \<Rightarrow> si_state \<Rightarrow> si_state" where
  "searchResponse term results s =
     (if term = searchString s then s\<lparr>searchResults := results\<rparr> else s)"

definition handleSearchSelect :: "string \<Rightarrow> si_state \<Rightarrow> si_state" where
  "handleSearchSelect value s =
     (if prop_truthy (prop_get (itemState s) value) then s
      else
        (let newAddedItems = (if prop_get (itemState s) value = PUndefined
                              then set_add value (set_of_iter (addedItems s)) else addedItems s);
             newItemState = obj_assign_put value True (itemState s)
         in notifySelectionChange newItemState (s\<lparr>addedItems := newAddedItems, itemState := newItemState\<rparr>)))"

subsection \<open>Rendering\<close>

text \<open>
  The render methods, with the two header strings of \<open>./strings\<close> as parameters. A prop that
  is \<open>undefined\<close> is left out of the attributes.
\<close>

definition renderItem :: "si_state \<Rightarrow> string \<Rightarrow> vnode" where
  "renderItem s item =
     VElem ''button''
       [(''className'', AStr (buildClassString (obj_literal [(''selectable-item'', True),
                                 (''active'', prop_truthy (prop_get (itemState s) item))]))),
        (''key'', AStr item), (''onClick'', AHandler ''_toggleItemState'' [item])]
       [VText item]"

definition renderInitialItems :: "string \<Rightarrow> si_state \<Rightarrow> vnode" where
  "renderInitialItems initialItemsHeader s =
     (case si_initialItems (si_props s) of
        None \<Rightarrow> VNull
      | Some items \<Rightarrow>
          if items = [] then VNull
          else VElem ''div'' [(''className'', AStr ''items-section initial'')]
                 [VElem ''div'' [(''className'', AStr ''items-header'')]
                    [VText (replaceTokens initialItemsHeader [TokStr (si_headerText (si_props s))])],
                  VElem ''div'' [(''className'', AStr ''item-container'')] (map (renderItem s) items)])"

definition renderPossibleItems :: "string \<Rightarrow> si_state \<Rightarrow> vnode" where
  "renderPossibleItems suggestedItemsHeader s =
     (let allPossibleItems = addedItems s @ (case si_possibleItems (si_props s) of Some xs \<Rightarrow> xs | None \<Rightarrow> [])
      in VElem ''div'' [(''className'', AStr ''items-section possible'')]
           [VElem ''div'' [(''className'', AStr ''items-header'')]
              [VText (replaceTokens suggestedItemsHeader [TokStr (si_headerText (si_props s))])],
            VElem ''AutoComplete''
              ([(''getItemValue'', AHandler ''getItemValue'' []), (''items'', AStrs (searchResults s)),
                (''onInputChange'', AHandler ''_handleSearchChange'' []),
                (''onSelect'', AHandler ''_handleSearchSelect'' [])] @
               (case si_searchPlaceholderText (si_props s) of
                  Some t \<Rightarrow> [(''placeholderText'', AStr t)] | None \<Rightarrow> [])) [],
            if allPossibleItems \<noteq> []
            then VElem ''div'' [(''className'', AStr ''item-container'')] (map (renderItem s) allPossibleItems)
            else VNull])"

definition renderSelectableItems :: "string \<Rightarrow> string \<Rightarrow> si_state \<Rightarrow> vnode" where
  "renderSelectableItems initialItemsHeader suggestedItemsHeader s =
     VElem ''div''
       [(''className'', AStr (''selectable-items '' @
          (case si_className (si_props s) of Some c \<Rightarrow> c | None \<Rightarrow> [])))]
       [(case si_title (si_props s) of
           None \<Rightarrow> VNull
         | Some t \<Rightarrow> if t = [] then VText [] else VElem ''div'' [(''className'', AStr ''selectable-items-header'')] [VText t]),
        renderInitialItems initialItemsHeader s,
        renderPossibleItems suggestedItemsHeader s]"

subsection \<open>The component as a state machine\<close>

datatype si_event = Toggle string | SearchChange string | SearchResponse string "string list"
  | SearchSelect string | ReceiveProps si_props

fun si_step :: "si_state \<Rightarrow> si_event \<Rightarrow> js_error + si_state" where
  "si_step s (Toggle item) = Inr (toggleItemState item s)"
| "si_step s (SearchChange v) = Inr (handleSearchChange v s)"
| "si_step s (SearchResponse t rs) = Inr (searchResponse t rs s)"
| "si_step s (SearchSelect v) = Inr (handleSearchSelect v s)"
| "si_step s (ReceiveProps p) = componentWillReceiveProps_si p s"

inductive si_reachable :: "si_state \<Rightarrow> bool" where
  si_init: "si_reachable (new_SelectableItems p)"
| si_next: "si_reachable s \<Longrightarrow> si_step s e = Inr s' \<Longrightarrow> si_reachable s'"

subsection \<open>The invariant\<close>

text \<open>
  The item-state object has distinct keys and never owns \<open>__proto__\<close> (its setter ignores
  booleans); \<open>addedItems\<close> is a set.
\<close>

definition wf_obj :: "bool js_object \<Rightarrow> bool" where
  "wf_obj obj \<longleftrightarrow> distinct (map fst obj) \<and> ''__proto__'' \<notin> set (map fst obj)"

definition si_inv :: "si_state \<Rightarrow> bool" where
  "si_inv s \<longleftrightarrow> wf_obj (itemState s) \<and> distinct (addedItems s)"

subsection \<open>Lemmas\<close>

lemma obj_get_js_put:
  "obj_get (js_put k b obj) k' = (if k' = k \<and> k \<noteq> ''__proto__'' then Some b else obj_get obj k')"
  by (simp add: js_put_def obj_get_set)

lemma wf_js_put:
  assumes "wf_obj obj" shows "wf_obj (js_put k b obj)"
proof (cases "k = ''__proto__''")
  case True
  then show ?thesis using assms by (simp add: js_put_def)
next
  case False
  have "map fst (obj_set k b obj) = (if k \<in> set (map fst obj) then map fst obj else map fst obj @ [k])"
    by (rule obj_set_keys)
  then show ?thesis using assms False unfolding wf_obj_def js_put_def by (simp split: if_splits)
qed

lemma wf_empty [simp]: "wf_obj []"
  by (simp add: wf_obj_def)

lemma obj_get_copy:
  "obj_get (foldl (\<lambda>acc key. js_put key (the (obj_get obj key)) acc) acc ks) k' =
   (if k' \<in> set ks \<and> k' \<noteq> ''__proto__'' then Some (the (obj_get obj k')) else obj_get acc k')"
  by (induction ks arbitrary: acc) (auto simp: obj_get_js_put)

lemma obj_get_assign_put:
  assumes "wf_obj obj"
  shows "obj_get (obj_assign_put k b obj) k' = (if k' = k \<and> k \<noteq> ''__proto__'' then Some b else obj_get obj k')"
proof -
  have c: "obj_get (foldl (\<lambda>acc key. js_put key (the (obj_get obj key)) acc) [] (object_keys obj)) k' =
      obj_get obj k'"
    unfolding obj_get_copy using assms obj_get_None_iff [of obj k'] by (auto simp: wf_obj_def)
  show ?thesis by (simp only: obj_assign_put_def obj_get_js_put c)
qed

lemma wf_assign_put: "wf_obj (obj_assign_put k b obj)"
  unfolding obj_assign_put_def by (intro wf_js_put foldl_inv [where P = wf_obj]) (simp_all add: wf_js_put)

lemma distinct_set_add: "distinct s \<Longrightarrow> distinct (set_add x s)"
  by (simp add: set_add_def)

lemma distinct_set_of_iter: "distinct (set_of_iter xs)"
  unfolding set_of_iter_def by (rule foldl_inv [where P = distinct]) (simp_all add: distinct_set_add)

lemma set_of_iter_distinct: "distinct xs \<Longrightarrow> set_of_iter xs = xs"
proof -
  have "distinct (a @ xs) \<Longrightarrow> foldl (\<lambda>s x. set_add x s) a xs = a @ xs" for a
    by (induction xs arbitrary: a) (auto simp: set_add_def)
  then show "distinct xs \<Longrightarrow> set_of_iter xs = xs" by (simp add: set_of_iter_def)
qed

lemma wf_foldl_put: "wf_obj n \<Longrightarrow> wf_obj (foldl (\<lambda>n item. js_put item b n) n xs)"
  by (rule foldl_inv) (simp_all add: wf_js_put)

lemma wf_foldl_cond:
  "wf_obj n \<Longrightarrow> wf_obj (foldl (\<lambda>n item. if c n item then js_put item b n else n) n xs)"
  by (rule foldl_inv) (simp_all add: wf_js_put)

lemma distinct_foldl_delete: "distinct a \<Longrightarrow> distinct (foldl (\<lambda>a item. set_delete item a) a xs)"
  by (rule foldl_inv) (simp_all add: set_delete_def distinct_removeAll)

lemma notify_fields [simp]:
  "itemState (notifySelectionChange st s) = itemState s"
  "addedItems (notifySelectionChange st s) = addedItems s"
  "si_props (notifySelectionChange st s) = si_props s"
  "searchResults (notifySelectionChange st s) = searchResults s"
  "searchString (notifySelectionChange st s) = searchString s"
  by (simp_all add: notifySelectionChange_def)

lemma si_inv_new: "si_inv (new_SelectableItems p)"
  unfolding si_inv_def new_SelectableItems_def Let_def
  by (auto intro!: foldl_inv [where P = wf_obj] wf_js_put split: option.splits)

lemma si_inv_step: "si_inv s \<Longrightarrow> si_step s e = Inr s' \<Longrightarrow> si_inv s'"
proof (cases e)
  case (ReceiveProps p)
  assume inv: "si_inv s" and st: "si_step s e = Inr s'"
  then show ?thesis using ReceiveProps
    by (auto simp: componentWillReceiveProps_si_def si_inv_def Let_def wf_foldl_put wf_foldl_cond
        distinct_foldl_delete distinct_set_of_iter split: option.splits)
qed (auto simp: si_inv_def toggleItemState_def handleSearchChange_def searchResponse_def
      handleSearchSelect_def Let_def wf_assign_put distinct_set_add distinct_set_of_iter)


lemma handleSearchChange_fields [simp]:
  "itemState (handleSearchChange v s) = itemState s" "addedItems (handleSearchChange v s) = addedItems s"
  "si_props (handleSearchChange v s) = si_props s" "searchString (handleSearchChange v s) = v"
  by (simp_all add: handleSearchChange_def)

lemma handleSearchSelect_fields [simp]:
  "searchString (handleSearchSelect v s) = searchString s"
  "searchRequests (handleSearchSelect v s) = searchRequests s"
  by (simp_all add: handleSearchSelect_def Let_def notifySelectionChange_def)

text \<open>Toggling an item flips its selection and no other; toggling twice restores every selection.\<close>

lemma toggle_lookup:
  "wf_obj (itemState s) \<Longrightarrow> item \<noteq> ''__proto__'' \<Longrightarrow>
   obj_get (itemState (toggleItemState item s)) k =
     (if k = item then Some (\<not> prop_truthy (prop_get (itemState s) item)) else obj_get (itemState s) k)"
  by (simp add: toggleItemState_def Let_def obj_get_assign_put)


text \<open>Selecting an item from the search selects it, unless its name is inherited from \<open>Object.prototype\<close>.\<close>

lemma select_selects:
  "wf_obj (itemState s) \<Longrightarrow> value \<notin> set object_prototype_members \<Longrightarrow>
   prop_get (itemState (handleSearchSelect value s)) value = PBool True"
  by (auto simp: handleSearchSelect_def Let_def prop_get_def obj_get_assign_put object_prototype_members_def
      split: option.splits)

text \<open>
  C36: an item chosen in the search whose name is a member of \<open>Object.prototype\<close> and not
  yet an own entry is never selected: \<open>itemState[value]\<close> reads the inherited member, which
  is truthy, so \<open>_handleSearchSelect\<close> takes it for a selected item and changes nothing.
\<close>

theorem select_inherited_noop:
  "value \<in> set object_prototype_members \<Longrightarrow> obj_get (itemState s) value = None \<Longrightarrow>
   handleSearchSelect value s = s"
  by (simp add: handleSearchSelect_def prop_get_def)



text \<open>
  Receiving unchanged props re-selects an item that was added from the search and then
  deselected: the loop over \<open>addedItems\<close> only restores selections.
\<close>

lemma receiveProps_reselects_added:
  "(let p = \<lparr>si_className = None, si_initialItems = Some [''a''], si_possibleItems = Some [''b''],
             si_hasOnItemsSelect = True, si_hasSearchCallback = False, si_searchPlaceholderText = None,
             si_headerText = ''skills'', si_title = None\<rparr>;
        s = toggleItemState ''z'' (handleSearchSelect ''z'' (new_SelectableItems p))
    in prop_get (itemState s) ''z'' = PBool False \<and>
       (case componentWillReceiveProps_si p s of
          Inr s' \<Rightarrow> prop_get (itemState s') ''z'' = PBool True | Inl _ \<Rightarrow> False))"
  by code_simp

end
