(* ===== verification/SearchWidgets.thy ===== *)
theory SearchWidgets
  imports StringUtils
begin

text \<open>
  The search box \<open>SearchInput\<close> (\<open>src/src/SearchInput/index.tsx\<close>) and the auto-complete
  wrapper \<open>AutoComplete\<close> (\<open>src/src/AutoComplete/index.tsx\<close>) around it. A callback prop that
  the owner passes in acts on the owner's state, a type variable \<open>'p\<close>: each handler takes and
  returns the pair of the widget's state and the owner's, so that an owner such as
  \<open>SelectableItems\<close> can plug its own handlers in (theory \<open>Spec2Isabelle\<close>).

  The \<open>onKeyDown\<close> prop belongs to the external \<open>react-autocomplete\<close> menu; what the code reads
  from it is whether it called \<open>preventDefault\<close>, a parameter of the key event. The input's
  focus is the flag \<open>sv_focused\<close>; the input element exists whenever a handler runs, since the
  handlers are attached to it by \<open>render\<close>.
\<close>

subsection \<open>\<open>SearchInput\<close>\<close>

definition maxSearchLength :: nat where
  "maxSearchLength = 50"

record search_input_props =
  sip_clearOnEscape :: bool
  sip_inputRole :: "string option"
  sip_placeholderText :: "string option"

text \<open>\<open>SearchInputState\<close> and the focus of the underlying input.\<close>

record search_input =
  sv_value :: string
  sv_focused :: bool

definition new_SearchInput :: search_input where
  "new_SearchInput = \<lparr>sv_value = [], sv_focused = False\<rparr>"

type_synonym 'p callback = "(string \<Rightarrow> 'p \<Rightarrow> 'p) option"

text \<open>\<open>_updateValue\<close>: nothing on an unchanged value; otherwise the new value and \<open>onChange\<close>.\<close>

definition updateValue :: "'p callback \<Rightarrow> string \<Rightarrow> search_input \<times> 'p \<Rightarrow> search_input \<times> 'p" where
  "updateValue onChange newValue sp =
     (let (st, p) = sp
      in if newValue = sv_value st then (st, p)
         else (st\<lparr>sv_value := newValue\<rparr>, case onChange of Some f \<Rightarrow> f newValue p | None \<Rightarrow> p))"

definition clear :: "'p callback \<Rightarrow> search_input \<times> 'p \<Rightarrow> search_input \<times> 'p" where
  "clear onChange sp = updateValue onChange [] sp"

definition setValue :: "'p callback \<Rightarrow> string \<Rightarrow> search_input \<times> 'p \<Rightarrow> search_input \<times> 'p" where
  "setValue onChange txt sp = updateValue onChange txt sp"

definition focus :: "search_input \<Rightarrow> search_input" where
  "focus st = st\<lparr>sv_focused := True\<rparr>"

definition onClearSearch :: "'p callback \<Rightarrow> search_input \<times> 'p \<Rightarrow> search_input \<times> 'p" where
  "onClearSearch onChange sp = updateValue onChange [] sp"

text \<open>\<open>_onChange\<close>: the event's text cut to \<open>maxSearchLength\<close> (\<open>substr(0, 50)\<close>), \<open>''\<close> without a target.\<close>

definition onChange_input :: "'p callback \<Rightarrow> string option \<Rightarrow> search_input \<times> 'p \<Rightarrow> search_input \<times> 'p" where
  "onChange_input onChange target sp =
     updateValue onChange (case target of Some v \<Rightarrow> take maxSearchLength v | None \<Rightarrow> []) sp"

text \<open>\<open>_onMouseDown\<close>: whether it calls \<open>preventDefault\<close>, for a click outside the input.\<close>

definition onMouseDown :: "bool \<Rightarrow> bool" where
  "onMouseDown targetIsInput = (\<not> targetIsInput)"

text \<open>
  \<open>_onKeyDown\<close>, after the \<open>onKeyDown\<close> prop has run and either prevented the default or not:
  Escape clears the input and blurs it when \<open>clearOnEscape\<close> holds.
\<close>

definition onKeyDown_input ::
  "search_input_props \<Rightarrow> 'p callback \<Rightarrow> string \<Rightarrow> bool \<Rightarrow> search_input \<times> 'p \<Rightarrow> search_input \<times> 'p" where
  "onKeyDown_input props onChange key prevented sp =
     (if \<not> prevented \<and> key = ''Escape'' \<and> sip_clearOnEscape props
      then (let (st, p) = clear onChange sp in (st\<lparr>sv_focused := False\<rparr>, p))
      else sp)"

definition renderSearchInput :: "search_input_props \<Rightarrow> search_input \<Rightarrow> vnode" where
  "renderSearchInput props st =
     VElem ''div'' [(''className'', AStr ''pxl-form-control search-input''), (''onClick'', AHandler ''focus'' []),
                    (''onMouseDown'', AHandler ''_onMouseDown'' [])]
       [VElem ''i'' [(''className'', AStr ''icon-search''), (''aria-hidden'', AStr ''true'')] [],
        VElem ''input''
          ([(''autoComplete'', AStr ''off''), (''className'', AStr ''search-input__input'')] @
           (case sip_placeholderText props of Some t \<Rightarrow> [(''placeholder'', AStr t)] | None \<Rightarrow> []) @
           (case sip_inputRole props of Some r \<Rightarrow> [(''role'', AStr r)] | None \<Rightarrow> []) @
           [(''type'', AStr ''text''), (''onChange'', AHandler ''_onChange'' []),
            (''onKeyDown'', AHandler ''_onKeyDown'' []), (''maxLength'', ANum (Num (of_nat maxSearchLength))),
            (''value'', AStr (sv_value st))]) [],
        VElem ''button''
          [(''className'', AStr (buildClassString (obj_literal [(''search-input__clear-btn'', True),
                                                                (''hidden'', sv_value st = [])]))),
           (''onClick'', AHandler ''_onClearSearch'' [])]
          [VElem ''i'' [(''className'', AStr ''search-input__clear-icon icon-cancel'')] []]]"

subsection \<open>\<open>AutoComplete\<close>\<close>

text \<open>\<open>AutoCompleteProps\<close> with the defaults of \<open>defaultProps\<close> filled in.\<close>

record 'p autocomplete_props =
  ac_clearSearchOnSelect :: bool
  ac_setValueOnSelect :: bool
  ac_items :: "string list"
  ac_onInputChange :: "'p callback"
  ac_onSelect :: "'p callback"
  ac_placeholderText :: "string option"

definition defaultRenderItem :: "string \<Rightarrow> bool \<Rightarrow> vnode" where
  "defaultRenderItem item isHighlighted =
     VElem ''div'' [(''key'', AStr item),
                    (''className'', AStr (buildClassString (obj_literal [(''autocomplete__item'', True),
                                                                         (''active'', isHighlighted)])))]
       [VText item]"

definition defaultRenderMenu :: "vnode list \<Rightarrow> vnode" where
  "defaultRenderMenu items =
     (if items \<noteq> [] then VElem ''div'' [(''className'', AStr ''autocomplete__menu'')] items
      else VElem ''div'' [] [])"

text \<open>
  \<open>_onItemSelect\<close>: clear the search box (the default) or set it to the chosen value, through
  the box's \<open>onChange\<close>, which is the \<open>onInputChange\<close> prop; then \<open>onSelect\<close>.
\<close>

definition onItemSelect ::
  "'p autocomplete_props \<Rightarrow> string \<Rightarrow> search_input \<times> 'p \<Rightarrow> search_input \<times> 'p" where
  "onItemSelect props value sp =
     (let (st, p) = (if ac_clearSearchOnSelect props then clear (ac_onInputChange props) sp
                     else if ac_setValueOnSelect props then setValue (ac_onInputChange props) value sp
                     else sp)
      in (st, case ac_onSelect props of Some f \<Rightarrow> f value p | None \<Rightarrow> p))"

text \<open>\<open>_renderInput\<close>: the search box \<open>react-autocomplete\<close> renders as its input.\<close>

definition renderInput :: "'p autocomplete_props \<Rightarrow> string option \<Rightarrow> search_input \<Rightarrow> vnode" where
  "renderInput props role st =
     renderSearchInput \<lparr>sip_clearOnEscape = True, sip_inputRole = role,
                        sip_placeholderText = ac_placeholderText props\<rparr> st"

definition renderAutoComplete :: "'p autocomplete_props \<Rightarrow> vnode" where
  "renderAutoComplete props =
     VElem ''ReactAutocomplete''
       ([(''getItemValue'', AHandler ''getItemValue'' []), (''items'', AStrs (ac_items props))] @
        (case ac_placeholderText props of Some t \<Rightarrow> [(''inputProps.placeholder'', AStr t)] | None \<Rightarrow> []) @
        [(''onSelect'', AHandler ''_onItemSelect'' []), (''renderInput'', AHandler ''_renderInput'' []),
         (''renderItem'', AHandler ''defaultRenderItem'' []), (''renderMenu'', AHandler ''defaultRenderMenu'' []),
         (''wrapperProps.className'', AStr ''autocomplete'')]) []"


subsection \<open>Lemmas\<close>

lemma onChange_input_length:
  "length (sv_value (fst (onChange_input f target sp))) \<le> maxSearchLength \<or>
   fst (onChange_input f target sp) = fst sp"
  by (cases sp) (auto simp: onChange_input_def updateValue_def split: option.splits)

lemma escape_clears:
  "sip_clearOnEscape props \<Longrightarrow>
   onKeyDown_input props f ''Escape'' False (st, p) =
     (st\<lparr>sv_value := [], sv_focused := False\<rparr>,
      if sv_value st = [] then p else case f of Some g \<Rightarrow> g [] p | None \<Rightarrow> p)"
  by (simp add: onKeyDown_input_def clear_def updateValue_def)

lemma onItemSelect_default:
  "ac_clearSearchOnSelect props \<Longrightarrow> sv_value st \<noteq> [] \<Longrightarrow>
   onItemSelect props v (st, p) =
     (st\<lparr>sv_value := []\<rparr>,
      (case ac_onSelect props of Some g \<Rightarrow> g v | None \<Rightarrow> id)
        (case ac_onInputChange props of Some f \<Rightarrow> f [] p | None \<Rightarrow> p))"
  by (simp add: onItemSelect_def clear_def updateValue_def split: option.splits)

end
