(* ===== verification/TreeChart.thy ===== *)
theory TreeChart
  imports Prelude
begin

text \<open>
  The two-level tree chart of \<open>src/src/TreeChart\<close>: the component \<open>TreeChart\<close>
  (\<open>TreeChart/index.tsx\<close>), the leaves it renders (\<open>Leaf/index.tsx\<close>) and the curved
  lines between them (\<open>TreeChartLine/index.tsx\<close>). The chart data is a tree of
  \<open>TreeChartData\<close> objects; the component keeps references to nodes of it (the current root,
  the stack of previous roots and the leaf whose children are shown as a second level), and
  compares them with \<open>===\<close>. A node is named here by its path of child indices from the root of
  \<open>treeChartData\<close>, so that reference equality is equality of paths; this identifies the
  objects faithfully when the data is a tree (no object occurs twice in it), which is how the
  chart is fed. The browser window is the field \<open>tc_window\<close> of the state:
  \<open>Some w\<close> is \<open>window.innerWidth = w\<close>, \<open>None\<close> a server render without \<open>window\<close>.
  Child components are expanded in place, and HTML entities of the markup are kept as written.
\<close>

subsection \<open>Data\<close>

datatype tree_data = TreeData (td_name: "string option") (td_url: "string option")
  (td_leaves: "tree_data list option") (td_value: "rat option") (td_percentage: "rat option")

type_synonym node_path = "nat list"

fun node_at :: "tree_data \<Rightarrow> node_path \<Rightarrow> tree_data option" where
  "node_at t [] = Some t"
| "node_at t (i # p) =
     (case td_leaves t of Some ls \<Rightarrow> if i < length ls then node_at (ls ! i) p else None | None \<Rightarrow> None)"

text \<open>Truthiness of an optional number, and \<open>x > c\<close> with \<open>undefined > c\<close> false.\<close>

definition js_truthy_num :: "rat option \<Rightarrow> bool" where
  "js_truthy_num x = (case x of Some v \<Rightarrow> v \<noteq> 0 | None \<Rightarrow> False)"

definition js_gt :: "rat option \<Rightarrow> rat \<Rightarrow> bool" where
  "js_gt x c = (case x of Some v \<Rightarrow> c < v | None \<Rightarrow> False)"

text \<open>\<open>leaf.leaves && leaf.leaves.length > 0\<close>.\<close>

definition hasLeaves :: "tree_data \<Rightarrow> bool" where
  "hasLeaves leaf = (case td_leaves leaf of Some ls \<Rightarrow> ls \<noteq> [] | None \<Rightarrow> False)"

text \<open>A line break followed by the indentation a template literal of the markup carries.\<close>

definition nl_indent :: "nat \<Rightarrow> string" where
  "nl_indent n = CHR 0x0A # replicate n (CHR '' '')"

subsection \<open>\<open>TreeChartLine\<close>\<close>

text \<open>The thickness of a line: above 20\% large, above 8\% medium, else small.\<close>

definition line_size :: "rat option \<Rightarrow> string" where
  "line_size fraction = (if js_gt fraction (1 / 5) then ''lg'' else if js_gt fraction (2 / 25) then ''md'' else ''sm'')"

text \<open>The markup the curved lines \<open>Down\<close> and \<open>Up\<close> share.\<close>

definition curve_svg ::
  "string \<Rightarrow> string \<Rightarrow> string \<Rightarrow> string \<Rightarrow> string \<Rightarrow> string \<Rightarrow> string \<Rightarrow> (string \<times> attr_val) list \<Rightarrow> vnode" where
  "curve_svg w h viewBox cls d stroke strokeWidth transform =
     VElem ''svg'' [(''width'', AStr w), (''height'', AStr h), (''viewBox'', AStr viewBox), (''className'', AStr cls)]
       [VElem ''g'' [(''stroke'', AStr ''none''), (''strokeWidth'', AStr ''1''), (''fill'', AStr ''none''),
                     (''fillRule'', AStr ''evenodd'')]
          [VElem ''path'' ([(''d'', AStr d), (''stroke'', AStr stroke), (''strokeWidth'', AStr strokeWidth)] @ transform) []]]"

definition Down :: "string \<Rightarrow> vnode" where
  "Down sz =
     (if sz = ''sm'' then curve_svg ''151px'' ''111px'' ''0 0 151 111'' ''tree-chart__lines--down tree-chart__lines--sm''
         ''M0,108.5 L19.7101992,108.5 C52.4210178,108.5 81.331361,87.2289911 91.0652075,56 L94.7602508,44.1452336 C102.314073,19.9103914 124.616956,3.2981265 150,3 L150,3''
         ''#00AAA4'' ''5'' [(''transform'', AStr ''translate(75.000000, 55.750000) scale(1, -1) translate(-75.000000, -55.750000) '')]
      else if sz = ''md'' then curve_svg ''151px'' ''116px'' ''0 0 151 116'' ''tree-chart__lines--down tree-chart__lines--md''
         ''M0,110.5 L19.7101992,110.5 C52.4210178,110.5 81.331361,89.2289911 91.0652075,58 L94.7602508,46.1452336 C102.314073,21.9103914 124.616956,5.2981265 150,5 L150,5''
         ''#00817D'' ''10'' [(''transform'', AStr ''translate(75.000000, 57.750000) scale(1, -1) translate(-75.000000, -57.750000) '')]
      else if sz = ''lg'' then curve_svg ''151px'' ''121px'' ''0 0 151 121'' ''tree-chart__lines--down tree-chart__lines--lg''
         ''M0,113.5 L19.7101992,113.5 C52.4210178,113.5 81.331361,92.2289911 91.0652075,61 L94.7602508,49.1452336 C102.314073,24.9103914 124.616956,8.2981265 150,8 L150,8''
         ''#004E4B'' ''15'' [(''transform'', AStr ''translate(75.000000, 60.750000) scale(1, -1) translate(-75.000000, -60.750000) '')]
      else VNull)"

definition Up :: "string \<Rightarrow> vnode" where
  "Up sz =
     (if sz = ''sm'' then curve_svg ''151px'' ''110px'' ''0 0 151 110'' ''tree-chart__lines--up tree-chart__lines--sm''
         ''M0,107.503557 L19.7101992,107.503557 C52.4210178,107.503557 81.331361,86.2325484 91.0652075,55.0035573 L94.7602508,43.1487909 C102.278005,19.0296651 124.738155,2.70685427 150,3.00355727 L150,3.00355727''
         ''#00AAA4'' ''5'' []
      else if sz = ''md'' then curve_svg ''151px'' ''115px'' ''0 0 151 115'' ''tree-chart__lines--up tree-chart__lines--md''
         ''M0,109.503557 L19.7101992,109.503557 C52.4210178,109.503557 81.331361,88.2325484 91.0652075,57.0035573 L94.7602508,45.1487909 C102.278005,21.0296651 124.738155,4.70685427 150,5.00355727 L150,5.00355727''
         ''#00817D'' ''10'' []
      else if sz = ''lg'' then curve_svg ''151px'' ''120px'' ''0 0 151 120'' ''tree-chart__lines--up tree-chart__lines--lg''
         ''M0,112.503557 L19.7101992,112.503557 C52.4210178,112.503557 81.331361,91.2325484 91.0652075,60.0035573 L94.7602508,48.1487909 C102.278005,24.0296651 124.738155,7.70685427 150,8.00355727 L150,8.00355727''
         ''#004E4B'' ''15'' []
      else VNull)"

definition Straight :: "string \<Rightarrow> vnode" where
  "Straight sz =
     (let (width, color) = (if sz = ''sm'' then (5 :: rat, ''#00AAA4'') else if sz = ''md'' then (10, ''#00817D'')
                            else (15, ''#004E4B''))
      in VElem ''svg'' [(''height'', ANum (Num width)),
                        (''className'', AStr (''tree-chart__lines--straight tree-chart__lines--'' @ sz))]
           [VElem ''rect'' [(''fill'', AStr color), (''x'', AStr ''0''), (''y'', AStr ''0''), (''width'', AStr ''100%''),
                            (''height'', ANum (Num width))] []])"

text \<open>\<open>TreeChartLine\<close>; an absent direction (\<open>directions[id]\<close> past the end) renders nothing.\<close>

definition TreeChartLine :: "string option \<Rightarrow> rat option \<Rightarrow> vnode" where
  "TreeChartLine direction fraction =
     (let sz = line_size fraction
      in case direction of
           Some d \<Rightarrow> if d = ''up'' then Up sz else if d = ''straight'' then Straight sz
                     else if d = ''down'' then Down sz else VNull
         | None \<Rightarrow> VNull)"

subsection \<open>\<open>Leaf\<close>\<close>

text \<open>\<open>getName\<close> cuts a name longer than 40 characters.\<close>

definition getName :: "string \<Rightarrow> string" where
  "getName name = (if 40 < length name then take 40 name @ ''...'' else name)"

definition getBorderClass :: "rat option \<Rightarrow> string" where
  "getBorderClass percentage =
     (if js_gt percentage (1 / 5) then ''tree-chart__leaf--lg''
      else if js_gt percentage (2 / 25) then ''tree-chart__leaf--md'' else ''tree-chart__leaf--sm'')"

text \<open>
  \<open>renderDetail\<close>: the salary link or the formatted value, through \<open>&&\<close>, so that an empty url
  renders \<open>''''\<close> and a value \<open>0\<close> renders the number \<open>0\<close>. The \<open>numeral\<close> format \<open>'$0,0'\<close> is
  the parameter \<open>fmt\<close>.
\<close>

definition renderDetail :: "(rat \<Rightarrow> string) \<Rightarrow> tree_data \<Rightarrow> string option \<Rightarrow> vnode" where
  "renderDetail fmt leaf detailString =
     (if detailString = Some ''link'' then
        (case td_url leaf of
           None \<Rightarrow> VNull
         | Some u \<Rightarrow> if u = [] then VText []
             else VElem ''div'' [(''className'', AStr ''tree-chart__salaries'')]
                    [VElem ''a'' [(''href'', AStr u), (''onClick'', AHandler ''stopPropagation'' []),
                                  (''target'', AStr ''_blank''), (''rel'', AStr ''noopener'')]
                       [VText ''View salaries &raquo;'']])
      else if detailString = Some ''comp'' then
        (case td_value leaf of
           None \<Rightarrow> VNull
         | Some v \<Rightarrow> if v = 0 then VText ''0''
             else VElem ''div'' [(''className'', AStr ''tree-chart__salaries'')]
                    [VElem ''span'' [(''className'', AStr ''tree-chart__comp'')] [VText (fmt v)]])
      else VText [])"

text \<open>\<open>renderLeaves\<close>: the first three children of the active leaf; a child without a name throws.\<close>

definition renderLeaves :: "(rat \<Rightarrow> string) \<Rightarrow> string option \<Rightarrow> tree_data list \<Rightarrow> js_error + vnode list" where
  "renderLeaves fmt detailToShow leaves =
     sequence_sum (map (\<lambda>(leaf, id).
        case td_name leaf of
          None \<Rightarrow> Inl TypeError
        | Some n \<Rightarrow> Inr (VElem ''div''
            [(''key'', ANum (Num (of_nat id))),
             (''className'', AStr (''tree-chart__leaf '' @ getBorderClass (td_percentage leaf) @ nl_indent 18 @
                                   (if hasLeaves leaf then ''tree-chart__leaf--link'' else []) @ nl_indent 18))]
            [VText (getName n), renderDetail fmt leaf detailToShow]))
       (zip (take 3 leaves) [0..<length (take 3 leaves)]))"

text \<open>
  The curved lines to a list of leaves (\<open>TreeChart.renderLines\<close>, which \<open>Leaf\<close> receives as a
  prop): one per leaf, past the third without a direction.
\<close>

definition renderLines :: "tree_data list \<Rightarrow> vnode list" where
  "renderLines leaves =
     (let directions = (if length leaves = 1 then [''straight''] else if length leaves = 2 then [''up'', ''down'']
                        else [''up'', ''straight'', ''down''])
      in map (\<lambda>(leaf, id). TreeChartLine (if id < length directions then Some (directions ! id) else None)
                                         (td_percentage leaf))
           (zip leaves [0..<length leaves]))"

text \<open>
  \<open>Leaf.render\<close> for the leaf at path \<open>p\<close>: nothing without a percentage; the leaf, and below it
  its children when it is the second active leaf. Reading the length of an absent name throws.
\<close>

definition leaf_render ::
  "(rat \<Rightarrow> string) \<Rightarrow> string option \<Rightarrow> node_path option \<Rightarrow> node_path \<Rightarrow> tree_data \<Rightarrow> js_error + vnode" where
  "leaf_render fmt detailToShow secondActiveLeaf p leaf =
     (if \<not> js_truthy_num (td_percentage leaf) then Inr VNull
      else case td_name leaf of
        None \<Rightarrow> Inl TypeError
      | Some n \<Rightarrow>
          (let second = (case td_leaves leaf of
                           Some ls \<Rightarrow> if secondActiveLeaf = Some p \<and> hasLeaves leaf then
                               (case renderLeaves fmt detailToShow ls of
                                  Inl e \<Rightarrow> Inl e
                                | Inr elts \<Rightarrow> Inr (VElem ''React.Fragment'' []
                                    [VElem ''div'' [(''className'', AStr ''tree-chart__lines''),
                                                    (''style'', AStyleStr [(''position'', ''absolute''), (''left'', ''330px'')])]
                                       (renderLines ls),
                                     VElem ''div'' [(''className'', AStr (''tree-chart__leaves '' @
                                                      (if length ls = 1 then ''tree-chart__leaves--single'' else []))),
                                                    (''style'', AStyleStr [(''position'', ''absolute''), (''left'', ''450px'')])]
                                       elts]))
                             else Inr VNull
                         | None \<Rightarrow> Inr VNull)
           in case second of
                Inl e \<Rightarrow> Inl e
              | Inr secondElt \<Rightarrow> Inr (VElem ''div'' [(''key'', AStr n), (''className'', AStr ''tree-chart__leaf_container'')]
                  [VElem ''div''
                     [(''className'', AStr (''tree-chart__leaf'' @ nl_indent 12 @ getBorderClass (td_percentage leaf) @
                                            nl_indent 12 @ (if hasLeaves leaf then ''tree-chart__leaf--link'' else []))),
                      (''onClick'', AHandler ''handleSetRoot'' []),
                      (''title'', AStr (if 40 < length n then n else []))]
                     [VText (getName n),
                      if hasLeaves leaf then VElem ''i'' [(''className'', AStr ''icon-right'')] [] else VText [],
                      renderDetail fmt leaf detailToShow],
                   secondElt])))"

subsection \<open>\<open>TreeChart\<close>: state and handlers\<close>

record tc_props =
  tc_treeChartData :: "tree_data option"
  tc_detailToShow :: "string option"
  tc_showTwoLevels :: bool

text \<open>\<open>TreeChartState\<close>, with the window the handlers read.\<close>

record tc_state =
  tc_props :: tc_props
  tc_window :: "int option"
  currentRoot :: "node_path option"
  prevRoots :: "node_path option list"
  secondActiveLeaf :: "node_path option"

definition tabletBreakpoint :: int where
  "tabletBreakpoint = 767"

text \<open>\<open>windowIsDefined() && window.innerWidth > tabletBreakpoint\<close>.\<close>

definition isWide :: "int option \<Rightarrow> bool" where
  "isWide w = (case w of Some x \<Rightarrow> tabletBreakpoint < x | None \<Rightarrow> False)"

definition tc_node :: "tc_state \<Rightarrow> node_path \<Rightarrow> tree_data option" where
  "tc_node s p = (case tc_treeChartData (tc_props s) of Some t \<Rightarrow> node_at t p | None \<Rightarrow> None)"

text \<open>\<open>currentRoot && currentRoot.leaves\<close>: the current root's path and its children.\<close>

definition current_leaves :: "tc_state \<Rightarrow> (node_path \<times> tree_data list) option" where
  "current_leaves s =
     (case currentRoot s of
        Some p \<Rightarrow> (case tc_node s p of Some n \<Rightarrow> map_option (\<lambda>ls. (p, ls)) (td_leaves n) | None \<Rightarrow> None)
      | None \<Rightarrow> None)"

text \<open>The loop \<open>for (const leaf of ...) if (leaf.leaves) { ...; break; }\<close>: the first child with children.\<close>

fun first_with_leaves :: "nat \<Rightarrow> tree_data list \<Rightarrow> nat option" where
  "first_with_leaves i [] = None"
| "first_with_leaves i (l # ls) = (if td_leaves l \<noteq> None then Some i else first_with_leaves (Suc i) ls)"

definition new_TreeChart :: "tc_props \<Rightarrow> int option \<Rightarrow> tc_state" where
  "new_TreeChart props w =
     \<lparr>tc_props = props, tc_window = w, currentRoot = map_option (\<lambda>_. []) (tc_treeChartData props), prevRoots = [],
      secondActiveLeaf =
        (if tc_showTwoLevels props \<and> isWide w then
           (case tc_treeChartData props of
              Some t \<Rightarrow> (case td_leaves t of Some ls \<Rightarrow> map_option (\<lambda>i. [i]) (first_with_leaves 0 ls) | None \<Rightarrow> None)
            | None \<Rightarrow> None)
         else None)\<rparr>"

text \<open>\<open>handleResize\<close>: set the second active leaf if none is set, or clear it in a narrow window.\<close>

definition handleResize :: "tc_state \<Rightarrow> tc_state" where
  "handleResize s =
     (case (if tc_showTwoLevels (tc_props s) \<and> isWide (tc_window s) then current_leaves s else None) of
        Some (p, ls) \<Rightarrow>
          (case first_with_leaves 0 ls of
             Some i \<Rightarrow> if secondActiveLeaf s = None then s\<lparr>secondActiveLeaf := Some (p @ [i])\<rparr> else s
           | None \<Rightarrow> s)
      | None \<Rightarrow> if secondActiveLeaf s \<noteq> None then s\<lparr>secondActiveLeaf := None\<rparr> else s)"

text \<open>\<open>componentDidMount\<close> runs \<open>handleResize\<close> once after the constructor.\<close>

definition mount_TreeChart :: "tc_props \<Rightarrow> int option \<Rightarrow> tc_state" where
  "mount_TreeChart props w = handleResize (new_TreeChart props w)"

definition setRoot :: "node_path \<Rightarrow> tc_state \<Rightarrow> tc_state" where
  "setRoot leaf s =
     (if isWide (tc_window s) \<and> tc_showTwoLevels (tc_props s) then s\<lparr>secondActiveLeaf := Some leaf\<rparr>
      else s\<lparr>currentRoot := Some leaf, prevRoots := prevRoots s @ [currentRoot s]\<rparr>)"

text \<open>\<open>Leaf.handleSetRoot\<close>: a click reaches \<open>setRoot\<close> only on a leaf whose \<open>leaves\<close> is set.\<close>

definition handleSetRoot :: "node_path \<Rightarrow> tree_data \<Rightarrow> tc_state \<Rightarrow> tc_state" where
  "handleSetRoot p leaf s = (if td_leaves leaf \<noteq> None then setRoot p s else s)"

definition handleOnClickBack :: "tc_state \<Rightarrow> tc_state" where
  "handleOnClickBack s =
     (if prevRoots s \<noteq> [] then s\<lparr>currentRoot := last (prevRoots s), prevRoots := butlast (prevRoots s)\<rparr> else s)"

subsection \<open>\<open>TreeChart.render\<close>\<close>

text \<open>
  The padding class: the second active leaf first or last of at least two children, each
  with at least two children. Reading \<open>leaves.length\<close> of a node without \<open>leaves\<close> throws.
\<close>

definition shiftClass :: "tc_state \<Rightarrow> node_path \<Rightarrow> tree_data \<Rightarrow> js_error + string" where
  "shiftClass s p cur =
     (case secondActiveLeaf s of
        Some q \<Rightarrow>
          if \<not> tc_showTwoLevels (tc_props s) then Inr []
          else (case td_leaves cur of
                  None \<Rightarrow> Inl TypeError
                | Some ls \<Rightarrow>
                    if \<not> 1 < length ls then Inr []
                    else (case (case tc_node s q of Some n \<Rightarrow> td_leaves n | None \<Rightarrow> None) of
                            None \<Rightarrow> Inl TypeError
                          | Some sls \<Rightarrow>
                              if \<not> 1 < length sls then Inr []
                              else (let lastIndex = (if length ls = 2 then 1 else 2 :: nat)
                                    in if q = p @ [0] then Inr ''padding-top''
                                       else if q = p @ [lastIndex] then Inr ''padding-bottom'' else Inr [])))
      | None \<Rightarrow> Inr [])"

definition tc_legend :: vnode where
  "tc_legend =
     VElem ''div'' [(''className'', AStr ''tree-chart__legend'')]
       [VElem ''div'' [(''className'', AStr ''tree-chart__legend-row'')]
          [VElem ''div'' [(''className'', AStr ''tree-chart__legend-color tree-chart__legend-color--large'')] [],
           VElem ''div'' [] [VText ''More common (&gt; 20%)'']],
        VElem ''div'' [(''className'', AStr ''tree-chart__legend-row'')]
          [VElem ''div'' [(''className'', AStr ''tree-chart__legend-color tree-chart__legend-color--medium'')] [],
           VElem ''div'' [] [VText ''Somewhat common (8 - 20%)'']],
        VElem ''div'' [(''className'', AStr ''tree-chart__legend-row'')]
          [VElem ''div'' [(''className'', AStr ''tree-chart__legend-color tree-chart__legend-color--small'')] [],
           VElem ''div'' [] [VText ''Less common (&lt; 8%)'']]]"

text \<open>
  \<open>render\<close>: nothing without a current root (a path outside the data, which no reachable state
  holds, is read the same way); else the root, its lines and its first three leaves, and the
  legend.
\<close>

definition tc_render :: "(rat \<Rightarrow> string) \<Rightarrow> tc_state \<Rightarrow> js_error + vnode" where
  "tc_render fmt s =
     (case currentRoot s of
        None \<Rightarrow> Inr VNull
      | Some p \<Rightarrow>
          (case tc_node s p of
             None \<Rightarrow> Inr VNull
           | Some cur \<Rightarrow>
               (case shiftClass s p cur of
                  Inl e \<Rightarrow> Inl e
                | Inr shift \<Rightarrow>
                    (case (case td_leaves cur of
                             None \<Rightarrow> Inr [VNull]
                           | Some ls \<Rightarrow> sequence_sum (map (\<lambda>(l, i).
                               leaf_render fmt (tc_detailToShow (tc_props s)) (secondActiveLeaf s) (p @ [i]) l)
                               (zip (take 3 ls) [0..<length (take 3 ls)]))) of
                       Inl e \<Rightarrow> Inl e
                     | Inr leafElts \<Rightarrow> Inr (VElem ''React.Fragment'' []
                         [VElem ''div'' [(''className'', AStr (''tree-chart tree-chart--'' @ shift))]
                            [VElem ''div'' [(''className'', AStr ''tree-chart__left-container'')]
                               [VElem ''div'' [(''className'', AStr ''tree-chart__root'')]
                                  [VElem ''div'' [(''className'', AStr ''tree-chart__root__name'')]
                                     [case td_name cur of Some n \<Rightarrow> VText n | None \<Rightarrow> VNull],
                                   if prevRoots s \<noteq> [] then
                                     VElem ''div'' [(''onClick'', AHandler ''handleOnClickBack'' []),
                                                    (''className'', AStr ''tree-chart__back'')] [VText ''&laquo; back'']
                                   else VNull]],
                             VElem ''div'' [(''className'', AStr ''tree-chart__lines'')]
                               (case td_leaves cur of Some ls \<Rightarrow> renderLines ls | None \<Rightarrow> [VNull]),
                             VElem ''div'' [(''className'', AStr (''tree-chart__leaves '' @
                                 (case td_leaves cur of Some ls \<Rightarrow> if length ls = 1 then ''tree-chart__leaves--single'' else []
                                                       | None \<Rightarrow> [])))]
                               leafElts],
                          tc_legend])))))"

subsection \<open>Events and reachable states\<close>

text \<open>
  What the user and the browser do to a mounted chart: resize the window, click one of the
  first three children of the current root (a leaf with a percentage, since \<open>Leaf\<close> renders
  nothing otherwise; the second level has no click handler) or click the back link, which is
  shown while \<open>prevRoots\<close> is not empty.
\<close>

datatype tc_event = Resize "int option" | ClickLeaf nat | ClickBack

fun tc_step :: "tc_state \<Rightarrow> tc_event \<Rightarrow> tc_state option" where
  "tc_step s (Resize w) = Some (handleResize (s\<lparr>tc_window := w\<rparr>))"
| "tc_step s (ClickLeaf i) =
     (case current_leaves s of
        Some (p, ls) \<Rightarrow> if i < 3 \<and> i < length ls \<and> js_truthy_num (td_percentage (ls ! i))
                        then Some (handleSetRoot (p @ [i]) (ls ! i) s) else None
      | None \<Rightarrow> None)"
| "tc_step s ClickBack = (if prevRoots s \<noteq> [] then Some (handleOnClickBack s) else None)"

inductive tc_reachable :: "tc_state \<Rightarrow> bool" where
  mount: "tc_reachable (mount_TreeChart props w)"
| step: "tc_reachable s \<Longrightarrow> tc_step s e = Some s' \<Longrightarrow> tc_reachable s'"

text \<open>A reference to a node of the data that has a \<open>leaves\<close> array.\<close>

definition has_children :: "tc_state \<Rightarrow> node_path option \<Rightarrow> bool" where
  "has_children s r =
     (case r of Some p \<Rightarrow> (case tc_node s p of Some n \<Rightarrow> td_leaves n \<noteq> None | None \<Rightarrow> False) | None \<Rightarrow> False)"

text \<open>The previous roots, then the current root: each the parent of the next.\<close>

fun parent_chain :: "node_path option list \<Rightarrow> bool" where
  "parent_chain (a # b # rs) =
     ((case (a, b) of (Some x, Some y) \<Rightarrow> y \<noteq> [] \<and> butlast y = x | _ \<Rightarrow> False) \<and> parent_chain (b # rs))"
| "parent_chain _ = True"

text \<open>A node strictly below the node a reference names.\<close>

definition strictly_below :: "node_path option \<Rightarrow> node_path \<Rightarrow> bool" where
  "strictly_below r q = (case r of Some c \<Rightarrow> length c < length q \<and> take (length c) q = c | None \<Rightarrow> False)"

text \<open>
  The shape of the state: the current root is a node of the data, the previous roots are its
  ancestors, each with children, and a second active leaf has children, lies strictly below
  the current root, which then has children too. \<open>tc_inv\<close> adds that a second leaf is set
  only in a wide window with two levels.
\<close>

definition tc_wf :: "tc_state \<Rightarrow> bool" where
  "tc_wf s \<longleftrightarrow>
     (case currentRoot s of None \<Rightarrow> prevRoots s = [] | Some p \<Rightarrow> tc_node s p \<noteq> None) \<and>
     list_all (has_children s) (prevRoots s) \<and> parent_chain (prevRoots s @ [currentRoot s]) \<and>
     (case secondActiveLeaf s of
        Some q \<Rightarrow> has_children s (currentRoot s) \<and> has_children s (Some q) \<and> strictly_below (currentRoot s) q
      | None \<Rightarrow> True)"

definition tc_inv :: "tc_state \<Rightarrow> bool" where
  "tc_inv s \<longleftrightarrow> tc_wf s \<and>
     (secondActiveLeaf s \<noteq> None \<longrightarrow> tc_showTwoLevels (tc_props s) \<and> isWide (tc_window s))"

text \<open>Every node of the data has a name.\<close>

fun all_named :: "tree_data \<Rightarrow> bool" where
  "all_named (TreeData n u ls v pc) = (n \<noteq> None \<and> (case ls of Some xs \<Rightarrow> (\<forall>l\<in>set xs. all_named l) | None \<Rightarrow> True))"

subsection \<open>Lemmas\<close>

lemma node_at_snoc:
  "node_at t (p @ [i]) =
     (case node_at t p of
        Some n \<Rightarrow> (case td_leaves n of Some ls \<Rightarrow> if i < length ls then Some (ls ! i) else None | None \<Rightarrow> None)
      | None \<Rightarrow> None)"
  by (induction t p rule: node_at.induct) (auto split: option.splits)

lemma first_with_leaves_Some:
  "first_with_leaves k ls = Some i \<Longrightarrow> k \<le> i \<and> i - k < length ls \<and> td_leaves (ls ! (i - k)) \<noteq> None"
  by (induction k ls rule: first_with_leaves.induct) (auto split: if_splits simp: nth_Cons')

lemma first_with_leaves_0:
  "first_with_leaves 0 ls = Some i \<Longrightarrow> i < length ls \<and> td_leaves (ls ! i) \<noteq> None"
  using first_with_leaves_Some [of 0 ls i] by simp

lemma tc_node_update [simp]:
  "tc_node (s\<lparr>secondActiveLeaf := x\<rparr>) = tc_node s"
  "tc_node (s\<lparr>currentRoot := c, prevRoots := r\<rparr>) = tc_node s"
  "tc_node (s\<lparr>tc_window := w\<rparr>) = tc_node s"
  by (simp_all add: tc_node_def [abs_def])

lemma has_children_update [simp]:
  "has_children (s\<lparr>secondActiveLeaf := x\<rparr>) = has_children s"
  "has_children (s\<lparr>currentRoot := c, prevRoots := r\<rparr>) = has_children s"
  "has_children (s\<lparr>tc_window := w\<rparr>) = has_children s"
  by (simp_all add: has_children_def [abs_def])

lemma has_children_Some:
  "has_children s r \<longleftrightarrow> (\<exists>p n. r = Some p \<and> tc_node s p = Some n \<and> td_leaves n \<noteq> None)"
  by (auto simp: has_children_def split: option.splits)

lemma current_leaves_SomeD:
  "current_leaves s = Some (p, ls) \<Longrightarrow>
   currentRoot s = Some p \<and> (\<exists>n. tc_node s p = Some n \<and> td_leaves n = Some ls)"
  by (auto simp: current_leaves_def split: option.splits)

lemma current_leaves_children:
  "current_leaves s = Some (p, ls) \<Longrightarrow> has_children s (currentRoot s)"
  by (auto dest!: current_leaves_SomeD simp: has_children_Some)

lemma child_has_children:
  "current_leaves s = Some (p, ls) \<Longrightarrow> i < length ls \<Longrightarrow> td_leaves (ls ! i) \<noteq> None \<Longrightarrow>
   has_children s (Some (p @ [i]))"
  by (auto dest!: current_leaves_SomeD simp: has_children_def tc_node_def node_at_snoc split: option.splits)

lemma parent_chain_snoc:
  "parent_chain (xs @ [a, b]) \<longleftrightarrow>
     parent_chain (xs @ [a]) \<and> (case (a, b) of (Some x, Some y) \<Rightarrow> y \<noteq> [] \<and> butlast y = x | _ \<Rightarrow> False)"
  by (induction xs rule: parent_chain.induct) auto

lemma parent_chain_butlast: "parent_chain (xs @ [a]) \<Longrightarrow> parent_chain xs"
  by (induction xs rule: parent_chain.induct) auto

lemma tc_props_mount [simp]: "tc_props (mount_TreeChart props w) = props"
  by (simp add: mount_TreeChart_def handleResize_def new_TreeChart_def split: option.split prod.split)

lemma tc_wf_window [simp]: "tc_wf (s\<lparr>tc_window := w\<rparr>) = tc_wf s"
  by (simp add: tc_wf_def split: option.split)

lemma strictly_below_child: "strictly_below (Some p) (p @ [i])"
  by (simp add: strictly_below_def)

lemma handleResize_inv:
  assumes wf: "tc_wf s" shows "tc_inv (handleResize s)"
proof (cases "tc_showTwoLevels (tc_props s) \<and> isWide (tc_window s) \<and> current_leaves s \<noteq> None")
  case True
  then obtain p ls where cl: "current_leaves s = Some (p, ls)"
    and tw: "tc_showTwoLevels (tc_props s)" "isWide (tc_window s)" by auto
  have cur: "has_children s (currentRoot s)" and cr: "currentRoot s = Some p"
    using current_leaves_children [OF cl] current_leaves_SomeD [OF cl] by simp_all
  show ?thesis
  proof (cases "first_with_leaves 0 ls")
    case None
    thus ?thesis using wf tw cl by (simp add: handleResize_def tc_inv_def)
  next
    case (Some i)
    have "has_children s (Some (p @ [i]))"
      using first_with_leaves_0 [OF Some] child_has_children [OF cl] by blast
    thus ?thesis using wf tw cl Some cur cr
      by (auto simp: handleResize_def tc_inv_def tc_wf_def strictly_below_child)
  qed
next
  case False
  then have "handleResize s = (if secondActiveLeaf s \<noteq> None then s\<lparr>secondActiveLeaf := None\<rparr> else s)"
    by (cases "current_leaves s") (auto simp: handleResize_def)
  thus ?thesis using wf by (auto simp: tc_inv_def tc_wf_def split: option.split)
qed

lemma tc_wf_new: "tc_wf (new_TreeChart props w)"
proof (cases "tc_treeChartData props")
  case (Some t)
  have "has_children (new_TreeChart props w) (Some [i])" "has_children (new_TreeChart props w) (Some [])"
    if "td_leaves t = Some ls" "first_with_leaves 0 ls = Some i" for ls i
    using that first_with_leaves_0 [OF that(2)] Some
    by (auto simp: has_children_def tc_node_def new_TreeChart_def)
  thus ?thesis using Some
    by (auto simp: tc_wf_def new_TreeChart_def tc_node_def strictly_below_def split: option.split)
qed (simp add: tc_wf_def new_TreeChart_def)

lemma tc_inv_mount: "tc_inv (mount_TreeChart props w)"
  unfolding mount_TreeChart_def by (rule handleResize_inv [OF tc_wf_new])

lemma strictly_below_parent:
  assumes "strictly_below (Some c) q" shows "strictly_below (Some (butlast c)) q"
proof -
  have len: "length c < length q" and q: "q = c @ drop (length c) q"
    using assms append_take_drop_id [of "length c" q] by (simp_all add: strictly_below_def)
  have "take (length c - 1) q = butlast c" by (subst q) (simp add: butlast_conv_take)
  thus ?thesis using len by (simp add: strictly_below_def)
qed

lemma tc_inv_click:
  assumes inv: "tc_inv s" and cl: "current_leaves s = Some (p, ls)" and i: "i < length ls"
  shows "tc_inv (handleSetRoot (p @ [i]) (ls ! i) s)"
proof (cases "td_leaves (ls ! i) = None")
  case False
  have child: "has_children s (Some (p @ [i]))" using child_has_children [OF cl i False] .
  have cur: "has_children s (currentRoot s)" and cr: "currentRoot s = Some p"
    using current_leaves_children [OF cl] current_leaves_SomeD [OF cl] by simp_all
  show ?thesis
  proof (cases "isWide (tc_window s) \<and> tc_showTwoLevels (tc_props s)")
    case True
    thus ?thesis using inv False child cur cr
      by (auto simp: handleSetRoot_def setRoot_def tc_inv_def tc_wf_def strictly_below_child)
  next
    case narrow: False
    then have "secondActiveLeaf s = None" using inv by (auto simp: tc_inv_def)
    moreover have "parent_chain (prevRoots s @ [Some p, Some (p @ [i])])"
      using inv cr by (simp add: parent_chain_snoc tc_inv_def tc_wf_def)
    ultimately show ?thesis using inv False child cur cr narrow
      by (auto simp: handleSetRoot_def setRoot_def tc_inv_def tc_wf_def has_children_Some)
  qed
qed (simp add: handleSetRoot_def inv)

lemma tc_inv_back:
  assumes inv: "tc_inv s" and ne: "prevRoots s \<noteq> []"
  shows "tc_inv (handleOnClickBack s)"
proof -
  obtain ps a where pr: "prevRoots s = ps @ [a]" using ne by (cases "prevRoots s" rule: rev_cases) auto
  have wf: "tc_wf s" using inv by (simp add: tc_inv_def)
  then have ha: "has_children s a" and chain: "parent_chain (ps @ [a, currentRoot s])"
    by (simp_all add: tc_wf_def pr)
  then obtain x where a: "a = Some x" by (auto simp: has_children_Some)
  obtain c where c: "currentRoot s = Some c" "butlast c = x"
    using chain a by (cases "currentRoot s") (auto simp: parent_chain_snoc)
  have below: "strictly_below (Some x) q" if "secondActiveLeaf s = Some q" for q
    using wf that c strictly_below_parent [of c q] by (simp add: tc_wf_def)
  have chain': "parent_chain (ps @ [a])" using chain parent_chain_butlast [of "ps @ [a]"] by simp
  show ?thesis using inv wf ha a pr chain' below
    by (auto simp: handleOnClickBack_def tc_inv_def tc_wf_def has_children_Some split: option.split)
qed

lemma tc_inv_step: "tc_inv s \<Longrightarrow> tc_step s e = Some s' \<Longrightarrow> tc_inv s'"
proof (induction s e rule: tc_step.induct)
  case (1 s w)
  then show ?case using handleResize_inv [of "s\<lparr>tc_window := w\<rparr>"] by (simp add: tc_inv_def)
next
  case (2 s i)
  then obtain p ls where "current_leaves s = Some (p, ls)" "i < length ls"
    "s' = handleSetRoot (p @ [i]) (ls ! i) s"
    by (auto split: option.splits if_splits)
  then show ?case using tc_inv_click [OF "2.prems"(1)] by simp
next
  case (3 s)
  then show ?case using tc_inv_back by (auto split: if_splits)
qed

lemma tc_reachable_inv: "tc_reachable s \<Longrightarrow> tc_inv s"
  by (induction rule: tc_reachable.induct) (auto intro: tc_inv_mount tc_inv_step)

lemma all_named_name: "all_named n \<Longrightarrow> td_name n \<noteq> None"
  by (cases n) simp

lemma all_named_children: "all_named n \<Longrightarrow> td_leaves n = Some ls \<Longrightarrow> l \<in> set ls \<Longrightarrow> all_named l"
  by (cases n) auto

lemma node_at_all_named: "all_named t \<Longrightarrow> node_at t p = Some n \<Longrightarrow> all_named n"
proof (induction t p rule: node_at.induct)
  case (2 t i p)
  then obtain ls where "td_leaves t = Some ls" "i < length ls" "node_at (ls ! i) p = Some n"
    by (auto split: option.splits if_splits)
  thus ?case using 2 all_named_children [of t ls "ls ! i"] by simp
qed simp

lemma renderLeaves_Inr:
  "(\<And>l. l \<in> set ls \<Longrightarrow> all_named l) \<Longrightarrow> \<exists>vs. renderLeaves fmt d ls = Inr vs"
  unfolding renderLeaves_def
  by (rule sequence_sum_zip_Inr) (auto dest: all_named_name split: option.split)

lemma leaf_render_Inr:
  assumes "all_named leaf" shows "\<exists>v. leaf_render fmt d second p leaf = Inr v"
proof -
  obtain n where n: "td_name leaf = Some n" using all_named_name [OF assms] by auto
  show ?thesis
  proof (cases "td_leaves leaf")
    case (Some ls)
    obtain vs where "renderLeaves fmt d ls = Inr vs"
      using renderLeaves_Inr all_named_children [OF assms Some] by blast
    thus ?thesis using n Some by (simp add: leaf_render_def Let_def)
  qed (simp add: leaf_render_def n)
qed

lemma shiftClass_Inr:
  assumes inv: "tc_inv s" and cr: "currentRoot s = Some p" and cur: "tc_node s p = Some cur"
  shows "\<exists>c. shiftClass s p cur = Inr c"
proof (cases "secondActiveLeaf s")
  case (Some q)
  then have "has_children s (Some p)" "has_children s (Some q)"
    using inv cr by (simp_all add: tc_inv_def tc_wf_def)
  then obtain ls n sls where "td_leaves cur = Some ls" "tc_node s q = Some n" "td_leaves n = Some sls"
    using cur by (auto simp: has_children_Some)
  thus ?thesis using Some by (simp add: shiftClass_def Let_def)
qed (simp add: shiftClass_def)

text \<open>
  C9: every state reachable from mounting by resizes, clicks on leaves and the back link
  satisfies \<open>tc_inv\<close>: the current root is a node of the data, the previous roots are its
  ancestors and have children, and a second active leaf has children, lies strictly below
  the current root, which has children too, and is set only in a wide window with two
  levels.
\<close>

theorem reachable_tc_inv: "tc_reachable s \<Longrightarrow> tc_inv s"
  by (induction rule: tc_reachable.induct) (auto intro: tc_inv_mount tc_inv_step)

text \<open>
  C16: in every state reachable from mounting by resizes and clicks, \<open>render\<close> returns without
  throwing when every node of the data has a name: the invariant makes the reads of
  \<open>currentRoot.leaves.length\<close> and \<open>secondActiveLeaf.leaves.length\<close> safe.
\<close>

theorem tc_render_total:
  assumes "tc_reachable s" and "case tc_treeChartData (tc_props s) of Some t \<Rightarrow> all_named t | None \<Rightarrow> True"
  shows "\<exists>v. tc_render fmt s = Inr v"
proof (cases "currentRoot s")
  case (Some p)
  show ?thesis
  proof (cases "tc_node s p")
    case (Some cur)
    have named: "all_named cur"
      using assms(2) Some node_at_all_named by (auto simp: tc_node_def split: option.splits)
    obtain c where c: "shiftClass s p cur = Inr c"
      using shiftClass_Inr [OF tc_reachable_inv [OF assms(1)] \<open>currentRoot s = Some p\<close> Some] by blast
    show ?thesis
    proof (cases "td_leaves cur")
      case (Some ls)
      have "\<exists>vs. sequence_sum (map (\<lambda>(l, i). leaf_render fmt (tc_detailToShow (tc_props s))
                         (secondActiveLeaf s) (p @ [i]) l) (zip (take 3 ls) [0..<length (take 3 ls)])) = Inr vs"
        by (rule sequence_sum_zip_Inr)
           (simp, metis leaf_render_Inr all_named_children [OF named Some] sum.disc(2))
      then obtain vs where "sequence_sum (map (\<lambda>(l, i). leaf_render fmt (tc_detailToShow (tc_props s))
                         (secondActiveLeaf s) (p @ [i]) l) (zip (take 3 ls) [0..<length (take 3 ls)])) = Inr vs" ..
      thus ?thesis using \<open>currentRoot s = Some p\<close> \<open>tc_node s p = Some cur\<close> c Some by (simp add: tc_render_def)
    qed (simp add: tc_render_def \<open>currentRoot s = Some p\<close> \<open>tc_node s p = Some cur\<close> c)
  qed (simp add: tc_render_def \<open>currentRoot s = Some p\<close>)
qed (simp add: tc_render_def)

text \<open>
  C3: in a narrow window (or with one level), clicking a leaf with children makes it the
  current root and pushes the old root; the back link then restores the state exactly.
\<close>

theorem click_back_roundtrip:
  assumes "current_leaves s = Some (p, ls)" "i < 3" "i < length ls" "js_truthy_num (td_percentage (ls ! i))"
    "td_leaves (ls ! i) \<noteq> None" "\<not> (isWide (tc_window s) \<and> tc_showTwoLevels (tc_props s))"
  shows "\<exists>s'. tc_step s (ClickLeaf i) = Some s' \<and> currentRoot s' = Some (p @ [i]) \<and>
           prevRoots s' = prevRoots s @ [Some p] \<and> tc_step s' ClickBack = Some s"
  using assms current_leaves_SomeD [OF assms(1)]
  by (auto simp: handleSetRoot_def setRoot_def handleOnClickBack_def)

text \<open>In a wide window with two levels a click on a leaf with children selects it as second level.\<close>

lemma click_selects_second:
  assumes "current_leaves s = Some (p, ls)" "i < 3" "i < length ls" "js_truthy_num (td_percentage (ls ! i))"
    "td_leaves (ls ! i) \<noteq> None" "isWide (tc_window s)" "tc_showTwoLevels (tc_props s)"
  shows "tc_step s (ClickLeaf i) = Some (s\<lparr>secondActiveLeaf := Some (p @ [i])\<rparr>)"
  using assms by (simp add: handleSetRoot_def setRoot_def)

text \<open>
  C20: the back link does not reset \<open>secondActiveLeaf\<close>: after it the second active leaf is
  unchanged and is not a child of the new current root, so no \<open>Leaf\<close> shows a second level
  (\<open>secondActiveLeaf === leaf\<close> fails for every child).
\<close>

theorem back_leaves_second_stale:
  assumes "tc_reachable s" "tc_step s ClickBack = Some s'" "secondActiveLeaf s = Some q"
  shows "secondActiveLeaf s' = Some q \<and> (\<exists>r. currentRoot s' = Some r \<and> (\<forall>i. q \<noteq> r @ [i]))"
proof -
  have inv: "tc_inv s" using tc_reachable_inv [OF assms(1)] .
  have ne: "prevRoots s \<noteq> []" and s': "s' = handleOnClickBack s" using assms(2) by (auto split: if_splits)
  obtain ps a where pr: "prevRoots s = ps @ [a]" using ne by (cases "prevRoots s" rule: rev_cases) auto
  have wf: "tc_wf s" using inv by (simp add: tc_inv_def)
  then have "has_children s a" and chain: "parent_chain (ps @ [a, currentRoot s])"
    by (simp_all add: tc_wf_def pr)
  then obtain x where a: "a = Some x" by (auto simp: has_children_Some)
  obtain c where c: "currentRoot s = Some c" "c \<noteq> []" "butlast c = x"
    using chain a by (cases "currentRoot s") (auto simp: parent_chain_snoc)
  have "strictly_below (Some c) q" using wf c assms(3) by (simp add: tc_wf_def)
  then have "length x + 1 < length q" using c(2) c(3) [symmetric] by (simp add: strictly_below_def)
  then have "\<forall>i. q \<noteq> x @ [i]" by auto
  thus ?thesis using s' pr a assms(3) by (simp add: handleOnClickBack_def)
qed

text \<open>A rendered leaf without a name throws (\<open>leaf.name.length\<close>).\<close>

lemma leaf_render_unnamed:
  "js_truthy_num (td_percentage leaf) \<Longrightarrow> td_name leaf = None \<Longrightarrow>
   leaf_render fmt d second p leaf = Inl TypeError"
  by (simp add: leaf_render_def)

end
