(* ===== verification/TimingUtils.thy ===== *)
theory TimingUtils
  imports Prelude
begin

text \<open>
  \<open>throttle\<close> and \<open>debounce\<close> of \<open>src/src/TimingUtils/index.ts\<close>. Each returns a wrapper that
  keeps its variables in a closure; the model makes them a record, together with what the
  browser keeps for the wrapper: its requested animation frames (\<open>throttle\<close>) or its pending
  timers and the clock (\<open>debounce\<close>), and the calls of \<open>func\<close> made so far, each with its
  argument list. Frame and timer ids count up from 1, as browsers hand them out, so an id is
  always truthy. The \<open>this\<close> the wrapper passes on is the module's and is not modelled.
\<close>

subsection \<open>\<open>throttle\<close>\<close>

record 'a throttle_state =
  th_latestArgs :: "'a list option"
  th_animationFrame :: "nat option"
  th_nextFrameId :: nat
  th_calls :: "'a list list"

definition throttle :: "'a throttle_state" where
  "throttle = \<lparr>th_latestArgs = None, th_animationFrame = None, th_nextFrameId = 1, th_calls = []\<rparr>"

text \<open>The wrapper: remember the arguments and request a frame unless one is pending.\<close>

definition throttled_call :: "'a list \<Rightarrow> 'a throttle_state \<Rightarrow> 'a throttle_state" where
  "throttled_call args s =
     (let s' = s\<lparr>th_latestArgs := Some args\<rparr>
      in if th_animationFrame s' = None
         then s'\<lparr>th_animationFrame := Some (th_nextFrameId s'), th_nextFrameId := Suc (th_nextFrameId s')\<rparr>
         else s')"

text \<open>\<open>later\<close>, run by the browser for the requested frame: \<open>func.apply(context, latestArgs)\<close>.\<close>

definition throttle_later :: "'a throttle_state \<Rightarrow> 'a throttle_state" where
  "throttle_later s =
     s\<lparr>th_animationFrame := None,
       th_calls := th_calls s @ [case th_latestArgs s of Some args \<Rightarrow> args | None \<Rightarrow> []]\<rparr>"

datatype 'a throttle_event = TCall "'a list" | TFrame

text \<open>The browser runs a frame callback only for a frame that was requested.\<close>

fun throttle_step :: "'a throttle_state \<Rightarrow> 'a throttle_event \<Rightarrow> 'a throttle_state option" where
  "throttle_step s (TCall args) = Some (throttled_call args s)"
| "throttle_step s TFrame = (if th_animationFrame s \<noteq> None then Some (throttle_later s) else None)"

fun throttle_run :: "'a throttle_state \<Rightarrow> 'a throttle_event list \<Rightarrow> 'a throttle_state option" where
  "throttle_run s [] = Some s"
| "throttle_run s (e # es) = (case throttle_step s e of Some s' \<Rightarrow> throttle_run s' es | None \<Rightarrow> None)"

subsection \<open>\<open>debounce\<close>\<close>

text \<open>
  \<open>timeoutId\<close> of the closure (\<open>undefined\<close> at first and never reset), the window's pending
  timers (id, due time, arguments) in the order they were set, the clock in milliseconds.
\<close>

record 'a debounce_state =
  db_timeoutId :: "nat option"
  db_timers :: "(nat \<times> nat \<times> 'a list) list"
  db_nextTimerId :: nat
  db_now :: nat
  db_calls :: "'a list list"

definition debounce :: "'a debounce_state" where
  "debounce = \<lparr>db_timeoutId = None, db_timers = [], db_nextTimerId = 1, db_now = 0, db_calls = []\<rparr>"

text \<open>\<open>window.clearTimeout(id)\<close>: an id that is no longer pending is ignored.\<close>

definition clearTimeout :: "nat \<Rightarrow> 'a debounce_state \<Rightarrow> 'a debounce_state" where
  "clearTimeout i s = s\<lparr>db_timers := filter (\<lambda>(j, _, _). j \<noteq> i) (db_timers s)\<rparr>"

text \<open>\<open>window.setTimeout(func, timeout, ...args)\<close>, returning the new id.\<close>

definition setTimeout :: "nat \<Rightarrow> 'a list \<Rightarrow> 'a debounce_state \<Rightarrow> nat \<times> 'a debounce_state" where
  "setTimeout timeout args s =
     (db_nextTimerId s,
      s\<lparr>db_timers := db_timers s @ [(db_nextTimerId s, db_now s + timeout, args)],
        db_nextTimerId := Suc (db_nextTimerId s)\<rparr>)"

text \<open>The wrapper: clear the last timer it set, then set a new one.\<close>

definition debounced_call :: "nat \<Rightarrow> 'a list \<Rightarrow> 'a debounce_state \<Rightarrow> 'a debounce_state" where
  "debounced_call timeout args s =
     (let s1 = (case db_timeoutId s of Some i \<Rightarrow> clearTimeout i s | None \<Rightarrow> s);
          (i, s2) = setTimeout timeout args s1
      in s2\<lparr>db_timeoutId := Some i\<rparr>)"

text \<open>
  Time passes by \<open>d\<close> milliseconds: every timer due by then runs \<open>func(...args)\<close>, earliest
  first and, at equal times, in the order they were set.
\<close>

definition advance :: "nat \<Rightarrow> 'a debounce_state \<Rightarrow> 'a debounce_state" where
  "advance d s =
     (let t = db_now s + d;
          due = sort_key (\<lambda>(_, due, _). due) (filter (\<lambda>(_, due, _). due \<le> t) (db_timers s))
      in s\<lparr>db_now := t, db_timers := filter (\<lambda>(_, due, _). t < due) (db_timers s),
           db_calls := db_calls s @ map (\<lambda>(_, _, args). args) due\<rparr>)"

datatype 'a debounce_event = DCall "'a list" | DWait nat

fun debounce_step :: "nat \<Rightarrow> 'a debounce_state \<Rightarrow> 'a debounce_event \<Rightarrow> 'a debounce_state" where
  "debounce_step timeout s (DCall args) = debounced_call timeout args s"
| "debounce_step timeout s (DWait d) = advance d s"

text \<open>At most one timer is pending, and it is the one \<open>timeoutId\<close> names.\<close>

definition db_inv :: "'a debounce_state \<Rightarrow> bool" where
  "db_inv s \<longleftrightarrow>
     (case db_timers s of [] \<Rightarrow> True | [(i, _, _)] \<Rightarrow> db_timeoutId s = Some i | _ \<Rightarrow> False) \<and>
     (\<forall>(i, _, _) \<in> set (db_timers s). i < db_nextTimerId s)"

subsection \<open>Lemmas\<close>

lemma throttle_calls_pending:
  "th_animationFrame s \<noteq> None \<Longrightarrow>
   throttle_run s (map TCall as @ es) =
     throttle_run (s\<lparr>th_latestArgs := (if as = [] then th_latestArgs s else Some (last as))\<rparr>) es"
proof (induction as arbitrary: s)
  case (Cons a as)
  have "throttle_run s (map TCall (a # as) @ es) = throttle_run (s\<lparr>th_latestArgs := Some a\<rparr>) (map TCall as @ es)"
    using Cons.prems by (auto simp: throttled_call_def Let_def)
  also have "\<dots> = throttle_run (s\<lparr>th_latestArgs := (if as = [] then Some a else Some (last as))\<rparr>) es"
    using Cons.IH [of "s\<lparr>th_latestArgs := Some a\<rparr>"] Cons.prems by simp
  finally show ?case by simp
qed simp

text \<open>
  A burst of calls between two frames requests one animation frame, and the frame invokes
  \<open>func\<close> once, with the arguments of the burst's last call.
\<close>

lemma throttle_burst:
  assumes "th_animationFrame s = None"
  shows "throttle_run s (map TCall (a # as) @ [TFrame]) =
    Some (s\<lparr>th_latestArgs := Some (last (a # as)), th_animationFrame := None,
            th_nextFrameId := Suc (th_nextFrameId s), th_calls := th_calls s @ [last (a # as)]\<rparr>)"
proof -
  let ?s1 = "s\<lparr>th_latestArgs := Some a, th_animationFrame := Some (th_nextFrameId s),
                th_nextFrameId := Suc (th_nextFrameId s)\<rparr>"
  have "throttle_run s (map TCall (a # as) @ [TFrame]) = throttle_run ?s1 (map TCall as @ [TFrame])"
    using assms by (simp add: throttled_call_def Let_def)
  also have "\<dots> = throttle_run (?s1\<lparr>th_latestArgs := (if as = [] then Some a else Some (last as))\<rparr>) [TFrame]"
    using throttle_calls_pending [of ?s1 as "[TFrame]"] by simp
  finally show ?thesis by (simp add: throttle_later_def)
qed

text \<open>A frame is pending only after a call, so \<open>later\<close> never applies \<open>func\<close> to \<open>null\<close>.\<close>

lemma throttle_run_args:
  "throttle_run s es = Some s' \<Longrightarrow> (th_animationFrame s \<noteq> None \<longrightarrow> th_latestArgs s \<noteq> None) \<Longrightarrow>
   th_animationFrame s' \<noteq> None \<longrightarrow> th_latestArgs s' \<noteq> None"
proof (induction s es rule: throttle_run.induct)
  case (2 s e es)
  then obtain s1 where s1: "throttle_step s e = Some s1" "throttle_run s1 es = Some s'"
    by (auto split: option.splits)
  have "th_animationFrame s1 \<noteq> None \<longrightarrow> th_latestArgs s1 \<noteq> None"
    using s1(1) "2.prems"(2) by (cases e) (auto simp: throttled_call_def throttle_later_def Let_def split: if_splits)
  then show ?case using "2.IH" [OF s1(1) s1(2)] by blast
qed simp

lemma db_inv_debounce: "db_inv debounce"
  by (simp add: db_inv_def debounce_def)

lemma db_inv_timers:
  "db_inv s \<Longrightarrow> db_timers s = [] \<or> (\<exists>due args. db_timers s = [(the (db_timeoutId s), due, args)] \<and>
     db_timeoutId s \<noteq> None)"
  by (auto simp: db_inv_def split: list.splits prod.splits)

text \<open>A call clears the one pending timer and sets a new one, due \<open>timeout\<close> from now.\<close>

lemma debounced_call_timers:
  "db_inv s \<Longrightarrow>
   debounced_call timeout args s =
     s\<lparr>db_timers := [(db_nextTimerId s, db_now s + timeout, args)], db_nextTimerId := Suc (db_nextTimerId s),
       db_timeoutId := Some (db_nextTimerId s)\<rparr>"
  by (drule db_inv_timers)
     (auto simp: debounced_call_def clearTimeout_def setTimeout_def split: option.splits)

lemma db_inv_call: "db_inv s \<Longrightarrow> db_inv (debounced_call timeout args s)"
  by (simp add: debounced_call_timers db_inv_def)

lemma db_inv_advance: "db_inv s \<Longrightarrow> db_inv (advance d s)"
  by (frule db_inv_timers) (auto simp: advance_def db_inv_def Let_def)

lemma db_inv_step: "db_inv s \<Longrightarrow> db_inv (debounce_step timeout s e)"
  by (cases e) (simp_all add: db_inv_call db_inv_advance)

text \<open>Within the timeout nothing runs and the new timer stays pending.\<close>

lemma debounce_wait_short:
  "db_inv s \<Longrightarrow> d < timeout \<Longrightarrow>
   db_calls (advance d (debounced_call timeout args s)) = db_calls s"
  by (simp add: debounced_call_timers advance_def)

lemma debounce_wait_long:
  "db_inv s \<Longrightarrow> timeout \<le> d \<Longrightarrow>
   db_calls (advance d (debounced_call timeout args s)) = db_calls s @ [args] \<and>
   db_timers (advance d (debounced_call timeout args s)) = []"
  by (simp add: debounced_call_timers advance_def)

text \<open>
  A burst of calls, each within \<open>timeout\<close> of the one before, then a quiet \<open>timeout\<close>:
  \<open>func\<close> runs once, with the last call's arguments, whatever timer was pending before.
\<close>

lemma debounce_burst:
  assumes "db_inv s" "\<forall>g\<in>set gaps. g < timeout" "length gaps = length as" "timeout \<le> d"
  shows "db_calls (foldl (debounce_step timeout) s
            (concat (map (\<lambda>(a, g). [DCall a, DWait g]) (zip as gaps)) @ [DCall b, DWait d])) =
         db_calls s @ [b]"
  using assms
proof (induction as arbitrary: gaps s)
  case Nil
  then show ?case using debounce_wait_long [of s timeout d b] by simp
next
  case (Cons a as)
  obtain g gs where g: "gaps = g # gs" using Cons.prems(3) by (cases gaps) auto
  let ?s1 = "advance g (debounced_call timeout a s)"
  have inv1: "db_inv ?s1" using Cons.prems(1) by (simp add: db_inv_call db_inv_advance)
  have c1: "db_calls ?s1 = db_calls s" using Cons.prems(1,2) g by (simp add: debounce_wait_short)
  show ?case using Cons.IH [OF inv1, of gs] Cons.prems(2-4) g c1 by simp
qed

end
