(* ===== verification/MultiFetch.thy ===== *)
theory MultiFetch
  imports Prelude
begin

text \<open>
  \<open>multiFetch\<close> of \<open>src/src/MultiFetch/index.ts\<close>: \<open>fetch\<close> with retries. What each attempt
  gives is an input of the model: the response \<open>window.fetch\<close> resolves to, or the message of
  the error it rejects with or of the \<open>sleep\<close> timeout that wins the \<open>Promise.race\<close> (the
  \<open>timeout\<close> argument only decides which of the two that is). The list of outcomes is also
  the fuel of the retry loop: when it runs out before the promise settles, the model's
  value is \<open>None\<close>. The result records how the promise settles and the delays the code
  passes to \<open>setTimeout\<close> between attempts.
\<close>

text \<open>
  A response: its status and its headers, \<open>None\<close> for a response without a \<open>headers\<close> object,
  else what \<open>headers.get('Retry-After')\<close> returns (\<open>None\<close> is \<open>null\<close>).
\<close>

datatype fetch_response = FetchResponse (fr_status: int) (fr_headers: "string option option")

datatype fetch_outcome = Responded fetch_response | Failed string

datatype fetch_result = Resolved fetch_response | Rejected string

text \<open>\<open>parseInt(s, 10)\<close>: leading white space, a sign, then the longest run of digits.\<close>

definition js_whitespace :: "char \<Rightarrow> bool" where
  "js_whitespace c \<longleftrightarrow> c \<in> set [CHR '' '', CHR 0x09, CHR 0x0A, CHR 0x0B, CHR 0x0C, CHR 0x0D]"

definition parseInt10 :: "string \<Rightarrow> int option" where
  "parseInt10 str =
     (let s = dropWhile js_whitespace str;
          (sign, rest) = (case s of
                            c # cs \<Rightarrow> if c = CHR ''-'' then (- 1 :: int, cs) else if c = CHR ''+'' then (1, cs)
                                      else (1, s)
                          | [] \<Rightarrow> (1, []));
          ds = takeWhile is_digit rest
      in if ds = [] then None else Some (sign * int (nat_of_digits ds)))"

text \<open>
  The delay before the retry of a 404: \<open>Math.min(parseInt(header, 10), 5) * 1000 || retryDelay\<close>,
  where \<open>parseInt(null)\<close> reads the string \<open>'null'\<close> and a \<open>NaN\<close> or \<open>0\<close> delay falls back to
  \<open>retryDelay\<close>.
\<close>

definition retry_after_delay :: "int \<Rightarrow> string option \<Rightarrow> int" where
  "retry_after_delay retryDelay retryAfterHeader =
     (case parseInt10 (case retryAfterHeader of Some h \<Rightarrow> h | None \<Rightarrow> ''null'') of
        None \<Rightarrow> retryDelay
      | Some secs \<Rightarrow> (let customRetryDelay = min secs 5 * 1000
                     in if customRetryDelay = 0 then retryDelay else customRetryDelay))"

text \<open>
  \<open>tryFetch\<close> after \<open>currentTry\<close> attempts, with \<open>handleError\<close> inlined: a failure is retried
  while \<open>currentTry < numberOfTries\<close>, else the promise rejects with it. A 404 response with
  headers is a failure with the error \<open>'404'\<close>; any other response resolves the promise.
\<close>

fun tryFetch :: "int \<Rightarrow> int \<Rightarrow> nat \<Rightarrow> fetch_outcome list \<Rightarrow> (fetch_result \<times> int list) option" where
  "tryFetch numberOfTries retryDelay currentTry [] = None"
| "tryFetch numberOfTries retryDelay currentTry (out # outs) =
     (case (case out of
              Responded resp \<Rightarrow>
                if fr_status resp = 404 \<and> fr_headers resp \<noteq> None
                then Inl (''404'', retry_after_delay retryDelay (the (fr_headers resp)))
                else Inr resp
            | Failed msg \<Rightarrow> Inl (msg, retryDelay)) of
        Inr resp \<Rightarrow> Some (Resolved resp, [])
      | Inl (err, delay) \<Rightarrow>
          if int (Suc currentTry) < numberOfTries
          then map_option (\<lambda>(r, ds). (r, delay # ds)) (tryFetch numberOfTries retryDelay (Suc currentTry) outs)
          else Some (Rejected err, []))"

text \<open>A parameter left \<open>undefined\<close> takes its default.\<close>

definition js_default :: "'a option \<Rightarrow> 'a \<Rightarrow> 'a" where
  "js_default x d = (case x of Some v \<Rightarrow> v | None \<Rightarrow> d)"

definition multiFetch :: "int option \<Rightarrow> int option \<Rightarrow> fetch_outcome list \<Rightarrow> (fetch_result \<times> int list) option" where
  "multiFetch numberOfTries retryDelay outcomes =
     tryFetch (js_default numberOfTries 3) (js_default retryDelay 1000) 0 outcomes"

subsection \<open>Reference behaviour\<close>

text \<open>An outcome the code retries, and the delay it waits before the retry.\<close>

fun retryable :: "fetch_outcome \<Rightarrow> bool" where
  "retryable (Responded resp) \<longleftrightarrow> fr_status resp = 404 \<and> fr_headers resp \<noteq> None"
| "retryable (Failed msg) \<longleftrightarrow> True"

fun retry_delay :: "int \<Rightarrow> fetch_outcome \<Rightarrow> int" where
  "retry_delay retryDelay (Responded resp) = retry_after_delay retryDelay (the (fr_headers resp))"
| "retry_delay retryDelay (Failed msg) = retryDelay"

fun fetch_error :: "fetch_outcome \<Rightarrow> string" where
  "fetch_error (Responded resp) = ''404''"
| "fetch_error (Failed msg) = msg"

subsection \<open>Lemmas\<close>

lemma tryFetch_retry:
  "retryable out \<Longrightarrow> int (Suc k) < n \<Longrightarrow>
   tryFetch n d k (out # outs) = map_option (\<lambda>(r, ds). (r, retry_delay d out # ds)) (tryFetch n d (Suc k) outs)"
  by (cases out) auto

lemma tryFetch_last:
  "retryable out \<Longrightarrow> \<not> int (Suc k) < n \<Longrightarrow> tryFetch n d k (out # outs) = Some (Rejected (fetch_error out), [])"
  by (cases out) auto

lemma tryFetch_resolve:
  "\<not> retryable (Responded resp) \<Longrightarrow> tryFetch n d k (Responded resp # outs) = Some (Resolved resp, [])"
  by simp

text \<open>
  The first response that is not a retried 404, within the allowed attempts, resolves the
  promise, after one delay per failed attempt before it.
\<close>

lemma tryFetch_resolves:
  "\<forall>out\<in>set fails. retryable out \<Longrightarrow> int (k + length fails) < max 1 n \<Longrightarrow> \<not> retryable (Responded resp) \<Longrightarrow>
   tryFetch n d k (fails @ Responded resp # rest) = Some (Resolved resp, map (retry_delay d) fails)"
proof (induction fails arbitrary: k)
  case (Cons out fails)
  have lt: "int (Suc k) < n" using Cons.prems(2) by auto
  have "tryFetch n d (Suc k) (fails @ Responded resp # rest) = Some (Resolved resp, map (retry_delay d) fails)"
    using Cons.IH [of "Suc k"] Cons.prems by simp
  then show ?case using tryFetch_retry [OF _ lt, of out d "fails @ Responded resp # rest"] Cons.prems(1)
    by (simp del: tryFetch.simps)
qed simp

text \<open>
  When every attempt fails, the promise rejects with the last failure after
  \<open>max 1 numberOfTries\<close> attempts, one fewer delays between them.
\<close>

lemma tryFetch_rejects:
  "\<forall>out\<in>set fails. retryable out \<Longrightarrow> fails \<noteq> [] \<Longrightarrow> int (k + length fails) = max (int k + 1) n \<Longrightarrow>
   tryFetch n d k (fails @ rest) = Some (Rejected (fetch_error (last fails)), map (retry_delay d) (butlast fails))"
proof (induction fails arbitrary: k)
  case (Cons out fails)
  show ?case
  proof (cases "fails = []")
    case True
    then have "\<not> int (Suc k) < n" using Cons.prems(3) by auto
    then show ?thesis using True Cons.prems(1) tryFetch_last [of out k n d rest] by (simp del: tryFetch.simps)
  next
    case False
    then have "0 < length fails" by simp
    then have lt: "int (Suc k) < n" using Cons.prems(3) by (auto simp: max_def split: if_splits)
    have "tryFetch n d (Suc k) (fails @ rest) =
        Some (Rejected (fetch_error (last fails)), map (retry_delay d) (butlast fails))"
      using Cons.IH [of "Suc k"] Cons.prems False lt by (simp add: max_def)
    then show ?thesis using tryFetch_retry [OF _ lt, of out d "fails @ rest"] Cons.prems(1) False
      by (simp del: tryFetch.simps)
  qed
qed simp

text \<open>The loop settles once it is given as many outcomes as attempts it may make.\<close>

lemma tryFetch_settles:
  "outs \<noteq> [] \<Longrightarrow> n \<le> int (k + length outs) \<Longrightarrow> \<exists>r. tryFetch n d k outs = Some r"
proof (induction outs arbitrary: k)
  case (Cons out outs)
  show ?case
  proof (cases "retryable out \<and> int (Suc k) < n")
    case True
    then have "outs \<noteq> []" using Cons.prems(2) by auto
    then obtain r where "tryFetch n d (Suc k) outs = Some r" using Cons.IH [of "Suc k"] Cons.prems(2) by auto
    then show ?thesis using True tryFetch_retry [of out k n d outs] by (simp del: tryFetch.simps)
  next
    case False
    then show ?thesis by (cases out) auto
  qed
qed simp

end
