(* ===== verification/Spec2Isabelle.thy ===== *)
theory Spec2Isabelle
  imports BarChart_Render BrowserHistory SelectableItems SearchWidgets TreeChart TimingUtils MultiFetch
begin

text \<open>
  A verification development of the shared UI library \<open>Nightwatch_payscale_shared-ui\<close>
  (sources under \<open>src/src/\<close>). Its core is the bar chart of \<open>src/src/BarChart/index.tsx\<close>:
  the range calculator \<open>computeDataRange\<close>, the axis tick generator
  \<open>computeQuantAxisMarkerVals\<close>, the label precision \<open>countDecimalPlaces\<close>, the bar padding
  \<open>_getBars\<close> and the stacked bar geometry \<open>_getBarChunks\<close>, composed by \<open>render\<close>.

  \<^bold>\<open>Numbers.\<close> A JavaScript number that stays finite is an exact rational (\<open>rat\<close>);
  floating-point rounding is not modelled. Where the code can divide by zero the model uses
  \<open>jsnum\<close> (theory \<open>Prelude\<close>), which adds \<open>NaN\<close> and \<open>\<plusminus>Infinity\<close> with JavaScript's
  propagation rules, so that a \<open>NaN\<close> the code computes is a value of the model.

  \<^bold>\<open>Theories.\<close>
  \<^item> \<open>Prelude\<close>: \<open>jsnum\<close>, \<open>Math.trunc\<close> (\<open>js_trunc\<close>), \<open>Math.floor(Math.log10 x)\<close>
    (\<open>floor_log10\<close>, with its characterisation), truthiness helpers, fold lemmas, the
    model of JavaScript objects (own keys in creation order, \<open>Object.keys\<close> order, the members
    inherited from \<open>Object.prototype\<close>), and the element tree \<open>vnode\<close> that every render
    method of the development returns.
  \<^item> \<open>BarChart_Range\<close>: \<open>BarProps\<close> as the record \<open>bar\<close>, \<open>Range\<close> as \<open>chart_range\<close>,
    and \<open>computeDataRange\<close> (lines 55--89).
  \<^item> \<open>BarChart_Ticks\<close>: \<open>computeQuantAxisMarkerVals\<close> (lines 135--179). The \<open>while\<close>
    loop is \<open>while_option\<close> over the record \<open>marker_state\<close> (\<open>magnitude\<close>, \<open>increment\<close>,
    \<open>markerMax\<close>, \<open>markerCount\<close>); the inner \<open>for\<close> loop with its \<open>break\<close> is
    \<open>marker_scan\<close>. Termination is proved with the measure
    \<open>\<lceil>30 (|max| + |min|) / magnitude\<rceil>\<close>: a pass at a magnitude of at least
    \<open>3 (|max| + |min|)\<close> accepts its first candidate, and the magnitude grows tenfold
    per pass. The lower bound of two ticks rests on the invariant \<open>tick_span_inv\<close>: an
    accepted increment is at most twice a rejected candidate, so it is below
    \<open>(max - min) / 0.84\<close>. A domain with \<open>max - min \<le> 0\<close> makes the code compute with
    \<open>NaN\<close> (\<open>Math.log10 0 = -Infinity\<close>), every comparison fails and the result is
    \<open>[]\<close>; the model returns \<open>[]\<close> for it directly.
  \<^item> \<open>BarChart_Labels\<close>: \<open>countDecimalPlaces\<close> (lines 94--130), whose two \<open>while\<close> loops
    are \<open>partial_function (option)\<close> (\<open>count_leading_zeros\<close>, \<open>count_nonzero_digits\<close>):
    the digit loop stops only at a zero digit, which an exact rational with a repeating
    decimal expansion never reaches, so the model keeps non-termination as the value
    \<open>None\<close>. Every IEEE double is a dyadic rational and so a terminating decimal:
    termination is proved for every terminating decimal (C8), so the model's loops return
    on every value a JavaScript number denotes (its rounding of \<open>val * 10\<close> is not
    modelled), and the exact precision for every increment
    \<open>c * 10^e\<close> the tick generator can choose (\<open>countDecimalPlaces_increment\<close>).
    \<open>_getAxisIncrementDigits\<close>, \<open>_formatQuantAxisValue\<close> and
    \<open>_renderQuantAxisPlaceholder\<close> follow; the host's \<open>toLocaleString\<close> is a parameter.

  \<^item> \<open>BarChart_Render\<close>: the component itself. \<open>BarChartProps\<close> is the record
    \<open>barchart_props\<close>, the mounted component (props and \<open>state.bars\<close>) is \<open>barchart\<close>;
    \<open>new_BarChart\<close> and \<open>componentWillReceiveProps\<close> are its two state changes, both through
    \<open>getBars\<close> (\<open>_getBars\<close>, the padding loop as \<open>\<lceil>minBars - length\<rceil>\<close> empty bars).
    \<open>_getBarChunks\<close> is \<open>getBarChunks\<close>, its \<open>while\<close> loop with \<open>break\<close> the structural
    recursion \<open>chunk_walk\<close> on the index. Every render method
    (\<open>render\<close>, \<open>_renderQuantAxis\<close>, \<open>_renderGridLines\<close>, \<open>_renderBars\<close>,
    \<open>_renderBarColumn\<close>, \<open>_renderVerticalBar\<close>, \<open>_renderVerticalBarColumn\<close>,
    \<open>_renderCatAxis\<close>) returns a \<open>vnode\<close>: tag, attributes in source order, children. Styles
    keep their numbers as \<open>jsnum\<close>, since the chart range of \<open>render\<close> is \<open>NaN\<close> when the tick
    list is empty. \<open>Math.min\<close> and \<open>toFixed\<close> are written out; \<open>toLocaleString\<close> and
    \<open>Number::toString\<close> of values from \<open>10^21\<close> on are parameters. A method that runs the tick
    generator or the digit loops returns an option, \<open>None\<close> for a loop that does not end.
    The lemmas show:
    \<^item> that the chunks of a bar telescope to its height (C33);
    \<^item> that they stay within \<open>[0, 100]\<close> on non-negative data (C34), but not on an ascending
      run of negative values (C35);
    \<^item> the padding law (C37);
    \<^item> that \<open>render\<close> always returns (C38, from the termination of the tick loop and
      C12's precision argument);
    \<^item> the \<open>+Infinity%\<close> tooltip after a zero bar (C39);
    \<^item> that the columns of a vertical chart sum to 100\<percent> (C40).
  \<^item> \<open>StringUtils\<close>: \<open>replaceTokens\<close> (\<open>src/src/StringUtils/index.ts\<close>) as a terminating
    left-to-right scan that reproduces the global regular expression \<open>/{(\d+)}/g\<close>;
    \<open>buildClassString\<close> over a model of JavaScript objects whose \<open>Object.keys\<close> lists array
    indices first (\<open>Prelude\<close>: \<open>obj_set\<close>, \<open>obj_literal\<close>, \<open>object_keys\<close>); and
    \<open>isArrayNullOrEmpty\<close> and \<open>arrayToDictionary\<close> of \<open>src/src/ArrayUtils/index.ts\<close>,
    whose dictionary is its own properties and its prototype, which a \<open>__proto__\<close> key
    replaces through the setter instead of adding a property (C15, C17, C18).
  \<^item> \<open>HistoryUtils\<close>: \<open>parsePath\<close> as the match ECMAScript's backtracking matcher finds for
    its regular expression, computed part by part, and \<open>parseQueryParams\<close> with the host's
    \<open>decodeURIComponent\<close> as a parameter that may throw. The \<open>{}\<close> it fills is the record
    \<open>query_params\<close> of its own properties and its prototype: \<open>Object.prototype\<close>, whose
    members \<open>params[key]\<close> finds, until a \<open>__proto__\<close> parameter makes an array the
    prototype, whose elements, \<open>length\<close> and methods later keys find (C19, C21--C24).
  \<^item> \<open>MockHistory\<close>: the test doubles \<open>MockWindow\<close> and \<open>MockHistory\<close>
    (\<open>src/src/_mocks\<close>) the wrapper runs against, with JavaScript's array index semantics.
    \<open>back\<close>, \<open>forward\<close> and \<open>go\<close> return the \<open>popstate\<close> state they dispatch synchronously.
  \<^item> \<open>BrowserHistory\<close>: the wrapper of \<open>src/src/BrowserHistory/index.ts\<close> as explicit state
    passing over the record \<open>bh_state\<close>. Keys from \<open>_createKey\<close> are drawn from a counter,
    standing for the random keys the code assumes distinct. Filters are pure functions with an
    identity. The re-entrant \<open>_handlePopState\<close> is the terminating \<open>function\<close>
    \<open>handlePopState\<close> (measure: restoring flag, then entry index). The public calls form the
    datatype \<open>bh_call\<close> with the step function \<open>bh_step\<close>, and \<open>reachable\<close> is the inductive
    set of states a sequence of calls reaches from the constructor. Its step guard (the mock's
    index is at least 0) holds after the constructor and after every call. The invariant
    \<open>bh_inv\<close> ties every entry of the mock's state stack to the wrapper's key stack. It
    holds on every reachable state of a non-CriOS browser (C26). The other lemmas give the
    behaviour of \<open>goBack\<close>, \<open>push\<close>, \<open>canGoBack\<close> and the filters on it (C27--C31), and
    the CriOS path of \<open>goBack\<close> (C32).

  \<^item> \<open>SelectableItems\<close>: the pill selector of \<open>src/src/SelectableItems/index.tsx\<close> as
    explicit state passing over \<open>si_state\<close>. Its \<open>Set\<close>s are distinct lists in insertion
    order and \<open>itemState\<close> is a plain object, so a key it does not own reads as the member
    inherited from \<open>Object.prototype\<close>. Every handler, \<open>componentWillReceiveProps\<close> (a
    \<open>TypeError\<close> on an absent set) and the render methods are modelled, and the events form
    \<open>si_step\<close> with the reachable states \<open>si_reachable\<close>. The lemmas show:
    \<^item> the invariant \<open>si_inv\<close> on every reachable state (C10);
    \<^item> that a toggle flips one item and toggling twice restores every selection (C13);
    \<^item> that an item chosen in the search is selected, unless its name is an inherited member,
      which can never be selected (C36);
    \<^item> that \<open>onItemsSelect\<close> receives exactly the selected keys (C25);
    \<^item> that re-receiving unchanged props re-selects a deselected added item.

  \<^item> \<open>SearchWidgets\<close>: \<open>SearchInput\<close> (its value, focus and every handler) and
    \<open>AutoComplete._onItemSelect\<close>. The owner's callbacks act on the owner's state, a type
    variable, so that the root theory can plug in the handlers of \<open>SelectableItems\<close>
    (\<open>selectable_autocomplete_props\<close>, the wiring of \<open>_renderPossibleItems\<close>).

  \<^item> \<open>TreeChart\<close>: the tree chart of \<open>src/src/TreeChart\<close> with its \<open>Leaf\<close> and
    \<open>TreeChartLine\<close> children expanded in place. A node of the data is named by its path of
    child indices, so that the \<open>===\<close> comparisons of node references are comparisons of
    paths (the data is a tree). The window width is part of the state. The constructor,
    \<open>componentDidMount\<close>, \<open>handleResize\<close>, \<open>setRoot\<close>, \<open>handleSetRoot\<close>,
    \<open>handleOnClickBack\<close> and every render method are modelled; the events (resize, a click
    on a leaf, the back link) form \<open>tc_step\<close> with the reachable states
    \<open>tc_reachable\<close>. The invariant \<open>tc_inv\<close> (the previous roots are the ancestors of the
    current root; a second active leaf lies below it, has children, and is set only in a
    wide window with two levels) holds on every reachable state (C9). The lemmas show:
    \<^item> that \<open>render\<close> never throws on reachable states when every node is named (C16);
    \<^item> that the back link leaves a stale \<open>secondActiveLeaf\<close> that no leaf shows (C20);
    \<^item> that in a narrow window a click on a leaf and the back link are inverse (C3).

  \<^item> \<open>TimingUtils\<close>: \<open>throttle\<close> and \<open>debounce\<close> of \<open>src/src/TimingUtils/index.ts\<close>. The
    closure of each wrapper is a record, together with what the browser keeps for it
    (requested animation frames, or pending timers and the clock) and the calls of
    \<open>func\<close> made so far; browser events form \<open>throttle_step\<close> and \<open>debounce_step\<close>. The
    lemmas show that a burst of calls within one frame makes one call with the last
    arguments, that at most one debounce timer is pending, and that a burst of calls
    closer together than the wait makes one call with the last arguments.

  \<^item> \<open>MultiFetch\<close>: \<open>multiFetch\<close> of \<open>src/src/MultiFetch/index.ts\<close> as \<open>tryFetch\<close> over the
    list of what each attempt gives (a response, or the message of an error or of the
    timeout that wins the race); that list is also the loop's fuel, and the lemmas show
    it is enough once it has as many outcomes as the attempts allowed
    (\<open>tryFetch_settles\<close>), how the promise resolves after retried failures and rejects
    with the last one, and the delays passed to \<open>setTimeout\<close> (\<open>Retry-After\<close> capped at
    five seconds, \<open>0\<close> or unparsable falling back to \<open>retryDelay\<close>).

  \<^bold>\<open>Cross-component properties\<close> (this theory):
  \<^item> C12 composes the tick generator with the label precision.
  \<^item> C14 composes \<open>SelectableItems\<close>, \<open>AutoComplete\<close> and \<open>SearchInput\<close>: choosing a menu
    item first clears the box, which reaches \<open>_handleSearchChange('')\<close>, and then selects the
    item.

  Each claim with a hypothesis has a witness here, which applies it to a concrete chart,
  URL, history or tree.

  \<^bold>\<open>Not modelled.\<close>
  \<^item> Floating-point rounding: numbers are exact rationals.
  \<^item> The host formatters \<open>toLocaleString\<close>, \<open>decodeURIComponent\<close> and \<open>Number::toString\<close>,
    which are parameters.
  \<^item> React's reconciliation and the DOM: the model stops at the element tree.
  \<^item> The \<open>Tooltip\<close> and \<open>AutoComplete\<close> components, which appear as elements with their
    props, and the other components (cards, navigation, animation, PDF pages),
    listed as not modelled in the manifest.
  \<^item> The string tables of \<open>./strings\<close> modules missing from the repository, which are
    parameters.
  \<^item> The CSS that positions chunks and labels, which is not in the repository.
  \<^item> Props that change after a \<open>TreeChart\<close> is mounted: the component keeps the node
    references of the old data, and the model fixes the data.
  \<^item> The \<open>numeral\<close> format \<open>'$0,0'\<close> of a leaf's value, a parameter.
  \<^item> The \<open>this\<close> that \<open>throttle\<close> and \<open>debounce\<close> pass to \<open>func\<close>, the module's own.
  \<^item> The timing of the race in \<open>multiFetch\<close>: which of \<open>fetch\<close> and the \<open>timeout\<close> wins is
    an input; \<open>parseInt\<close> skips ASCII white space only, not the Unicode spaces.
\<close>

section \<open>Wiring of the search box of \<open>SelectableItems\<close>\<close>

text \<open>
  The \<open>AutoComplete\<close> that \<open>SelectableItems._renderPossibleItems\<close> renders: default
  \<open>clearSearchOnSelect\<close>, the search results as items, and the component's
  \<open>_handleSearchChange\<close> and \<open>_handleSearchSelect\<close> as \<open>onInputChange\<close> and \<open>onSelect\<close>.
\<close>

definition selectable_autocomplete_props :: "si_state \<Rightarrow> si_state autocomplete_props" where
  "selectable_autocomplete_props s =
     \<lparr>ac_clearSearchOnSelect = True, ac_setValueOnSelect = False, ac_items = searchResults s,
      ac_onInputChange = Some handleSearchChange, ac_onSelect = Some handleSearchSelect,
      ac_placeholderText = si_searchPlaceholderText (si_props s)\<rparr>"

section \<open>An example pill selector\<close>

text \<open>A selector with one initial item \<open>a\<close> and one possible item \<open>b\<close>, reporting its selections.\<close>

definition si_example_props :: si_props where
  "si_example_props =
     \<lparr>si_className = None, si_initialItems = Some [''a''], si_possibleItems = Some [''b''],
      si_hasOnItemsSelect = True, si_hasSearchCallback = False, si_searchPlaceholderText = None,
      si_headerText = ''skills'', si_title = None\<rparr>"

section \<open>An example tree chart\<close>

text \<open>
  A department with three teams, of which the first two have sub-teams; the first sub-team
  of the first team has a team of its own.
\<close>

definition tc_example_leaf :: "string \<Rightarrow> rat \<Rightarrow> tree_data list option \<Rightarrow> tree_data" where
  "tc_example_leaf n pc ls = TreeData (Some n) None ls None (Some pc)"

definition tc_example_children :: "tree_data list" where
  "tc_example_children =
     [tc_example_leaf ''Backend'' (1 / 2)
        (Some [tc_example_leaf ''Databases'' (1 / 2) (Some [tc_example_leaf ''Storage'' 1 None]),
               tc_example_leaf ''APIs'' (1 / 2) None]),
      tc_example_leaf ''Frontend'' (3 / 10) (Some [tc_example_leaf ''Web'' 1 None]),
      tc_example_leaf ''Design'' (1 / 5) None]"

definition tc_example_props :: tc_props where
  "tc_example_props =
     \<lparr>tc_treeChartData = Some (TreeData (Some ''Engineering'') None (Some tc_example_children) None (Some 1)),
      tc_detailToShow = Some ''link'', tc_showTwoLevels = True\<rparr>"

section \<open>Range calculator: concrete behaviour\<close>

theorem computeDataRange_contains_witness:
  "rmin (computeDataRange (Some [value_bar 1, labelled_bar (- 2) ''x''])) \<le> - 2 \<and>
   1 \<le> rmax (computeDataRange (Some [value_bar 1, labelled_bar (- 2) ''x'']))"
  using BarChart_Range.computeDataRange_contains [of "[value_bar 1, labelled_bar (- 2) ''x'']"]
  by (simp add: value_bar_def labelled_bar_def)

section \<open>Tick generator: witnesses\<close>

theorem computeQuantAxisMarkerVals_count_witness:
  "(0::rat) < 7 / 2 \<and> (\<exists>ticks. computeQuantAxisMarkerVals \<lparr>rmin = 0, rmax = 7 / 2\<rparr> = Some ticks \<and>
     2 \<le> length ticks \<and> length ticks \<le> 5)"
  using BarChart_Ticks.computeQuantAxisMarkerVals_count [of "\<lparr>rmin = 0, rmax = 7 / 2\<rparr>"] by simp

theorem computeQuantAxisMarkerVals_spacing_witness:
  "\<exists>ticks inc. computeQuantAxisMarkerVals \<lparr>rmin = - 3, rmax = 41\<rparr> = Some ticks \<and> 0 < inc \<and>
     (\<exists>c\<in>set possibleIncrements. \<exists>e. inc = c * power_int 10 e) \<and>
     (\<forall>i < length ticks. ticks ! i = hd ticks - of_nat i * inc)"
  using BarChart_Ticks.computeQuantAxisMarkerVals_spacing [of "\<lparr>rmin = - 3, rmax = 41\<rparr>"] by simp

theorem computeQuantAxisMarkerVals_overshoot_witness:
  "\<exists>ticks inc. computeQuantAxisMarkerVals \<lparr>rmin = - 1, rmax = 7 / 2\<rparr> = Some ticks \<and> 0 < inc \<and>
     7 / 2 - 34 / 100 * inc < hd ticks \<and> hd ticks \<le> 7 / 2 + 66 / 100 * inc \<and>
     - 1 - 66 / 100 * inc \<le> last ticks \<and> last ticks < - 1 + 34 / 100 * inc"
  using BarChart_Ticks.computeQuantAxisMarkerVals_overshoot [of "\<lparr>rmin = - 1, rmax = 7 / 2\<rparr>"] by simp

section \<open>Label precision: witnesses\<close>

theorem countDecimalPlaces_terminates_witness:
  "(5 / 2 :: rat) * 10 ^ 1 \<in> \<int> \<and> countDecimalPlaces (5 / 2) \<noteq> None"
  using BarChart_Labels.countDecimalPlaces_terminates [of "5 / 2" 1] by simp

theorem renderQuantAxisPlaceholder_longest_witness:
  "renderQuantAxisPlaceholder None (\<lambda>d v. if v = 0 then ''0'' else ''10'') [2, 1, 0] = Some ''10'' \<and>
   (\<exists>fd. ''10'' \<in> set (map (\<lambda>v. formatQuantAxisValue None (\<lambda>d v. if v = 0 then ''0'' else ''10'') v fd)
                          [2, 1, 0]))"
proof -
  have r: "renderQuantAxisPlaceholder None (\<lambda>d v. if v = 0 then ''0'' else ''10'') [2, 1, 0] = Some ''10''"
    by (simp add: renderQuantAxisPlaceholder_def getAxisIncrementDigits_def countDecimalPlaces_def
        js_trunc_def formatQuantAxisValue_def longest_label_def)
  show ?thesis
    using r BarChart_Labels.renderQuantAxisPlaceholder_longest [OF r] by auto
qed

section \<open>Tick generator and label precision together\<close>

text \<open>
  C12: on every non-degenerate domain the axis labels get exactly the precision of the tick
  increment: \<open>_getAxisIncrementDigits\<close> of the generated ticks returns the least \<open>k\<close> for
  which the increment (the difference of the two highest ticks) times \<open>10^k\<close> is integral. The
  digit loops therefore always return on the ticks the chart produces, and labels neither lose
  significant digits nor show spurious ones.
\<close>

theorem getAxisIncrementDigits_ticks:
  "rmin r < rmax r \<Longrightarrow>
   \<exists>ticks k. computeQuantAxisMarkerVals r = Some ticks \<and> getAxisIncrementDigits ticks = Some k \<and>
     (ticks ! 0 - ticks ! 1) * 10 ^ k \<in> \<int> \<and>
     (0 < k \<longrightarrow> (ticks ! 0 - ticks ! 1) * 10 ^ (k - 1) \<notin> \<int>)"
proof -
  assume lt: "rmin r < rmax r"
  obtain ticks inc where t: "computeQuantAxisMarkerVals r = Some ticks" "0 < inc"
      "\<exists>c\<in>set possibleIncrements. \<exists>e. inc = c * power_int 10 e"
      "2 \<le> length ticks" "length ticks \<le> 5"
      "\<And>i. i < length ticks \<Longrightarrow> ticks ! i = hd ticks - of_nat i * inc"
    using tick_result [OF lt] by blast
  have "ticks \<noteq> []" using t(4) by auto
  then have "ticks ! 0 = hd ticks" "ticks ! 1 = hd ticks - inc"
    using t(4) t(6) [of 0] t(6) [of 1] by (simp_all add: hd_conv_nth)
  then have "ticks ! 0 - ticks ! 1 = inc" by simp
  moreover obtain k where "countDecimalPlaces inc = Some k" "inc * 10 ^ k \<in> \<int>"
      "0 < k \<longrightarrow> inc * 10 ^ (k - 1) \<notin> \<int>"
    using t(3) countDecimalPlaces_increment by blast
  ultimately show ?thesis using t(1,4) by (auto simp: getAxisIncrementDigits_def)
qed

theorem getAxisIncrementDigits_ticks_witness:
  "\<exists>ticks k. computeQuantAxisMarkerVals \<lparr>rmin = 0, rmax = 7 / 2\<rparr> = Some ticks \<and>
     getAxisIncrementDigits ticks = Some k \<and> (ticks ! 0 - ticks ! 1) * 10 ^ k \<in> \<int>"
  using getAxisIncrementDigits_ticks [of "\<lparr>rmin = 0, rmax = 7 / 2\<rparr>"] by auto

section \<open>String and array helpers: witnesses\<close>

theorem buildClassString_literal_witness:
  "buildClassString (obj_literal [(''barchart__bar'', True), (''negative'', False), (''pay'', True)]) =
     ''barchart__bar pay''"
  using StringUtils.buildClassString_literal
      [of "[(''barchart__bar'', True), (''negative'', False), (''pay'', True)]"]
  by (simp add: is_array_index_def is_digit_def)

theorem arrayToDictionary_index_witness:
  "length [''a'', ''b''] < 2 ^ 32 - 1 \<and>
   object_keys (arrayToDictionary (Some [''a'', ''b'']) None) = [string_of_nat 0, string_of_nat 1] \<and>
   obj_get (arrayToDictionary (Some [''a'', ''b''])None) (string_of_nat 1) = Some ''b''"
  using StringUtils.arrayToDictionary_index [of "[''a'', ''b'']"] by (simp add: upt_rec)

section \<open>URL helpers: witnesses\<close>

theorem parsePath_absolute_witness:
  "parsePath ''/a?x=1#t'' =
     empty_location\<lparr>lc_href := ''/a?x=1#t'', lc_pathname := ''/a'', lc_search := ''?x=1'',
       lc_hash := ''#t''\<rparr>"
proof -
  have t: "list_all is_word_char ''t''" by code_simp
  show ?thesis
    using HistoryUtils.parsePath_absolute [of "''a''" "''?x=1''" "''#t''"] t by simp
qed

theorem parsePath_relative_witness:
  "lc_hostName (parsePath ''users/42'') = ''users'' \<and> lc_pathname (parsePath ''users/42'') = ''/42''"
  using HistoryUtils.parsePath_relative [of "''users''" "''42''"] by (simp add: empty_location_def)

theorem parseQueryParams_grouping_witness:
  "(\<forall>s. Some s = Some (id s)) \<and> ''a'' \<notin> set object_prototype_members \<and> \<not> array_proto_key ''a'' \<and>
   (\<exists>r. parseQueryParams Some ''?a=1&__proto__=x&a=3'' = Inr r \<and>
      obj_get (qp_own r) ''a'' = Some (QArray [QElem ''1'', QElem ''3'']))"
proof -
  have m: "''a'' \<notin> set object_prototype_members" "\<not> array_proto_key ''a''"
    by (simp_all add: object_prototype_members_def array_proto_key_def array_prototype_members_def
        is_array_index_def is_digit_def)
  have v: "grouped_value [v. (k', v) \<leftarrow> query_pairs id (js_split CHR ''&'' ''a=1&__proto__=x&a=3''), k' = ''a''] =
      Some (QArray [QElem ''1'', QElem ''3''])" by code_simp
  show ?thesis
    using HistoryUtils.parseQueryParams_grouping [of Some id "''a''" "''a=1&__proto__=x&a=3''"] m v by simp
qed

theorem parseQueryParams_uri_error_witness:
  "(\<exists>p\<in>set (js_split CHR ''&'' ''a=%''). param_fails (\<lambda>s. if s = ''%'' then None else Some s) p) \<and>
   (\<exists>e. parseQueryParams (\<lambda>s. if s = ''%'' then None else Some s) ''?a=%'' = Inl e)"
proof -
  have p: "\<exists>p\<in>set (js_split CHR ''&'' ''a=%''). param_fails (\<lambda>s. if s = ''%'' then None else Some s) p"
    by code_simp
  show ?thesis
    using HistoryUtils.parseQueryParams_uri_error [of "\<lambda>s. if s = ''%'' then None else Some s" "''a=%''"] p
    by simp
qed

theorem parseQueryParams_proto_witness:
  "(\<forall>s. Some s = Some (id s)) \<and>
   (\<exists>r. parseQueryParams Some ''?__proto__=y&length=1&__proto__=z'' = Inr r \<and>
      obj_get (qp_own r) ''__proto__'' = None \<and>
      qp_proto r = ArrayPrototype [QObjectPrototype, QElem ''y'', QElem ''z'']) \<and>
   parseQueryParams Some ''?__proto__=y&length=1'' =
     Inr \<lparr>qp_own = [(''length'', QArray [QLength 2, QElem ''1''])],
         qp_proto = ArrayPrototype [QObjectPrototype, QElem ''y'']\<rparr>"
proof -
  have v: "proto_after [v. (k', v) \<leftarrow> query_pairs id (js_split CHR ''&'' ''__proto__=y&length=1&__proto__=z''),
                            k' = ''__proto__''] = ArrayPrototype [QObjectPrototype, QElem ''y'', QElem ''z'']"
    by code_simp
  have l: "parseQueryParams Some ''?__proto__=y&length=1'' =
     Inr \<lparr>qp_own = [(''length'', QArray [QLength 2, QElem ''1''])],
         qp_proto = ArrayPrototype [QObjectPrototype, QElem ''y'']\<rparr>"
    by code_simp
  show ?thesis
    using HistoryUtils.parseQueryParams_proto [of Some id "''__proto__=y&length=1&__proto__=z''"] v l by simp
qed

section \<open>History wrapper: witnesses\<close>

theorem reachable_bh_inv_witness: "bh_inv (new_BrowserHistory False new_mock_window)"
  using BrowserHistory.reachable_bh_inv [OF reachable_init [of False]] by (simp add: new_BrowserHistory_fresh)

theorem goBack_blocked_witness:
  "historyIndex (goBack (add_filter 1 (\<lambda>l a. a = Back) (new_BrowserHistory False new_mock_window))) = 1 \<and>
   notifications (goBack (add_filter 1 (\<lambda>l a. a = Back) (new_BrowserHistory False new_mock_window))) = []"
proof -
  have i0: "0 \<le> mh_stackIndex (mw_history (window (new_BrowserHistory False new_mock_window)))"
    by (simp add: new_BrowserHistory_fresh)
  have "reachable (bh_step (new_BrowserHistory False new_mock_window) (CallFilter 1 (\<lambda>l a. a = Back)))"
    by (rule reachable_step [OF reachable_init i0])
  then have r: "reachable (add_filter 1 (\<lambda>l a. a = Back) (new_BrowserHistory False new_mock_window))"
    by simp
  show ?thesis
    using BrowserHistory.goBack_blocked [OF r] by (simp add: new_BrowserHistory_fresh add_filter_def)
qed

theorem push_goBack_roundtrip_witness:
  "historyIndex (goBack (push ''/a'' (new_BrowserHistory False new_mock_window))) = 1"
  using BrowserHistory.push_goBack_roundtrip [OF reachable_init [of False], of "''/a''"]
  by (simp add: new_BrowserHistory_fresh add_filter_def)

theorem canGoBack_goBack_witness:
  "\<not> canGoBack (new_BrowserHistory False new_mock_window) \<and>
   historyIndex (goBack (new_BrowserHistory False new_mock_window)) = 0"
  using BrowserHistory.canGoBack_goBack [OF reachable_init [of False]]
  by (simp add: new_BrowserHistory_fresh add_filter_def canGoBack_def)

theorem removeNavigationFilter_first_witness:
  "navigationFilters (removeNavigationFilter 1 (add_filter 1 (\<lambda>l a. True) (add_filter 2 (\<lambda>l a. False)
     (add_filter 1 (\<lambda>l a. True) (new_BrowserHistory False new_mock_window))))) =
   [(2, \<lambda>l a. False), (1, \<lambda>l a. True)]"
  using BrowserHistory.removeNavigationFilter_first [of "add_filter 1 (\<lambda>l a. True) (add_filter 2 (\<lambda>l a. False)
     (add_filter 1 (\<lambda>l a. True) (new_BrowserHistory False new_mock_window)))" "[]" 1 "\<lambda>l a. True"
     "[(2, \<lambda>l a. False), (1, \<lambda>l a. True)]"]
  by (simp add: new_BrowserHistory_fresh add_filter_def)

theorem push_new_entry_witness:
  "historyStack (push ''/a'' (new_BrowserHistory False new_mock_window)) = [0, 1, 2] \<and>
   lc_href (getCurrentLocation (push ''/a'' (new_BrowserHistory False new_mock_window))) = ''/a''"
  using BrowserHistory.push_new_entry [OF reachable_init [of False], of "''/a''"]
  by (simp add: new_BrowserHistory_fresh add_filter_def allowNavigation_def)

theorem goBack_crios_first_entry_witness:
  "historyIndex (goBack (new_BrowserHistory True new_mock_window)) = 0 \<and>
   mh_stackIndex (mw_history (window (goBack (new_BrowserHistory True new_mock_window)))) = 1"
  using BrowserHistory.goBack_crios_first_entry [OF bh_inv_new_BrowserHistory [of True]]
  by (simp add: new_BrowserHistory_fresh add_filter_def)


section \<open>Bar geometry and rendering: witnesses\<close>

theorem getBarChunks_stack_witness:
  "\<exists>hs. map percentHeight (getBarChunks None [value_bar 1, value_bar 2, value_bar 3] 2 \<lparr>jmin = Num 0, jmax = Num 4\<rparr>) =
     map Num hs \<and> sum_list hs = 75"
  using BarChart_Render.getBarChunks_stack
      [where bs = "[value_bar 1, value_bar 2, value_bar 3]" and index = 2 and a = 0 and b = 4]
  by (simp add: value_bar_def) blast

theorem getBarChunks_within_chart_witness:
  "\<exists>top hs. map percentTop (getBarChunks (Some 5) [value_bar 1, value_bar 2, value_bar 3] 2 \<lparr>jmin = Num 0, jmax = Num 4\<rparr>) =
       replicate (length hs) (Num top) \<and>
     map percentHeight (getBarChunks (Some 5) [value_bar 1, value_bar 2, value_bar 3] 2 \<lparr>jmin = Num 0, jmax = Num 4\<rparr>) =
       map Num hs \<and> 0 \<le> top \<and> top + sum_list hs \<le> 100"
  using BarChart_Render.getBarChunks_within_chart
      [where bs = "[value_bar 1, value_bar 2, value_bar 3]" and index = 2 and a = 0 and b = 4
         and minBarHeight = "Some 5"]
  by (simp add: value_bar_def) blast

theorem getBarChunks_negative_run_witness:
  "\<exists>h. percentHeight (hd (getBarChunks None [value_bar (- 5), value_bar (- 3)] (Suc 0)
     \<lparr>jmin = Num (- 6), jmax = Num 0\<rparr>)) = Num h \<and> h < 0"
  using BarChart_Render.getBarChunks_negative_run
      [where bs = "[value_bar (- 5), value_bar (- 3)]" and i = 0 and a = "- 6" and b = 0]
  by (simp add: value_bar_def)

theorem renderBarColumn_tooltip_zero_witness:
  "\<exists>attrs children.
     renderBarColumn (\<lambda>_. []) \<lparr>bc_bars = [value_bar 0, value_bar 5], bc_showGridLines = False,
        bc_showQuantAxis = False, bc_verticalBarChart = False, bc_minBarHeight = None, bc_minBars = None,
        bc_minBarLoc = None, bc_showDeltaTooltip = True, bc_quantAxisFormatFunc = None\<rparr>
       [value_bar 0, value_bar 5] 1 (value_bar 5) \<lparr>jmin = Num 0, jmax = Num 5\<rparr> =
       VElem ''Tooltip'' attrs children \<and> (''content'', AStr ''+Infinity%'') \<in> set attrs"
  using BarChart_Render.renderBarColumn_tooltip_zero
      [where props = "\<lparr>bc_bars = [value_bar 0, value_bar 5], bc_showGridLines = False,
        bc_showQuantAxis = False, bc_verticalBarChart = False, bc_minBarHeight = None, bc_minBars = None,
        bc_minBarLoc = None, bc_showDeltaTooltip = True, bc_quantAxisFormatFunc = None\<rparr>"
       and bs = "[value_bar 0, value_bar 5]" and index = 1 and ns = "\<lambda>_. []" and bar = "value_bar 5"
       and r = "\<lparr>jmin = Num 0, jmax = Num 5\<rparr>"]
  by (simp add: value_bar_def)

theorem renderVerticalBar_heights_witness:
  "\<exists>hs. map style_height (vchildren (renderVerticalBar [value_bar 1, value_bar 3])) = map (\<lambda>h. Some (Num h)) hs \<and>
     sum_list hs = 100"
  using BarChart_Render.renderVerticalBar_heights [where bs = "[value_bar 1, value_bar 3]"]
  by (simp add: value_bar_def) blast


section \<open>Search box and item selection together\<close>

text \<open>
  C14: choosing an item in the search menu of \<open>SelectableItems\<close> (through \<open>AutoComplete\<close> and
  its \<open>SearchInput\<close>, with the default \<open>clearSearchOnSelect\<close>) first empties the box, which
  reaches \<open>_handleSearchChange('')\<close> and issues a search for \<open>''\<close>, and only then runs
  \<open>_handleSearchSelect\<close>: the item ends up selected (when its name is not inherited from
  \<open>Object.prototype\<close>) and the query is reset.
\<close>

theorem search_select_composed:
  assumes "wf_obj (itemState s)" "v \<notin> set object_prototype_members" "sv_value st \<noteq> []"
  shows "onItemSelect (selectable_autocomplete_props s) v (st, s) =
           (st\<lparr>sv_value := []\<rparr>, handleSearchSelect v (handleSearchChange [] s)) \<and>
         searchString (handleSearchSelect v (handleSearchChange [] s)) = [] \<and>
         searchRequests (handleSearchSelect v (handleSearchChange [] s)) =
           (if si_hasSearchCallback (si_props s) then searchRequests s @ [[]] else searchRequests s) \<and>
         prop_get (itemState (handleSearchSelect v (handleSearchChange [] s))) v = PBool True"
proof -
  have "wf_obj (itemState (handleSearchChange [] s))" using assms(1) by simp
  then have "prop_get (itemState (handleSearchSelect v (handleSearchChange [] s))) v = PBool True"
    using assms(2) by (rule select_selects)
  then show ?thesis using assms(3)
    by (simp add: onItemSelect_default selectable_autocomplete_props_def handleSearchChange_def)
qed

theorem search_select_composed_witness:
  "searchString (snd (onItemSelect (selectable_autocomplete_props (new_SelectableItems
      \<lparr>si_className = None, si_initialItems = Some [''a''], si_possibleItems = Some [''b''],
       si_hasOnItemsSelect = True, si_hasSearchCallback = True, si_searchPlaceholderText = None,
       si_headerText = ''skills'', si_title = None\<rparr>)) ''z''
      (\<lparr>sv_value = ''zz'', sv_focused = True\<rparr>, new_SelectableItems
      \<lparr>si_className = None, si_initialItems = Some [''a''], si_possibleItems = Some [''b''],
       si_hasOnItemsSelect = True, si_hasSearchCallback = True, si_searchPlaceholderText = None,
       si_headerText = ''skills'', si_title = None\<rparr>))) = []"
proof -
  define p where "p = \<lparr>si_className = None, si_initialItems = Some [''a''], si_possibleItems = Some [''b''],
       si_hasOnItemsSelect = True, si_hasSearchCallback = True, si_searchPlaceholderText = None,
       si_headerText = ''skills'', si_title = None\<rparr>"
  have wf: "wf_obj (itemState (new_SelectableItems p))" using si_inv_new [of p] by (simp add: si_inv_def)
  have z: "''z'' \<notin> set object_prototype_members" by (simp add: object_prototype_members_def)
  show ?thesis
    using search_select_composed [OF wf z, where st = "\<lparr>sv_value = ''zz'', sv_focused = True\<rparr>"]
    unfolding p_def by simp
qed

section \<open>Tree chart: witnesses\<close>

theorem tc_render_total_witness:
  "\<exists>v. tc_render (\<lambda>_. ''$'') (mount_TreeChart tc_example_props (Some 1024)) = Inr v"
  using TreeChart.tc_render_total [OF tc_reachable.mount [of tc_example_props "Some 1024"], of "\<lambda>_. ''$''"]
  by (simp add: tc_example_props_def tc_example_children_def tc_example_leaf_def)

theorem click_back_roundtrip_witness:
  "\<exists>s'. tc_step (mount_TreeChart tc_example_props (Some 500)) (ClickLeaf 0) = Some s' \<and>
        currentRoot s' = Some [0] \<and> prevRoots s' = [Some []] \<and>
        tc_step s' ClickBack = Some (mount_TreeChart tc_example_props (Some 500))"
proof -
  let ?s = "mount_TreeChart tc_example_props (Some 500)"
  have cl: "current_leaves ?s = Some ([], tc_example_children)"
    by (simp add: mount_TreeChart_def new_TreeChart_def handleResize_def current_leaves_def tc_node_def
        isWide_def tabletBreakpoint_def tc_example_props_def)
  have pc: "js_truthy_num (td_percentage (tc_example_children ! 0))" "td_leaves (tc_example_children ! 0) \<noteq> None"
    by (simp_all add: js_truthy_num_def tc_example_children_def tc_example_leaf_def)
  have nw: "\<not> (isWide (tc_window ?s) \<and> tc_showTwoLevels (tc_props ?s))"
    by (simp add: mount_TreeChart_def new_TreeChart_def handleResize_def isWide_def tabletBreakpoint_def
        split: option.split prod.split)
  have pr: "prevRoots ?s = []"
    by (simp add: mount_TreeChart_def new_TreeChart_def handleResize_def split: option.split prod.split)
  show ?thesis
    using TreeChart.click_back_roundtrip [OF cl _ _ pc nw] pr by (simp add: tc_example_children_def)
qed

theorem back_leaves_second_stale_witness:
  "\<exists>s s'. tc_reachable s \<and> currentRoot s = Some [0] \<and> secondActiveLeaf s = Some [0, 0] \<and>
          tc_step s ClickBack = Some s' \<and> currentRoot s' = Some [] \<and> secondActiveLeaf s' = Some [0, 0] \<and>
          tc_step s' (Resize (Some 1024)) = Some s'"
proof -
  define s0 where "s0 = mount_TreeChart tc_example_props (Some 500)"
  define s1 where "s1 = handleSetRoot [0] (tc_example_children ! 0) s0"
  define s2 where "s2 = handleResize (s1\<lparr>tc_window := Some 1024\<rparr>)"
  have p0: "tc_props s0 = tc_example_props" "currentRoot s0 = Some []" "prevRoots s0 = []"
    "tc_window s0 = Some 500" "secondActiveLeaf s0 = None"
    by (simp_all add: s0_def mount_TreeChart_def new_TreeChart_def handleResize_def isWide_def
        tabletBreakpoint_def tc_example_props_def split: option.split prod.split)
  have cl0: "current_leaves s0 = Some ([], tc_example_children)"
    by (simp add: current_leaves_def tc_node_def p0 tc_example_props_def)
  have st1: "tc_step s0 (ClickLeaf 0) = Some s1"
    by (simp add: cl0 s1_def js_truthy_num_def tc_example_children_def tc_example_leaf_def)
  have p1: "tc_props s1 = tc_example_props" "currentRoot s1 = Some [0]" "prevRoots s1 = [Some []]"
    "secondActiveLeaf s1 = None"
    by (simp_all add: s1_def handleSetRoot_def setRoot_def p0 isWide_def tabletBreakpoint_def
        tc_example_children_def tc_example_leaf_def)
  have cl1: "current_leaves (s1\<lparr>tc_window := Some 1024\<rparr>) = Some ([0], td_leaves_list)"
    if "td_leaves_list = the (td_leaves (tc_example_children ! 0))" for td_leaves_list
    using that by (simp add: current_leaves_def tc_node_def p1 tc_example_props_def tc_example_children_def
        tc_example_leaf_def)
  have p2: "currentRoot s2 = Some [0]" "secondActiveLeaf s2 = Some [0, 0]" "prevRoots s2 = [Some []]"
    "tc_props s2 = tc_example_props" "tc_window s2 = Some 1024"
    by (simp_all add: s2_def handleResize_def cl1 [OF refl] p1 isWide_def tabletBreakpoint_def
        tc_example_props_def tc_example_children_def tc_example_leaf_def)
  have r2: "tc_reachable s2"
    using tc_reachable.step [OF tc_reachable.step [OF tc_reachable.mount st1 [unfolded s0_def]],
        of "Resize (Some 1024)" s2]
    by (simp add: s2_def)
  define s3 where "s3 = handleOnClickBack s2"
  have st3: "tc_step s2 ClickBack = Some s3" by (simp add: s3_def p2)
  obtain r where r: "secondActiveLeaf s3 = Some [0, 0]" "currentRoot s3 = Some r" "\<forall>i. [0, 0] \<noteq> r @ [i]"
    using TreeChart.back_leaves_second_stale [OF r2 st3 p2(2)] by blast
  have c3: "currentRoot s3 = Some []" by (simp add: s3_def handleOnClickBack_def p2)
  have p3: "tc_props s3 = tc_example_props" "tc_window s3 = Some 1024"
    by (simp_all add: s3_def handleOnClickBack_def p2)
  have w3: "s3\<lparr>tc_window := Some 1024\<rparr> = s3"
    by (rule tc_state.equality) (simp_all add: p3)
  have cl3: "current_leaves s3 = Some ([], tc_example_children)"
    by (simp add: current_leaves_def tc_node_def c3 p3 tc_example_props_def)
  have "handleResize s3 = s3"
    using r(1) by (simp add: handleResize_def cl3 p3 isWide_def tabletBreakpoint_def tc_example_props_def
        tc_example_children_def tc_example_leaf_def)
  then have "tc_step s3 (Resize (Some 1024)) = Some s3" by (simp add: w3)
  thus ?thesis using r2 p2 st3 r(1) c3 by blast
qed


theorem reachable_tc_inv_witness:
  "tc_reachable (mount_TreeChart tc_example_props (Some 1024)) \<and> tc_inv (mount_TreeChart tc_example_props (Some 1024))"
  using TreeChart.reachable_tc_inv [OF tc_reachable.mount] tc_reachable.mount by blast

section \<open>Pill selector: witnesses\<close>




theorem select_inherited_noop_witness:
  "''toString'' \<in> set object_prototype_members \<and>
   obj_get (itemState (new_SelectableItems si_example_props)) ''toString'' = None \<and>
   handleSearchSelect ''toString'' (new_SelectableItems si_example_props) = new_SelectableItems si_example_props"
proof -
  have m: "''toString'' \<in> set object_prototype_members" by (simp add: object_prototype_members_def)
  have n: "obj_get (itemState (new_SelectableItems si_example_props)) ''toString'' = None"
    by (simp add: new_SelectableItems_def si_example_props_def js_put_def obj_set_def obj_get_def)
  show ?thesis using m n SelectableItems.select_inherited_noop [OF m n] by blast
qed

end
